(* ===== verification/Acl_Prelude.thy ===== *)
theory Acl_Prelude
  imports Main "HOL-Library.Word" "HOL-Library.Monad_Syntax" "HOL-Library.Sublist"
    "HOL-Library.Multiset"
begin

section \<open>Shared types, byte encodings and buffers\<close>

text \<open>
  The machine types of the target (32-bit ARM, little endian), the in-memory encoding of
  integers, memory buffers with checked access, and the lists of addressed bytes with which
  the transfer theorems are stated. Nothing here is specific to one file of the driver.
\<close>

unbundle bit_operations_syntax

type_synonym u8 = "8 word"
type_synonym u16 = "16 word"
type_synonym u32 = "32 word"
type_synonym u64 = "64 word"

text \<open>Pointers, \<open>unsigned long\<close> and \<open>size_t\<close> are all 32 bits wide on this target.\<close>

type_synonym ptr = "32 word"

named_theorems hw_consts "values of the constants of the headers"
named_theorems env_simps "equations of the calls into the kernel"
named_theorems trace_simps "which bytes a call moves"

subsection \<open>Little-endian integers\<close>

primrec le_bytes :: "nat \<Rightarrow> nat \<Rightarrow> u8 list" where
  "le_bytes 0 v = []"
| "le_bytes (Suc n) v = word_of_nat (v mod 256) # le_bytes n (v div 256)"

primrec le_val :: "u8 list \<Rightarrow> nat" where
  "le_val [] = 0"
| "le_val (b # bs) = unat b + 256 * le_val bs"

lemma length_le_bytes [simp]: "length (le_bytes n v) = n"
  by (induction n arbitrary: v) auto

lemma le_val_le_bytes: "le_val (le_bytes n v) = v mod 256 ^ n"
proof (induction n arbitrary: v)
  case 0
  then show ?case by simp
next
  case (Suc n)
  have "unat (word_of_nat (v mod 256) :: u8) = v mod 256"
    by (simp add: unat_of_nat)
  then show ?case
    using Suc by (simp add: mod_mult2_eq [of v 256 "256 ^ n"])
qed

lemma le_val_bound: "le_val bs < 256 ^ length bs"
proof (induction bs)
  case Nil
  then show ?case by simp
next
  case (Cons b bs)
  have "unat b < 256" using unsigned_less [of b] by simp
  with Cons show ?case by simp
qed

lemma le_bytes_le_val: "le_bytes (length bs) (le_val bs) = bs"
proof (induction bs)
  case Nil
  then show ?case by simp
next
  case (Cons b bs)
  have "unat b < 256" using unsigned_less [of b] by simp
  then show ?case using Cons by simp
qed

text \<open>The bytes of a C object of type \<open>u16\<close> and \<open>u32\<close>, and the objects read back.\<close>

definition bytes_u16 :: "u16 \<Rightarrow> u8 list" where
  "bytes_u16 w = le_bytes 2 (unat w)"

definition bytes_u32 :: "u32 \<Rightarrow> u8 list" where
  "bytes_u32 w = le_bytes 4 (unat w)"

definition u16_bytes :: "u8 list \<Rightarrow> u16" where
  "u16_bytes bs = word_of_nat (le_val bs)"

definition u32_bytes :: "u8 list \<Rightarrow> u32" where
  "u32_bytes bs = word_of_nat (le_val bs)"

lemma length_bytes_u16 [simp]: "length (bytes_u16 w) = 2"
  by (simp add: bytes_u16_def)

lemma length_bytes_u32 [simp]: "length (bytes_u32 w) = 4"
  by (simp add: bytes_u32_def)

lemma unat_lt32 [simp]: "unat (w :: u32) < 4294967296"
proof -
  have "unat w < 2 ^ LENGTH(32)" by (rule unsigned_less)
  then show ?thesis by simp
qed

lemma unat_lt16 [simp]: "unat (w :: u16) < 65536"
proof -
  have "unat w < 2 ^ LENGTH(16)" by (rule unsigned_less)
  then show ?thesis by simp
qed

lemma u32_bytes_u32 [simp]: "u32_bytes (bytes_u32 w) = w"
proof -
  have "unat w mod 256 ^ 4 = unat w" by simp
  then show ?thesis by (simp add: u32_bytes_def bytes_u32_def le_val_le_bytes)
qed

lemma u16_bytes_u16 [simp]: "u16_bytes (bytes_u16 w) = w"
proof -
  have "unat w mod 256 ^ 2 = unat w" by simp
  then show ?thesis by (simp add: u16_bytes_def bytes_u16_def le_val_le_bytes)
qed

lemma bytes_u32_u32: "length bs = 4 \<Longrightarrow> bytes_u32 (u32_bytes bs) = bs"
  using le_val_bound [of bs] le_bytes_le_val [of bs]
  by (simp add: u32_bytes_def bytes_u32_def unat_of_nat)

lemma bytes_u16_u16: "length bs = 2 \<Longrightarrow> bytes_u16 (u16_bytes bs) = bs"
  using le_val_bound [of bs] le_bytes_le_val [of bs]
  by (simp add: u16_bytes_def bytes_u16_def unat_of_nat)

subsection \<open>Memory buffers with checked access\<close>

text \<open>
  A buffer is the list of its bytes. An access outside it is undefined behaviour of the C
  program and has no value here (\<^const>\<open>None\<close>), so a theorem that an operation returns
  \<^const>\<open>Some\<close> says that it never leaves its buffers.
\<close>

definition buf_get :: "u8 list \<Rightarrow> nat \<Rightarrow> nat \<Rightarrow> u8 list option" where
  "buf_get buf off n =
     (if off + n \<le> length buf then Some (take n (drop off buf)) else None)"

definition buf_put :: "u8 list \<Rightarrow> nat \<Rightarrow> u8 list \<Rightarrow> u8 list option" where
  "buf_put buf off bs =
     (if off + length bs \<le> length buf
      then Some (take off buf @ bs @ drop (off + length bs) buf) else None)"

lemma buf_get_Some [simp]:
  "off + n \<le> length buf \<Longrightarrow> buf_get buf off n = Some (take n (drop off buf))"
  by (simp add: buf_get_def)

lemma buf_put_Some [simp]:
  "off + length bs \<le> length buf \<Longrightarrow>
   buf_put buf off bs = Some (take off buf @ bs @ drop (off + length bs) buf)"
  by (simp add: buf_put_def)

lemma buf_put_length: "buf_put buf off bs = Some buf' \<Longrightarrow> length buf' = length buf"
  by (auto simp: buf_put_def split: if_splits)

subsection \<open>Bytes at consecutive addresses\<close>

primrec place :: "ptr \<Rightarrow> u8 list \<Rightarrow> (ptr \<times> u8) list" where
  "place a [] = []"
| "place a (b # bs) = (a, b) # place (a + 1) bs"

lemma length_place [simp]: "length (place a bs) = length bs"
  by (induction bs arbitrary: a) auto

lemma map_snd_place [simp]: "map snd (place a bs) = bs"
  by (induction bs arbitrary: a) auto

lemma place_append: "place a (xs @ ys) = place a xs @ place (a + of_nat (length xs)) ys"
  by (induction xs arbitrary: a) (auto simp: add_ac)

lemma place_nth: "i < length bs \<Longrightarrow> place a bs ! i = (a + of_nat i, bs ! i)"
  by (induction bs arbitrary: a i) (auto simp: nth_Cons add_ac split: nat.splits)

lemma map_fst_place: "map fst (place a bs) = map (\<lambda>i. a + of_nat i) [0..<length bs]"
  by (rule nth_equalityI) (auto simp: place_nth)

lemma of_nat_word_inj:
  "(of_nat i :: 'a::len word) = of_nat j \<Longrightarrow> i < 2 ^ LENGTH('a) \<Longrightarrow> j < 2 ^ LENGTH('a) \<Longrightarrow> i = j"
  by (metis mod_less unat_of_nat)

lemma distinct_place:
  assumes "length bs < 2 ^ 32"
  shows "distinct (map fst (place a bs))"
  unfolding map_fst_place distinct_conv_nth
proof (intro allI impI)
  fix i j
  assume ij: "i < length (map (\<lambda>i. a + of_nat i) [0..<length bs])"
    "j < length (map (\<lambda>i. a + of_nat i) [0..<length bs])" "i \<noteq> j"
  show "map (\<lambda>i. a + of_nat i) [0..<length bs] ! i \<noteq> map (\<lambda>i. a + of_nat i) [0..<length bs] ! j"
    using ij assms of_nat_word_inj [of i j, where 'a = 32] by auto
qed

subsection \<open>Lists\<close>

lemma takeWhile_take: "takeWhile P (take n xs) = take n (takeWhile P xs)"
proof (induction xs arbitrary: n)
  case Nil
  then show ?case by simp
next
  case (Cons x xs)
  then show ?case by (cases n) auto
qed

lemma find_append:
  "find P (xs @ ys) = (case find P xs of None \<Rightarrow> find P ys | Some x \<Rightarrow> Some x)"
  by (induction xs) auto

subsection \<open>Option-valued runs\<close>

lemma bind_Some_iff:
  "Option.bind m f = Some y \<longleftrightarrow> (\<exists>x. m = Some x \<and> f x = Some y)"
  by (cases m) auto

end
