(* ===== verification/Acl_Exports.thy ===== *)
theory Acl_Exports
  imports Acl_Prelude
begin

section \<open>The interface headers\<close>

text \<open>
  The constants shared by the driver and its users: \<^verbatim>\<open>pcie_linux_driver_exports.h\<close>
  (the command structure and the command numbers), \<^verbatim>\<open>hw_pcie_constants.h\<close> (the board's
  address map and its bit macros) and the sizes of \<^verbatim>\<open>aclsoc.h\<close>. The error numbers, the
  page size and the sizes of the C types are those of the target, Linux on 32-bit ARM
  (\<^verbatim>\<open>ARCH := arm\<close> in the Makefile).
\<close>

subsection \<open>Target constants\<close>

definition EAGAIN :: int where "EAGAIN = 11"
definition ENOMEM :: int where "ENOMEM = 12"
definition EFAULT :: int where "EFAULT = 14"
definition ERESTARTSYS :: int where "ERESTARTSYS = 512"

definition PAGE_SHIFT :: nat where "PAGE_SHIFT = 12"
definition PAGE_SIZE :: nat where "PAGE_SIZE = 4096"

lemma errno_simps [hw_consts]:
  "EAGAIN = 11" "ENOMEM = 12" "EFAULT = 14" "ERESTARTSYS = 512"
  "PAGE_SHIFT = 12" "PAGE_SIZE = 4096"
  by (simp_all add: EAGAIN_def ENOMEM_def EFAULT_def ERESTARTSYS_def PAGE_SHIFT_def PAGE_SIZE_def)

subsection \<open>Commands (pcie_linux_driver_exports.h)\<close>

definition ACLPCI_CMD_BAR :: u32 where "ACLPCI_CMD_BAR = 23"
definition ACLPCI_DMA_BAR :: u32 where "ACLPCI_DMA_BAR = 25"

definition ACLPCI_CMD_DEFAULT :: u32 where "ACLPCI_CMD_DEFAULT = 0"
definition ACLPCI_CMD_SAVE_PCI_CONTROL_REGS :: u32 where "ACLPCI_CMD_SAVE_PCI_CONTROL_REGS = 1"
definition ACLPCI_CMD_LOAD_PCI_CONTROL_REGS :: u32 where "ACLPCI_CMD_LOAD_PCI_CONTROL_REGS = 2"
definition ACLPCI_CMD_PIN_USER_ADDR :: u32 where "ACLPCI_CMD_PIN_USER_ADDR = 3"
definition ACLPCI_CMD_UNPIN_USER_ADDR :: u32 where "ACLPCI_CMD_UNPIN_USER_ADDR = 4"
definition ACLPCI_CMD_GET_DMA_IDLE_STATUS :: u32 where "ACLPCI_CMD_GET_DMA_IDLE_STATUS = 5"
definition ACLPCI_CMD_DMA_UPDATE :: u32 where "ACLPCI_CMD_DMA_UPDATE = 6"
definition ACLPCI_CMD_GET_DEVICE_ID :: u32 where "ACLPCI_CMD_GET_DEVICE_ID = 7"
definition ACLPCI_CMD_GET_VENDOR_ID :: u32 where "ACLPCI_CMD_GET_VENDOR_ID = 8"
definition ACLPCI_CMD_DO_CVP :: u32 where "ACLPCI_CMD_DO_CVP = 9"
definition ACLPCI_CMD_GET_PCI_GEN :: u32 where "ACLPCI_CMD_GET_PCI_GEN = 10"
definition ACLPCI_CMD_GET_PCI_NUM_LANES :: u32 where "ACLPCI_CMD_GET_PCI_NUM_LANES = 11"
definition ACLPCI_CMD_SET_SIGNAL_PAYLOAD :: u32 where "ACLPCI_CMD_SET_SIGNAL_PAYLOAD = 12"
definition ACLPCI_CMD_GET_DRIVER_VERSION :: u32 where "ACLPCI_CMD_GET_DRIVER_VERSION = 13"
definition ACLPCI_CMD_ENABLE_KERNEL_IRQ :: u32 where "ACLPCI_CMD_ENABLE_KERNEL_IRQ = 14"
definition ACLPCI_CMD_REPROGRAM_VIA_FPGA_MANAGER :: u32 where "ACLPCI_CMD_REPROGRAM_VIA_FPGA_MANAGER = 15"
definition ACLPCI_CMD_GET_PHYS_PTR_FROM_VIRT :: u32 where "ACLPCI_CMD_GET_PHYS_PTR_FROM_VIRT = 16"
definition ACLPCI_CMD_GET_PCI_SLOT_INFO :: u32 where "ACLPCI_CMD_GET_PCI_SLOT_INFO = 17"
definition ACLPCI_CMD_DMA_STOP :: u32 where "ACLPCI_CMD_DMA_STOP = 18"
definition ACLPCI_CMD_MAX_CMD :: u32 where "ACLPCI_CMD_MAX_CMD = 19"

definition SIG_INT_NOTIFY :: int where "SIG_INT_NOTIFY = 44"

lemma command_simps [hw_consts]:
  "ACLPCI_CMD_BAR = 23" "ACLPCI_DMA_BAR = 25" "ACLPCI_CMD_DEFAULT = 0"
  "ACLPCI_CMD_SAVE_PCI_CONTROL_REGS = 1" "ACLPCI_CMD_LOAD_PCI_CONTROL_REGS = 2"
  "ACLPCI_CMD_GET_DMA_IDLE_STATUS = 5" "ACLPCI_CMD_DMA_UPDATE = 6"
  "ACLPCI_CMD_GET_DEVICE_ID = 7" "ACLPCI_CMD_SET_SIGNAL_PAYLOAD = 12"
  "ACLPCI_CMD_GET_DRIVER_VERSION = 13" "ACLPCI_CMD_ENABLE_KERNEL_IRQ = 14"
  "ACLPCI_CMD_GET_PHYS_PTR_FROM_VIRT = 16" "ACLPCI_CMD_MAX_CMD = 19" "SIG_INT_NOTIFY = 44"
  "ACLPCI_CMD_PIN_USER_ADDR = 3" "ACLPCI_CMD_UNPIN_USER_ADDR = 4" "ACLPCI_CMD_GET_VENDOR_ID = 8"
  "ACLPCI_CMD_DO_CVP = 9" "ACLPCI_CMD_GET_PCI_GEN = 10" "ACLPCI_CMD_GET_PCI_NUM_LANES = 11"
  "ACLPCI_CMD_REPROGRAM_VIA_FPGA_MANAGER = 15" "ACLPCI_CMD_GET_PCI_SLOT_INFO = 17" "ACLPCI_CMD_DMA_STOP = 18"
  by (simp_all add: ACLPCI_CMD_BAR_def ACLPCI_DMA_BAR_def ACLPCI_CMD_DEFAULT_def
      ACLPCI_CMD_SAVE_PCI_CONTROL_REGS_def ACLPCI_CMD_LOAD_PCI_CONTROL_REGS_def
      ACLPCI_CMD_GET_DMA_IDLE_STATUS_def ACLPCI_CMD_DMA_UPDATE_def ACLPCI_CMD_GET_DEVICE_ID_def
      ACLPCI_CMD_SET_SIGNAL_PAYLOAD_def ACLPCI_CMD_GET_DRIVER_VERSION_def
      ACLPCI_CMD_ENABLE_KERNEL_IRQ_def ACLPCI_CMD_GET_PHYS_PTR_FROM_VIRT_def
      ACLPCI_CMD_MAX_CMD_def SIG_INT_NOTIFY_def ACLPCI_CMD_PIN_USER_ADDR_def
      ACLPCI_CMD_UNPIN_USER_ADDR_def ACLPCI_CMD_GET_VENDOR_ID_def ACLPCI_CMD_DO_CVP_def
      ACLPCI_CMD_GET_PCI_GEN_def ACLPCI_CMD_GET_PCI_NUM_LANES_def
      ACLPCI_CMD_REPROGRAM_VIA_FPGA_MANAGER_def ACLPCI_CMD_GET_PCI_SLOT_INFO_def
      ACLPCI_CMD_DMA_STOP_def)

text \<open>
  The structure every \<open>read()\<close> and \<open>write()\<close> call passes. The field \<open>size\<close> of the C
  structure is called \<open>cmd_size\<close>; the \<open>int\<close> field \<open>is_diff_endian\<close> is kept as its 32 bits.
\<close>

record acl_cmd =
  bar_id :: u32
  command :: u32
  device_addr :: ptr
  user_addr :: ptr
  cmd_size :: u32
  is_diff_endian :: u32

text \<open>Its layout in memory: six 32-bit fields without padding.\<close>

definition sizeof_acl_cmd :: nat where "sizeof_acl_cmd = 24"

definition encode_cmd :: "acl_cmd \<Rightarrow> u8 list" where
  "encode_cmd c =
     bytes_u32 (bar_id c) @ bytes_u32 (command c) @ bytes_u32 (device_addr c) @
     bytes_u32 (user_addr c) @ bytes_u32 (cmd_size c) @ bytes_u32 (is_diff_endian c)"

definition field32 :: "nat \<Rightarrow> u8 list \<Rightarrow> u32" where
  "field32 off bs = u32_bytes (take 4 (drop off bs))"

definition decode_cmd :: "u8 list \<Rightarrow> acl_cmd" where
  "decode_cmd bs =
     \<lparr>bar_id = field32 0 bs, command = field32 4 bs, device_addr = field32 8 bs,
      user_addr = field32 12 bs, cmd_size = field32 16 bs, is_diff_endian = field32 20 bs\<rparr>"

lemma length_encode_cmd [simp]: "length (encode_cmd c) = sizeof_acl_cmd"
  by (simp add: encode_cmd_def sizeof_acl_cmd_def)

lemma field32_skip [simp]: "length xs = n \<Longrightarrow> field32 (n + off) (xs @ ys) = field32 off ys"
  by (simp add: field32_def)

lemma field32_here [simp]: "length xs = 4 \<Longrightarrow> field32 0 (xs @ ys) = u32_bytes xs"
  "length xs = 4 \<Longrightarrow> field32 0 xs = u32_bytes xs"
  by (simp_all add: field32_def)

lemma decode_encode_cmd [simp]: "decode_cmd (encode_cmd c) = c"
  by (simp add: decode_cmd_def encode_cmd_def field32_def)

lemma take_drop_step: "take n (drop m bs) @ drop (m + n) bs = drop m bs"
  by (metis add.commute append_take_drop_id drop_drop)

lemma take_drop_pieces:
  assumes "length bs = 24"
  shows "take 4 bs @ take 4 (drop 4 bs) @ take 4 (drop 8 bs) @ take 4 (drop 12 bs) @
    take 4 (drop 16 bs) @ take 4 (drop 20 bs) = bs"
proof -
  have "take 4 (drop 20 bs) = drop 20 bs" using assms by (intro take_all) simp
  moreover have "take 4 (drop 16 bs) @ drop 20 bs = drop 16 bs"
    "take 4 (drop 12 bs) @ drop 16 bs = drop 12 bs" "take 4 (drop 8 bs) @ drop 12 bs = drop 8 bs"
    "take 4 (drop 4 bs) @ drop 8 bs = drop 4 bs" "take 4 bs @ drop 4 bs = bs"
    using take_drop_step [of 4 16 bs] take_drop_step [of 4 12 bs] take_drop_step [of 4 8 bs]
      take_drop_step [of 4 4 bs] append_take_drop_id [of 4 bs] by simp_all
  ultimately show ?thesis by (simp only:)
qed

lemma encode_decode_cmd:
  assumes "length bs = sizeof_acl_cmd"
  shows "encode_cmd (decode_cmd bs) = bs"
proof -
  have len: "length bs = 24" using assms by (simp add: sizeof_acl_cmd_def)
  then show ?thesis
    using take_drop_pieces [OF len]
    by (simp add: encode_cmd_def decode_cmd_def field32_def bytes_u32_u32)
qed

subsection \<open>The board's address map (hw_pcie_constants.h)\<close>

definition ACL_C5DK_DEVICE_ID :: u32 where "ACL_C5DK_DEVICE_ID = 0xC500"
definition ACL_KERNEL_CSR_OFFSET :: u32 where "ACL_KERNEL_CSR_OFFSET = 0x4000"
definition PCIE_CRA_IRQ_ENABLE :: u32 where "PCIE_CRA_IRQ_ENABLE = 0x0050"
definition ACL_PCIE_MEMWINDOW_BAR :: u32 where "ACL_PCIE_MEMWINDOW_BAR = 0"
definition ACL_PCIE_MEMWINDOW_CRA :: u32 where "ACL_PCIE_MEMWINDOW_CRA = 0x0c870"
definition ACL_PCIE_MEMWINDOW_BASE :: u32 where "ACL_PCIE_MEMWINDOW_BASE = 0x10000"
definition ACL_PCIE_MEMWINDOW_SIZE :: u32 where "ACL_PCIE_MEMWINDOW_SIZE = 0x10000"
definition DMA_ALIGNMENT_BYTES :: u32 where "DMA_ALIGNMENT_BYTES = 64"
definition DMA_ALIGNMENT_BYTE_MASK :: u32 where "DMA_ALIGNMENT_BYTE_MASK = DMA_ALIGNMENT_BYTES - 1"

lemma board_simps [hw_consts]:
  "ACL_C5DK_DEVICE_ID = 0xC500" "ACL_KERNEL_CSR_OFFSET = 0x4000" "PCIE_CRA_IRQ_ENABLE = 0x50"
  "ACL_PCIE_MEMWINDOW_BAR = 0" "ACL_PCIE_MEMWINDOW_CRA = 0xc870"
  "ACL_PCIE_MEMWINDOW_BASE = 0x10000" "ACL_PCIE_MEMWINDOW_SIZE = 0x10000"
  "DMA_ALIGNMENT_BYTE_MASK = 63"
  by (simp_all add: ACL_C5DK_DEVICE_ID_def ACL_KERNEL_CSR_OFFSET_def PCIE_CRA_IRQ_ENABLE_def
      ACL_PCIE_MEMWINDOW_BAR_def ACL_PCIE_MEMWINDOW_CRA_def ACL_PCIE_MEMWINDOW_BASE_def
      ACL_PCIE_MEMWINDOW_SIZE_def DMA_ALIGNMENT_BYTE_MASK_def DMA_ALIGNMENT_BYTES_def)

text \<open>
  The bit macros, on 32-bit unsigned words. In C a shift by 32 or more is undefined; the
  lemmas speak of bits below 32.
\<close>

definition ACL_PCIE_READ_BIT :: "u32 \<Rightarrow> nat \<Rightarrow> u32" where
  "ACL_PCIE_READ_BIT w b = drop_bit b w AND 1"

definition ACL_PCIE_READ_BIT_RANGE :: "u32 \<Rightarrow> nat \<Rightarrow> nat \<Rightarrow> u32" where
  "ACL_PCIE_READ_BIT_RANGE w h l = drop_bit l w AND (push_bit (h - l + 1) 1 - 1)"

definition ACL_PCIE_GET_BIT :: "nat \<Rightarrow> u32" where
  "ACL_PCIE_GET_BIT b = push_bit b 1"

definition ACL_PCIE_SET_BIT :: "u32 \<Rightarrow> nat \<Rightarrow> u32" where
  "ACL_PCIE_SET_BIT w b = w OR push_bit b 1"

definition ACL_PCIE_CLEAR_BIT :: "u32 \<Rightarrow> nat \<Rightarrow> u32" where
  "ACL_PCIE_CLEAR_BIT w b = w AND NOT (push_bit b 1)"

lemma read_bit_iff: "ACL_PCIE_READ_BIT w b = (if bit w b then 1 else 0)"
  unfolding ACL_PCIE_READ_BIT_def
  by (simp add: and_one_eq mod_2_eq_odd flip: bit_iff_odd_drop_bit)

lemma bit_set_bit: "bit (ACL_PCIE_SET_BIT w b) n \<longleftrightarrow> bit w n \<or> (n = b \<and> b < 32)"
  unfolding ACL_PCIE_SET_BIT_def by (auto simp: bit_simps)

lemma bit_clear_bit: "bit (ACL_PCIE_CLEAR_BIT w b) n \<longleftrightarrow> bit w n \<and> n \<noteq> b"
  unfolding ACL_PCIE_CLEAR_BIT_def by (auto simp: bit_simps dest: bit_imp_le_length)

end
