(* ===== verification/Kernel_Env.thy ===== *)
theory Kernel_Env
  imports Acl_Exports
begin

section \<open>The kernel, the hardware and the user process as a parameter\<close>

text \<open>
  The driver is a client of the Linux kernel, of the FPGA's registers and of user memory, none
  of which is code of this repository. They are a parameter of the model, a record
  \<open>kernel\<close> of functions that give the answer of each call. An answer may depend on the whole
  history of the calls made so far, so the parameter stands for an arbitrary environment: memory
  that faults, devices whose registers change, allocations that fail.

  Every call is recorded in the history, newest first. Theorems about what the driver asks of
  its environment and in which order are statements about the recorded events and need no
  hypothesis about the answers. What a theorem does rely on, such as "the device's memory gives
  back what was written", is a named hypothesis over the answers.
\<close>

subsection \<open>Events\<close>

record siginfo =
  si_signo :: int
  si_code :: int
  si_int :: u32

datatype kevent =
    Down int
  | Up
  | Copy_from_user ptr "u8 list" u32
  | Copy_to_user ptr "u8 list" u32
  | Readb ptr u8
  | Readw ptr u16
  | Readl ptr u32
  | Writeb u8 ptr
  | Writew u16 ptr
  | Writel u32 ptr
  | Send_sig_info int siginfo ptr int
  | Request_irq u32 int
  | Free_irq u32
  | Dma_alloc_coherent u32 ptr u32
  | Dma_free_coherent u32 ptr u32
  | Remap_pfn_range ptr u32 u32 u32 int
  | Kmalloc u32 ptr
  | Kzalloc u32 ptr
  | Kfree ptr
  | Alloc_chrdev_region u32 u32 string int u32
  | Unregister_chrdev_region u32 u32
  | Class_create string ptr
  | Class_destroy ptr
  | Cdev_add u32 u32 int
  | Cdev_del
  | Device_create ptr u32 string ptr
  | Device_destroy ptr u32
  | Ioremap u32 u32 ptr
  | Iounmap ptr

type_synonym hist = "kevent list"

text \<open>
  The answers. \<open>ans_uninit\<close> gives the bytes an uninitialised object holds. A failing
  \<open>copy_from_user\<close> may change any part of its destination, so its answer is the new
  contents of the destination and the number of bytes it did not copy. \<open>kr_init\<close>,
  \<open>kr_get\<close> and \<open>kr_put\<close> are the kernel's reference counters; \<open>kr_put\<close> also says
  whether the counter's release function is to be called.
\<close>

record kernel =
  ans_uninit :: "hist \<Rightarrow> nat \<Rightarrow> u8"
  ans_down :: "hist \<Rightarrow> int"
  ans_copy_from_user :: "hist \<Rightarrow> ptr \<Rightarrow> u8 list \<Rightarrow> (nat \<Rightarrow> u8) \<times> u32"
  ans_copy_to_user :: "hist \<Rightarrow> ptr \<Rightarrow> u8 list \<Rightarrow> u32"
  ans_readb :: "hist \<Rightarrow> ptr \<Rightarrow> u8"
  ans_readw :: "hist \<Rightarrow> ptr \<Rightarrow> u16"
  ans_readl :: "hist \<Rightarrow> ptr \<Rightarrow> u32"
  ans_send_sig_info :: "hist \<Rightarrow> int \<Rightarrow> siginfo \<Rightarrow> ptr \<Rightarrow> int"
  ans_request_irq :: "hist \<Rightarrow> u32 \<Rightarrow> int"
  ans_dma_alloc_coherent :: "hist \<Rightarrow> u32 \<Rightarrow> ptr \<times> u32"
  ans_remap_pfn_range :: "hist \<Rightarrow> ptr \<Rightarrow> u32 \<Rightarrow> u32 \<Rightarrow> u32 \<Rightarrow> int"
  ans_kmalloc :: "hist \<Rightarrow> u32 \<Rightarrow> ptr"
  ans_kzalloc :: "hist \<Rightarrow> u32 \<Rightarrow> ptr"
  ans_alloc_chrdev_region :: "hist \<Rightarrow> u32 \<Rightarrow> u32 \<Rightarrow> string \<Rightarrow> int \<times> u32"
  ans_class_create :: "hist \<Rightarrow> string \<Rightarrow> ptr"
  ans_cdev_add :: "hist \<Rightarrow> u32 \<Rightarrow> u32 \<Rightarrow> int"
  ans_device_create :: "hist \<Rightarrow> ptr \<Rightarrow> u32 \<Rightarrow> string \<Rightarrow> ptr"
  ans_ioremap :: "hist \<Rightarrow> u32 \<Rightarrow> u32 \<Rightarrow> ptr"
  sizeof_aclsoc_dev :: u32
  IS_ERR :: "ptr \<Rightarrow> bool"
  MAJOR :: "u32 \<Rightarrow> u32"
  MKDEV :: "u32 \<Rightarrow> u32 \<Rightarrow> u32"
  pgprot_noncached :: "u32 \<Rightarrow> u32"
  kr_init :: u32
  kr_get :: "u32 \<Rightarrow> u32"
  kr_put :: "u32 \<Rightarrow> u32 \<times> bool"

subsection \<open>The calls\<close>

definition uninit :: "kernel \<Rightarrow> nat \<Rightarrow> hist \<Rightarrow> u8 list" where
  "uninit K n h = map (ans_uninit K h) [0..<n]"

definition down_interruptible :: "kernel \<Rightarrow> hist \<Rightarrow> int \<times> hist" where
  "down_interruptible K h = (ans_down K h, Down (ans_down K h) # h)"

definition up :: "hist \<Rightarrow> hist" where
  "up h = Up # h"

definition copy_from_user :: "kernel \<Rightarrow> ptr \<Rightarrow> u8 list \<Rightarrow> hist \<Rightarrow> u32 \<times> u8 list \<times> hist" where
  "copy_from_user K p old h =
     (let (f, left) = ans_copy_from_user K h p old; new = map f [0..<length old]
      in (left, new, Copy_from_user p new left # h))"

definition copy_to_user :: "kernel \<Rightarrow> ptr \<Rightarrow> u8 list \<Rightarrow> hist \<Rightarrow> u32 \<times> hist" where
  "copy_to_user K p bs h = (let left = ans_copy_to_user K h p bs in (left, Copy_to_user p bs left # h))"

definition readb :: "kernel \<Rightarrow> ptr \<Rightarrow> hist \<Rightarrow> u8 \<times> hist" where
  "readb K a h = (ans_readb K h a, Readb a (ans_readb K h a) # h)"

definition readw :: "kernel \<Rightarrow> ptr \<Rightarrow> hist \<Rightarrow> u16 \<times> hist" where
  "readw K a h = (ans_readw K h a, Readw a (ans_readw K h a) # h)"

definition readl :: "kernel \<Rightarrow> ptr \<Rightarrow> hist \<Rightarrow> u32 \<times> hist" where
  "readl K a h = (ans_readl K h a, Readl a (ans_readl K h a) # h)"

definition writeb :: "u8 \<Rightarrow> ptr \<Rightarrow> hist \<Rightarrow> hist" where "writeb v a h = Writeb v a # h"
definition writew :: "u16 \<Rightarrow> ptr \<Rightarrow> hist \<Rightarrow> hist" where "writew v a h = Writew v a # h"
definition writel :: "u32 \<Rightarrow> ptr \<Rightarrow> hist \<Rightarrow> hist" where "writel v a h = Writel v a # h"

definition send_sig_info :: "kernel \<Rightarrow> int \<Rightarrow> siginfo \<Rightarrow> ptr \<Rightarrow> hist \<Rightarrow> int \<times> hist" where
  "send_sig_info K sg info task h =
     (let r = ans_send_sig_info K h sg info task in (r, Send_sig_info sg info task r # h))"

definition request_irq :: "kernel \<Rightarrow> u32 \<Rightarrow> hist \<Rightarrow> int \<times> hist" where
  "request_irq K irq h = (let r = ans_request_irq K h irq in (r, Request_irq irq r # h))"

definition free_irq :: "u32 \<Rightarrow> hist \<Rightarrow> hist" where "free_irq irq h = Free_irq irq # h"

definition dma_alloc_coherent :: "kernel \<Rightarrow> u32 \<Rightarrow> hist \<Rightarrow> (ptr \<times> u32) \<times> hist" where
  "dma_alloc_coherent K sz h =
     (let (p, d) = ans_dma_alloc_coherent K h sz in ((p, d), Dma_alloc_coherent sz p d # h))"

definition dma_free_coherent :: "u32 \<Rightarrow> ptr \<Rightarrow> u32 \<Rightarrow> hist \<Rightarrow> hist" where
  "dma_free_coherent sz p d h = Dma_free_coherent sz p d # h"

definition remap_pfn_range :: "kernel \<Rightarrow> ptr \<Rightarrow> u32 \<Rightarrow> u32 \<Rightarrow> u32 \<Rightarrow> hist \<Rightarrow> int \<times> hist" where
  "remap_pfn_range K v pfn sz prot h =
     (let r = ans_remap_pfn_range K h v pfn sz prot in (r, Remap_pfn_range v pfn sz prot r # h))"

definition kmalloc :: "kernel \<Rightarrow> u32 \<Rightarrow> hist \<Rightarrow> ptr \<times> hist" where
  "kmalloc K n h = (let p = ans_kmalloc K h n in (p, Kmalloc n p # h))"

definition kzalloc :: "kernel \<Rightarrow> u32 \<Rightarrow> hist \<Rightarrow> ptr \<times> hist" where
  "kzalloc K n h = (let p = ans_kzalloc K h n in (p, Kzalloc n p # h))"

definition kfree :: "ptr \<Rightarrow> hist \<Rightarrow> hist" where "kfree p h = Kfree p # h"

definition alloc_chrdev_region :: "kernel \<Rightarrow> u32 \<Rightarrow> u32 \<Rightarrow> string \<Rightarrow> hist \<Rightarrow> (int \<times> u32) \<times> hist" where
  "alloc_chrdev_region K minor cnt nm h =
     (let (r, num) = ans_alloc_chrdev_region K h minor cnt nm
      in ((r, num), Alloc_chrdev_region minor cnt nm r num # h))"

definition unregister_chrdev_region :: "u32 \<Rightarrow> u32 \<Rightarrow> hist \<Rightarrow> hist" where
  "unregister_chrdev_region num cnt h = Unregister_chrdev_region num cnt # h"

definition class_create :: "kernel \<Rightarrow> string \<Rightarrow> hist \<Rightarrow> ptr \<times> hist" where
  "class_create K nm h = (let p = ans_class_create K h nm in (p, Class_create nm p # h))"

definition class_destroy :: "ptr \<Rightarrow> hist \<Rightarrow> hist" where "class_destroy p h = Class_destroy p # h"

definition cdev_add :: "kernel \<Rightarrow> u32 \<Rightarrow> u32 \<Rightarrow> hist \<Rightarrow> int \<times> hist" where
  "cdev_add K num cnt h = (let r = ans_cdev_add K h num cnt in (r, Cdev_add num cnt r # h))"

definition cdev_del :: "hist \<Rightarrow> hist" where "cdev_del h = Cdev_del # h"

definition device_create :: "kernel \<Rightarrow> ptr \<Rightarrow> u32 \<Rightarrow> string \<Rightarrow> hist \<Rightarrow> ptr \<times> hist" where
  "device_create K cls num nm h =
     (let p = ans_device_create K h cls num nm in (p, Device_create cls num nm p # h))"

definition device_destroy :: "ptr \<Rightarrow> u32 \<Rightarrow> hist \<Rightarrow> hist" where
  "device_destroy cls num h = Device_destroy cls num # h"

definition ioremap :: "kernel \<Rightarrow> u32 \<Rightarrow> u32 \<Rightarrow> hist \<Rightarrow> ptr \<times> hist" where
  "ioremap K base sz h = (let p = ans_ioremap K h base sz in (p, Ioremap base sz p # h))"

definition iounmap :: "ptr \<Rightarrow> hist \<Rightarrow> hist" where "iounmap p h = Iounmap p # h"

lemmas env_call_simps [env_simps] =
  down_interruptible_def up_def readb_def readw_def readl_def writeb_def writew_def writel_def
  free_irq_def dma_free_coherent_def kfree_def unregister_chrdev_region_def class_destroy_def
  cdev_del_def device_destroy_def iounmap_def
  copy_to_user_def send_sig_info_def request_irq_def dma_alloc_coherent_def remap_pfn_range_def
  kmalloc_def kzalloc_def alloc_chrdev_region_def class_create_def cdev_add_def device_create_def
  ioremap_def

lemma length_uninit [simp]: "length (uninit K n h) = n"
  by (simp add: uninit_def)

lemma copy_from_user_length:
  "copy_from_user K p old h = (left, new, h') \<Longrightarrow>
   length new = length old \<and> h' = Copy_from_user p new left # h"
  by (auto simp: copy_from_user_def Let_def split: prod.splits)

subsection \<open>Chronological traces\<close>

text \<open>\<open>runs h tr h'\<close>: the calls \<open>tr\<close>, oldest first, lead from history \<open>h\<close> to \<open>h'\<close>.\<close>

definition runs :: "hist \<Rightarrow> kevent list \<Rightarrow> hist \<Rightarrow> bool" where
  "runs h tr h' \<longleftrightarrow> h' = rev tr @ h"

lemma runs_refl [simp, intro]: "runs h [] h"
  by (simp add: runs_def)

lemma runs_one [simp, intro]: "runs h [e] (e # h)"
  by (simp add: runs_def)

lemma runs_trans: "runs h t h1 \<Longrightarrow> runs h1 t' h2 \<Longrightarrow> runs h (t @ t') h2"
  by (simp add: runs_def)

lemma runs_unique: "runs h t h' \<Longrightarrow> runs h t' h' \<Longrightarrow> t = t'"
  by (auto simp: runs_def)

text \<open>
  The bytes a call moves: to and from the device's registers, and to and from user memory. A
  partial copy counts as none, because its callers give up on it.
\<close>

fun dev_reads :: "kevent \<Rightarrow> (ptr \<times> u8) list" where
  "dev_reads (Readb a v) = [(a, v)]"
| "dev_reads (Readw a v) = place a (bytes_u16 v)"
| "dev_reads (Readl a v) = place a (bytes_u32 v)"
| "dev_reads _ = []"

fun dev_writes :: "kevent \<Rightarrow> (ptr \<times> u8) list" where
  "dev_writes (Writeb v a) = [(a, v)]"
| "dev_writes (Writew v a) = place a (bytes_u16 v)"
| "dev_writes (Writel v a) = place a (bytes_u32 v)"
| "dev_writes _ = []"

fun user_writes :: "kevent \<Rightarrow> (ptr \<times> u8) list" where
  "user_writes (Copy_to_user p bs left) = (if left = 0 then place p bs else [])"
| "user_writes _ = []"

fun user_reads :: "kevent \<Rightarrow> (ptr \<times> u8) list" where
  "user_reads (Copy_from_user p bs left) = (if left = 0 then place p bs else [])"
| "user_reads _ = []"

text \<open>The copies that were complete.\<close>

definition copied :: "kevent \<Rightarrow> bool" where
  "copied e \<longleftrightarrow>
     (case e of Copy_to_user p bs left \<Rightarrow> left = 0 | Copy_from_user p bs left \<Rightarrow> left = 0 | _ \<Rightarrow> True)"

lemma copied_simps [simp]:
  "copied (Copy_to_user p bs left) = (left = 0)" "copied (Copy_from_user p bs left) = (left = 0)"
  by (simp_all add: copied_def)

definition moved :: "(kevent \<Rightarrow> (ptr \<times> u8) list) \<Rightarrow> kevent list \<Rightarrow> (ptr \<times> u8) list" where
  "moved f tr = concat (map f tr)"

lemma moved_simps [trace_simps]:
  "moved f [] = []" "moved f (e # tr) = f e @ moved f tr" "moved f (t @ t') = moved f t @ moved f t'"
  by (simp_all add: moved_def)

text \<open>The register addresses a trace touches, with the width of each access.\<close>

fun mmio_access :: "kevent \<Rightarrow> (ptr \<times> nat) option" where
  "mmio_access (Readb a v) = Some (a, 1)"
| "mmio_access (Readw a v) = Some (a, 2)"
| "mmio_access (Readl a v) = Some (a, 4)"
| "mmio_access (Writeb v a) = Some (a, 1)"
| "mmio_access (Writew v a) = Some (a, 2)"
| "mmio_access (Writel v a) = Some (a, 4)"
| "mmio_access _ = None"

subsection \<open>The device's lock\<close>

text \<open>
  The semaphore \<open>sem\<close> read off the history: a successful \<open>down_interruptible\<close> takes
  it, \<open>up\<close> gives it back.
\<close>

primrec lock_depth :: "hist \<Rightarrow> int" where
  "lock_depth [] = 0"
| "lock_depth (e # h) =
     (case e of Down r \<Rightarrow> (if r = 0 then 1 else 0) | Up \<Rightarrow> -1 | _ \<Rightarrow> 0) + lock_depth h"

text \<open>
  The calls a transfer or a command makes: all but the calls on the lock and those that change
  who owns DMA memory.
\<close>

definition plain_call :: "kevent \<Rightarrow> bool" where
  "plain_call e \<longleftrightarrow>
     (case e of Down r \<Rightarrow> False | Up \<Rightarrow> False
      | Dma_alloc_coherent n p dm \<Rightarrow> False | Dma_free_coherent n p dm \<Rightarrow> False
      | Remap_pfn_range v pfn n prot r \<Rightarrow> False | _ \<Rightarrow> True)"

lemma lock_depth_runs:
  "runs h tr h' \<Longrightarrow> \<forall>e \<in> set tr. plain_call e \<Longrightarrow> lock_depth h' = lock_depth h"
proof (induction tr arbitrary: h)
  case Nil
  then show ?case by (simp add: runs_def)
next
  case (Cons e tr)
  from Cons.prems have "runs (e # h) tr h'" by (simp add: runs_def)
  with Cons have "lock_depth h' = lock_depth (e # h)" by simp
  with Cons.prems(2) show ?case by (simp add: plain_call_def split: kevent.splits)
qed

end
