(* ===== verification/Acl_Device.thy ===== *)
theory Acl_Device
  imports Kernel_Env
begin

section \<open>The device structure (aclsoc.h)\<close>

text \<open>
  The driver's state: \<^verbatim>\<open>struct addr_map_elem\<close>, \<^verbatim>\<open>struct aclsoc_dev\<close> and the part of the
  kernel's \<^verbatim>\<open>struct vm_area_struct\<close> the driver reads and writes. A pointer to memory the
  driver allocates is kept with the contents of that memory (\<open>buffer\<close> with \<open>buffer_mem\<close>,
  \<open>addr_map\<close> with \<open>addr_map_mem\<close>), so a null pointer is visible in the state.
  The fields \<open>cdev\<close> and \<open>sem\<close> are kernel objects: their use is in the recorded events.
\<close>

definition BUF_SIZE :: nat where "BUF_SIZE = PAGE_SIZE"

record addr_map_elem =
  vm_start :: u32
  map_size :: u32
  cpu_addr :: ptr
  dma_handle :: u32
  ref :: u32

definition sizeof_addr_map_elem :: nat where "sizeof_addr_map_elem = 20"

definition MAX_ADDR_MAP_ENTRIES :: nat where
  "MAX_ADDR_MAP_ENTRIES = PAGE_SIZE div sizeof_addr_map_elem"

lemma size_simps [hw_consts]: "BUF_SIZE = 4096" "MAX_ADDR_MAP_ENTRIES = 204"
  by (simp_all add: BUF_SIZE_def MAX_ADDR_MAP_ENTRIES_def sizeof_addr_map_elem_def PAGE_SIZE_def)

record aclsoc_dev =
  mapped_region :: "nat \<Rightarrow> ptr"
  mapped_region_size :: "nat \<Rightarrow> u32"
  addr_map :: ptr
  addr_map_mem :: "addr_map_elem list"
  global_mem_segment :: u64
  saved_kernel_irq_mask :: u8
  global_mem_segment_addr :: ptr
  buffer :: ptr
  buffer_mem :: "u8 list"
  user_pid :: int
  cdev_num :: u32
  my_class :: ptr
  device :: ptr
  signal_info :: siginfo
  user_task :: ptr
  user_filehandle :: int
  num_handled_interrupts :: u32
  num_undelivered_signals :: u32

text \<open>Memory from \<open>kzalloc\<close> is zero.\<close>

definition zero_siginfo :: siginfo where
  "zero_siginfo = \<lparr>si_signo = 0, si_code = 0, si_int = 0\<rparr>"

definition zero_elem :: addr_map_elem where
  "zero_elem = \<lparr>vm_start = 0, map_size = 0, cpu_addr = 0, dma_handle = 0, ref = 0\<rparr>"

definition zero_dev :: aclsoc_dev where
  "zero_dev =
     \<lparr>mapped_region = (\<lambda>_. 0), mapped_region_size = (\<lambda>_. 0), addr_map = 0, addr_map_mem = [],
      global_mem_segment = 0, saved_kernel_irq_mask = 0, global_mem_segment_addr = 0,
      buffer = 0, buffer_mem = [], user_pid = 0, cdev_num = 0, my_class = 0, device = 0,
      signal_info = zero_siginfo, user_task = 0, user_filehandle = 0,
      num_handled_interrupts = 0, num_undelivered_signals = 0\<rparr>"

text \<open>
  The part of a user mapping the driver deals with. \<open>vma_ops\<close> says whether \<open>vm_ops\<close>
  points to the driver's operations; \<open>vma_private\<close> is the slot of \<open>addr_map\<close> that
  \<open>vm_private_data\<close> points to.
\<close>

record vma =
  vma_start :: u32
  vma_end :: u32
  vma_page_prot :: u32
  vma_ops :: bool
  vma_private :: "nat option"

subsection \<open>The well-formed device\<close>

text \<open>
  What a successful \<open>aclsoc_probe\<close> leaves behind and every operation keeps: the buffers are
  allocated with their sizes and the two bridges are mapped with theirs.
\<close>

definition dev_wf :: "aclsoc_dev \<Rightarrow> bool" where
  "dev_wf d \<longleftrightarrow>
     length (buffer_mem d) = BUF_SIZE \<and>
     addr_map d \<noteq> 0 \<and> length (addr_map_mem d) = MAX_ADDR_MAP_ENTRIES \<and>
     mapped_region_size d 0 = 0x20000 \<and> mapped_region_size d 2 = 0x40000"

lemma dev_wfD:
  assumes "dev_wf d"
  shows "length (buffer_mem d) = BUF_SIZE" "addr_map d \<noteq> 0"
    "length (addr_map_mem d) = MAX_ADDR_MAP_ENTRIES"
    "mapped_region_size d 0 = 0x20000" "mapped_region_size d 2 = 0x40000"
  using assms by (simp_all add: dev_wf_def)

text \<open>What an operation other than \<open>mmap()\<close> leaves as it was.\<close>

definition keeps :: "aclsoc_dev \<Rightarrow> aclsoc_dev \<Rightarrow> bool" where
  "keeps d d' \<longleftrightarrow>
     (dev_wf d \<longrightarrow> dev_wf d') \<and> addr_map_mem d' = addr_map_mem d \<and> mapped_region d' = mapped_region d"

lemma keeps_refl [simp, intro]: "keeps d d"
  by (simp add: keeps_def)

lemma keeps_wf: "keeps d d' \<Longrightarrow> dev_wf d \<Longrightarrow> dev_wf d'"
  by (simp add: keeps_def)

end
