(* ===== verification/Acl_Irq.thy ===== *)
theory Acl_Irq
  imports Acl_Device
begin

section \<open>Interrupts (aclsoc.c)\<close>

text \<open>
  Enabling and disabling the kernel-done interrupt, the handler, and the acquisition and release
  of the interrupt line. \<open>POLLING\<close> is 0 in \<^verbatim>\<open>aclsoc.h\<close>, so the interrupt branches are the
  compiled ones. Messages to the kernel log are not modelled.
\<close>

definition PIO_IRQ :: u32 where "PIO_IRQ = 72"

lemma PIO_IRQ_simp [hw_consts]: "PIO_IRQ = 72" by (simp add: PIO_IRQ_def)

text \<open>\<open>SI_QUEUE\<close> is a constant of the kernel's signal interface.\<close>

definition SI_QUEUE :: int where "SI_QUEUE = -1"

datatype irqreturn = IRQ_NONE | IRQ_HANDLED

definition get_interrupt_enable_addr :: "aclsoc_dev \<Rightarrow> ptr" where
  "get_interrupt_enable_addr d = mapped_region d 2 + (ACL_KERNEL_CSR_OFFSET + PCIE_CRA_IRQ_ENABLE)"

definition mask_irq :: "aclsoc_dev \<Rightarrow> hist \<Rightarrow> hist" where
  "mask_irq d h = writel 0x0 (get_interrupt_enable_addr d) h"

definition unmask_irq :: "aclsoc_dev \<Rightarrow> hist \<Rightarrow> hist" where
  "unmask_irq d h = writel 0x1 (get_interrupt_enable_addr d) h"

definition unmask_kernel_irq :: "aclsoc_dev \<Rightarrow> hist \<Rightarrow> hist" where
  "unmask_kernel_irq d h = writel 0x1 (get_interrupt_enable_addr d) h"

text \<open>The handler; its argument is \<open>dev_id\<close>, \<^const>\<open>None\<close> for a null pointer.\<close>

definition aclsoc_irq ::
  "kernel \<Rightarrow> aclsoc_dev option \<Rightarrow> hist \<Rightarrow> irqreturn \<times> aclsoc_dev option \<times> hist" where
  "aclsoc_irq K dev_id h =
     (case dev_id of None \<Rightarrow> (IRQ_NONE, None, h)
      | Some d \<Rightarrow>
          let d = d\<lparr>num_handled_interrupts := num_handled_interrupts d + 1\<rparr>;
              h = mask_irq d h
          in if user_task d \<noteq> 0 then
               let (r, h) = send_sig_info K SIG_INT_NOTIFY (signal_info d) (user_task d) h;
                   d = (if r < 0 then d\<lparr>num_undelivered_signals := num_undelivered_signals d + 1\<rparr>
                        else d)
               in (IRQ_HANDLED, Some d, h)
             else (IRQ_HANDLED, Some d, h))"

definition load_signal_info :: "aclsoc_dev \<Rightarrow> aclsoc_dev" where
  "load_signal_info d =
     d\<lparr>signal_info := zero_siginfo\<lparr>si_signo := SIG_INT_NOTIFY, si_code := SI_QUEUE, si_int := 0\<rparr>\<rparr>"

definition init_irq :: "kernel \<Rightarrow> aclsoc_dev option \<Rightarrow> hist \<Rightarrow> int \<times> aclsoc_dev option \<times> hist" where
  "init_irq K dev h =
     (case dev of None \<Rightarrow> (-1, None, h)
      | Some d \<Rightarrow>
          let (rc, h) = request_irq K PIO_IRQ h
          in if rc \<noteq> 0 then (-1, Some d, h)
             else
               let d = d\<lparr>num_handled_interrupts := 0, num_undelivered_signals := 0\<rparr>
               in (0, Some d, unmask_irq d h))"

definition release_irq :: "aclsoc_dev \<Rightarrow> hist \<Rightarrow> hist" where
  "release_irq d h = mask_irq d (free_irq PIO_IRQ (mask_irq d h))"

subsection \<open>Frame facts\<close>

lemma irq_addr_frame [simp]:
  "get_interrupt_enable_addr (num_handled_interrupts_update f d) = get_interrupt_enable_addr d"
  "get_interrupt_enable_addr (num_undelivered_signals_update f d) = get_interrupt_enable_addr d"
  "get_interrupt_enable_addr (signal_info_update g d) = get_interrupt_enable_addr d"
  "get_interrupt_enable_addr (buffer_mem_update b d) = get_interrupt_enable_addr d"
  by (simp_all add: get_interrupt_enable_addr_def)

lemma dev_wf_frame [simp]:
  "dev_wf (num_handled_interrupts_update f d) = dev_wf d"
  "dev_wf (num_undelivered_signals_update f d) = dev_wf d"
  "dev_wf (signal_info_update g d) = dev_wf d"
  "dev_wf (load_signal_info d) = dev_wf d"
  by (simp_all add: dev_wf_def load_signal_info_def)

text \<open>The calls each operation makes, oldest first.\<close>

lemma mask_runs: "runs h [Writel 0 (get_interrupt_enable_addr d)] (mask_irq d h)"
  by (simp add: mask_irq_def env_simps)

lemma unmask_runs:
  "runs h [Writel 1 (get_interrupt_enable_addr d)] (unmask_irq d h)"
  "runs h [Writel 1 (get_interrupt_enable_addr d)] (unmask_kernel_irq d h)"
  by (simp_all add: unmask_irq_def unmask_kernel_irq_def env_simps)

lemma release_irq_runs:
  "runs h [Writel 0 (get_interrupt_enable_addr d), Free_irq PIO_IRQ,
           Writel 0 (get_interrupt_enable_addr d)] (release_irq d h)"
  by (simp add: release_irq_def mask_irq_def env_simps runs_def)

lemma init_irq_eq:
  "init_irq K (Some d) h =
     (let rc = ans_request_irq K h PIO_IRQ
      in if rc \<noteq> 0 then (-1, Some d, Request_irq PIO_IRQ rc # h)
         else (0, Some (d\<lparr>num_handled_interrupts := 0, num_undelivered_signals := 0\<rparr>),
               Writel 1 (get_interrupt_enable_addr d) # Request_irq PIO_IRQ 0 # h))"
  by (simp add: init_irq_def unmask_irq_def env_simps Let_def)

lemma aclsoc_irq_hist:
  assumes "aclsoc_irq K (Some d) h = (res, d', h')"
  defines "h1 \<equiv> Writel 0 (get_interrupt_enable_addr d) # h"
  defines "r \<equiv> ans_send_sig_info K h1 SIG_INT_NOTIFY (signal_info d) (user_task d)"
  shows "h' = (if user_task d = 0 then h1
               else Send_sig_info SIG_INT_NOTIFY (signal_info d) (user_task d) r # h1)"
  using assms(1)
  by (simp add: aclsoc_irq_def mask_irq_def env_simps Let_def h1_def r_def split: if_split_asm)

lemma aclsoc_irq_dev:
  assumes "aclsoc_irq K (Some d) h = (res, d', h')"
  shows "\<exists>n. d' = Some (d\<lparr>num_handled_interrupts := num_handled_interrupts d + 1,
                         num_undelivered_signals := n\<rparr>)"
proof -
  have "\<exists>n. d\<lparr>num_handled_interrupts := k\<rparr> =
      d\<lparr>num_handled_interrupts := k, num_undelivered_signals := n\<rparr>" for k
    by (rule exI [of _ "num_undelivered_signals d"]) simp
  then show ?thesis
    using assms by (simp add: aclsoc_irq_def mask_irq_def env_simps Let_def split: if_split_asm) blast+
qed

lemma aclsoc_irq_wf:
  "aclsoc_irq K (Some d) h = (res, d', h') \<Longrightarrow> \<exists>d''. d' = Some d'' \<and> dev_wf d'' = dev_wf d"
  by (auto simp: aclsoc_irq_def Let_def split: if_splits prod.splits)

subsection \<open>The interrupt line as an abstract machine\<close>

text \<open>
  What the interrupt code promises, without registers: the line is requested or not, and the
  board may raise it or not. Both are read off the history: the last answer of
  \<open>request_irq\<close> or call of \<open>free_irq\<close>, and the last value written to the enable register.
\<close>

record irq_abs =
  requested :: bool
  enabled :: bool

primrec line_requested :: "hist \<Rightarrow> bool" where
  "line_requested [] = False"
| "line_requested (e # h) =
     (case e of Request_irq n r \<Rightarrow> (n = PIO_IRQ \<and> r = 0) \<or> line_requested h
      | Free_irq n \<Rightarrow> n \<noteq> PIO_IRQ \<and> line_requested h
      | _ \<Rightarrow> line_requested h)"

primrec line_enabled :: "ptr \<Rightarrow> hist \<Rightarrow> bool" where
  "line_enabled en [] = False"
| "line_enabled en (e # h) =
     (case e of Writel v a \<Rightarrow> (if a = en then v = 1 else line_enabled en h)
      | _ \<Rightarrow> line_enabled en h)"

definition irq_abs_of :: "aclsoc_dev \<Rightarrow> hist \<Rightarrow> irq_abs" where
  "irq_abs_of d h =
     \<lparr>requested = line_requested h, enabled = line_enabled (get_interrupt_enable_addr d) h\<rparr>"

datatype irq_op = IInit bool | IRelease | IHandle | IUnmask

fun irq_spec :: "irq_op \<Rightarrow> irq_abs \<Rightarrow> irq_abs" where
  "irq_spec (IInit True) s = \<lparr>requested = True, enabled = True\<rparr>"
| "irq_spec (IInit False) s = s"
| "irq_spec IRelease s = \<lparr>requested = False, enabled = False\<rparr>"
| "irq_spec IHandle s = s\<lparr>enabled := False\<rparr>"
| "irq_spec IUnmask s = s\<lparr>enabled := True\<rparr>"

lemma irq_abs_frame [simp]:
  "irq_abs_of (num_handled_interrupts_update f d) h = irq_abs_of d h"
  "irq_abs_of (num_undelivered_signals_update f d) h = irq_abs_of d h"
  by (simp_all add: irq_abs_of_def)

lemma init_irq_refines:
  assumes "init_irq K (Some d) h = (rc, Some d', h')"
  shows "irq_abs_of d' h' = irq_spec (IInit (rc = 0)) (irq_abs_of d h)"
  using assms by (simp add: init_irq_eq Let_def irq_abs_of_def split: if_split_asm) auto

lemma release_irq_refines: "irq_abs_of d (release_irq d h) = irq_spec IRelease (irq_abs_of d h)"
  by (simp add: release_irq_def mask_irq_def env_simps irq_abs_of_def)

lemma unmask_refines: "irq_abs_of d (unmask_kernel_irq d h) = irq_spec IUnmask (irq_abs_of d h)"
  by (simp add: unmask_kernel_irq_def env_simps irq_abs_of_def)

lemma aclsoc_irq_refines:
  assumes "aclsoc_irq K (Some d) h = (r, Some d', h')"
  shows "r = IRQ_HANDLED \<and> irq_abs_of d' h' = irq_spec IHandle (irq_abs_of d h)"
  using assms
  by (auto simp: aclsoc_irq_def mask_irq_def env_simps Let_def irq_abs_of_def split: if_splits)

end
