(* ===== verification/Acl_Mmap.thy ===== *)
theory Acl_Mmap
  imports Acl_Irq
begin

section \<open>Physically contiguous buffers mapped into user space (aclsoc.c)\<close>

text \<open>
  The table \<open>addr_map\<close> of buffers handed out by \<open>mmap()\<close>: allocation of a slot, the
  reference counting done by the operations of a mapping, and the release of what is left
  when the module goes away. An operation is \<^const>\<open>None\<close> where the C code would follow a
  pointer to no table or leave the table.
\<close>

definition slot :: "aclsoc_dev \<Rightarrow> nat \<Rightarrow> addr_map_elem option" where
  "slot d i =
     (if addr_map d \<noteq> 0 \<and> i < length (addr_map_mem d) then Some (addr_map_mem d ! i) else None)"

definition set_slot :: "aclsoc_dev \<Rightarrow> nat \<Rightarrow> addr_map_elem \<Rightarrow> aclsoc_dev" where
  "set_slot d i e = d\<lparr>addr_map_mem := (addr_map_mem d)[i := e]\<rparr>"

subsection \<open>Releasing a buffer\<close>

definition free_map_info :: "addr_map_elem \<Rightarrow> hist \<Rightarrow> addr_map_elem \<times> hist" where
  "free_map_info info h =
     (if vm_start info \<noteq> 0
      then (zero_elem, dma_free_coherent (map_size info) (cpu_addr info) (dma_handle info) h)
      else (info, h))"

definition aclsoc_release_mmap_memory :: "addr_map_elem \<Rightarrow> hist \<Rightarrow> addr_map_elem \<times> hist" where
  "aclsoc_release_mmap_memory info h = free_map_info info h"

definition aclsoc_vma_open :: "kernel \<Rightarrow> vma \<Rightarrow> aclsoc_dev \<Rightarrow> aclsoc_dev option" where
  "aclsoc_vma_open K v d = do {
     i \<leftarrow> vma_private v;
     info \<leftarrow> slot d i;
     Some (set_slot d i (info\<lparr>ref := kr_get K (ref info)\<rparr>))
   }"

definition aclsoc_vma_close ::
  "kernel \<Rightarrow> vma \<Rightarrow> aclsoc_dev \<Rightarrow> hist \<Rightarrow> (aclsoc_dev \<times> hist) option" where
  "aclsoc_vma_close K v d h = do {
     i \<leftarrow> vma_private v;
     info \<leftarrow> slot d i;
     let (r, release) = kr_put K (ref info);
     let info = info\<lparr>ref := r\<rparr>;
     let (info, h) = (if release then aclsoc_release_mmap_memory info h else (info, h));
     Some (set_slot d i info, h)
   }"

subsection \<open>Mapping a new buffer\<close>

function find_slot :: "aclsoc_dev \<Rightarrow> nat \<Rightarrow> nat option" where
  "find_slot d i =
     (if i < MAX_ADDR_MAP_ENTRIES
      then (case slot d i of None \<Rightarrow> None
            | Some e \<Rightarrow> if vm_start e = 0 then Some i else find_slot d (Suc i))
      else Some i)"
  by pat_completeness auto
termination
  by (relation "measure (\<lambda>(d, i). MAX_ADDR_MAP_ENTRIES - i)") auto

declare find_slot.simps [simp del]

definition aclsoc_mmap ::
  "kernel \<Rightarrow> vma \<Rightarrow> aclsoc_dev \<Rightarrow> hist \<Rightarrow> (int \<times> vma \<times> aclsoc_dev \<times> hist) option" where
  "aclsoc_mmap K v d h = do {
     let sz = vma_end v - vma_start v;
     let allocated_size = sz;
     i \<leftarrow> find_slot d 0;
     if i = MAX_ADDR_MAP_ENTRIES then Some (- ENOMEM, v, d, h)
     else do {
       let ((kalloc_memory, dma), h) = dma_alloc_coherent K allocated_size h;
       if kalloc_memory = 0 then Some (- ENOMEM, v, d, h)
       else do {
         let v = v\<lparr>vma_page_prot := pgprot_noncached K (vma_page_prot v)\<rparr>;
         let (r, h) = remap_pfn_range K (vma_start v) (drop_bit PAGE_SHIFT dma) sz (vma_page_prot v) h;
         if r < 0 then Some (- EAGAIN, v, d, h)
         else do {
           let info = \<lparr>vm_start = vma_start v, map_size = allocated_size,
                       cpu_addr = kalloc_memory, dma_handle = dma, ref = kr_init K\<rparr>;
           Some (0, v\<lparr>vma_ops := True, vma_private := Some i\<rparr>, set_slot d i info, h)
         }
       }
     }
   }"

subsection \<open>Releasing everything\<close>

function free_from :: "nat \<Rightarrow> aclsoc_dev \<Rightarrow> hist \<Rightarrow> (aclsoc_dev \<times> hist) option" where
  "free_from i d h =
     (if i < MAX_ADDR_MAP_ENTRIES
      then (case slot d i of None \<Rightarrow> None
            | Some info \<Rightarrow> (let (info', h') = free_map_info info h
                         in free_from (Suc i) (set_slot d i info') h'))
      else Some (d, h))"
  by pat_completeness auto
termination
  by (relation "measure (\<lambda>(i, d, h). MAX_ADDR_MAP_ENTRIES - i)") auto

declare free_from.simps [simp del]

definition free_contiguous_memory :: "aclsoc_dev \<Rightarrow> hist \<Rightarrow> (aclsoc_dev \<times> hist) option" where
  "free_contiguous_memory d h = free_from 0 d h"

subsection \<open>Slots\<close>

lemma slot_wf: "dev_wf d \<Longrightarrow> i < MAX_ADDR_MAP_ENTRIES \<Longrightarrow> slot d i = Some (addr_map_mem d ! i)"
  by (simp add: slot_def dev_wf_def)

lemma set_slot_wf [simp]: "dev_wf (set_slot d i e) = dev_wf d"
  by (simp add: dev_wf_def set_slot_def)

lemma set_slot_fields [simp]:
  "addr_map (set_slot d i e) = addr_map d"
  "addr_map_mem (set_slot d i e) = (addr_map_mem d)[i := e]"
  "buffer_mem (set_slot d i e) = buffer_mem d"
  "mapped_region (set_slot d i e) = mapped_region d"
  by (simp_all add: set_slot_def)

lemma set_slot_twice [simp]: "set_slot (set_slot d i e) i e' = set_slot d i e'"
  by (simp add: set_slot_def)

lemma set_slot_same: "slot d i = Some e \<Longrightarrow> set_slot d i e = d"
  by (auto simp: slot_def set_slot_def split: if_splits)

lemma slot_set_slot: "slot d i = Some e' \<Longrightarrow> slot (set_slot d i e) i = Some e"
  by (auto simp: slot_def split: if_splits)

lemma slot_set_slot_other: "i \<noteq> j \<Longrightarrow> slot (set_slot d i e) j = slot d j"
  by (auto simp: slot_def)

text \<open>The search returns the first free slot, or the size of the table when there is none.\<close>

lemma find_slot_props:
  assumes "dev_wf d" "i \<le> MAX_ADDR_MAP_ENTRIES"
  shows "\<exists>j. find_slot d i = Some j \<and> i \<le> j \<and> j \<le> MAX_ADDR_MAP_ENTRIES \<and>
    (j < MAX_ADDR_MAP_ENTRIES \<longrightarrow> vm_start (addr_map_mem d ! j) = 0) \<and>
    (\<forall>k. i \<le> k \<and> k < j \<longrightarrow> vm_start (addr_map_mem d ! k) \<noteq> 0)"
  using assms
proof (induction d i rule: find_slot.induct)
  case (1 d i)
  show ?case
  proof (cases "i < MAX_ADDR_MAP_ENTRIES \<and> vm_start (addr_map_mem d ! i) \<noteq> 0")
    case True
    then have "slot d i = Some (addr_map_mem d ! i)" using "1.prems" by (simp add: slot_wf)
    with True "1.IH" "1.prems" obtain j where j: "find_slot d (Suc i) = Some j" "Suc i \<le> j"
      "j \<le> MAX_ADDR_MAP_ENTRIES"
      "j < MAX_ADDR_MAP_ENTRIES \<longrightarrow> vm_start (addr_map_mem d ! j) = 0"
      "\<forall>k. Suc i \<le> k \<and> k < j \<longrightarrow> vm_start (addr_map_mem d ! k) \<noteq> 0"
      by auto
    have "find_slot d i = Some j"
      using True "1.prems" j(1) by (subst find_slot.simps) (simp add: slot_wf)
    moreover have "vm_start (addr_map_mem d ! k) \<noteq> 0" if "i \<le> k" "k < j" for k
      using True j(5) that by (cases "k = i") auto
    ultimately show ?thesis using j(2-4) by auto
  next
    case False
    then have "find_slot d i = Some i"
      using "1.prems" by (subst find_slot.simps) (auto simp: slot_wf)
    with False "1.prems" show ?thesis by auto
  qed
qed

subsection \<open>The ledger of DMA buffers\<close>

text \<open>The buffers allocated and not yet freed, read off the history, and those in the table.\<close>

primrec dma_live :: "hist \<Rightarrow> (u32 \<times> ptr \<times> u32) multiset" where
  "dma_live [] = {#}"
| "dma_live (e # h) =
     (case e of
        Dma_alloc_coherent sz p dm \<Rightarrow> (if p = 0 then dma_live h else add_mset (sz, p, dm) (dma_live h))
      | Dma_free_coherent sz p dm \<Rightarrow> dma_live h - {#(sz, p, dm)#}
      | _ \<Rightarrow> dma_live h)"

definition elem_buf :: "addr_map_elem \<Rightarrow> u32 \<times> ptr \<times> u32" where
  "elem_buf e = (map_size e, cpu_addr e, dma_handle e)"

definition table_bufs :: "addr_map_elem list \<Rightarrow> (u32 \<times> ptr \<times> u32) multiset" where
  "table_bufs es = mset (map elem_buf (filter (\<lambda>e. vm_start e \<noteq> 0) es))"

lemma zero_elem_simps [simp]: "vm_start zero_elem = 0" by (simp add: zero_elem_def)

lemma table_bufs_split:
  assumes "i < length es"
  shows "table_bufs es =
    (if vm_start (es ! i) \<noteq> 0 then {#elem_buf (es ! i)#} else {#}) +
    table_bufs (take i es) + table_bufs (drop (Suc i) es)"
proof -
  have "es = take i es @ es ! i # drop (Suc i) es" using assms by (rule id_take_nth_drop)
  then have "table_bufs es = table_bufs (take i es @ es ! i # drop (Suc i) es)" by (rule arg_cong)
  then show ?thesis by (simp add: table_bufs_def)
qed

lemma table_bufs_update:
  assumes "i < length es"
  shows "table_bufs (es[i := e]) =
    (if vm_start e \<noteq> 0 then {#elem_buf e#} else {#}) +
    table_bufs (take i es) + table_bufs (drop (Suc i) es)"
  using table_bufs_split [of i "es[i := e]"] assms by simp

lemma dma_live_release:
  assumes "i < length es" "free_map_info (es ! i) h = (e', h')"
  shows "table_bufs es = table_bufs (es[i := e']) + (table_bufs es - table_bufs (es[i := e']))"
    "dma_live h' = dma_live h - (table_bufs es - table_bufs (es[i := e']))" "vm_start e' = 0"
  using assms table_bufs_split [of i es] table_bufs_update [of i es e']
  by (auto simp: free_map_info_def dma_free_coherent_def elem_buf_def split: if_splits)

text \<open>Freeing from slot \<open>i\<close> on: nothing below \<open>i\<close> changes, everything else is empty.\<close>

lemma free_from_props:
  assumes "dev_wf d" "i \<le> MAX_ADDR_MAP_ENTRIES"
  shows "\<exists>d' h'. free_from i d h = Some (d', h') \<and> dev_wf d' \<and>
    d' = d\<lparr>addr_map_mem := addr_map_mem d'\<rparr> \<and>
    take i (addr_map_mem d') = take i (addr_map_mem d) \<and>
    (\<forall>k. i \<le> k \<and> k < MAX_ADDR_MAP_ENTRIES \<longrightarrow> vm_start (addr_map_mem d' ! k) = 0) \<and>
    dma_live h' = dma_live h - table_bufs (drop i (addr_map_mem d))"
  using assms
proof (induction i d h rule: free_from.induct)
  case (1 i d h)
  have len: "length (addr_map_mem d) = MAX_ADDR_MAP_ENTRIES" using "1.prems" by (simp add: dev_wfD)
  show ?case
  proof (cases "i < MAX_ADDR_MAP_ENTRIES")
    case True
    let ?e = "addr_map_mem d ! i"
    obtain e' h1 where f: "free_map_info ?e h = (e', h1)" by force
    have s: "slot d i = Some ?e" using True "1.prems" by (simp add: slot_wf)
    from "1.IH" [OF True s f [symmetric] refl] True "1.prems"
    obtain d' h' where IH: "free_from (Suc i) (set_slot d i e') h1 = Some (d', h')" "dev_wf d'"
      "d' = set_slot d i e'\<lparr>addr_map_mem := addr_map_mem d'\<rparr>"
      "take (Suc i) (addr_map_mem d') = take (Suc i) ((addr_map_mem d)[i := e'])"
      "\<forall>k. Suc i \<le> k \<and> k < MAX_ADDR_MAP_ENTRIES \<longrightarrow> vm_start (addr_map_mem d' ! k) = 0"
      "dma_live h' = dma_live h1 - table_bufs (drop (Suc i) (addr_map_mem d))"
      by auto
    have eq: "free_from i d h = Some (d', h')"
      using True s f IH(1) by (subst free_from.simps) simp
    have "addr_map_mem d' ! i = e'"
      using arg_cong [OF IH(4), of "\<lambda>xs. xs ! i"] True len by simp
    moreover have e0: "vm_start e' = 0"
      using f by (auto simp: free_map_info_def split: if_splits)
    ultimately have zero: "vm_start (addr_map_mem d' ! k) = 0" if "i \<le> k" "k < MAX_ADDR_MAP_ENTRIES" for k
      using that IH(5) by (cases "k = i") auto
    have d: "drop i (addr_map_mem d) = ?e # drop (Suc i) (addr_map_mem d)"
      using True len by (simp add: Cons_nth_drop_Suc)
    have live: "dma_live h' = dma_live h - table_bufs (drop i (addr_map_mem d))"
      unfolding IH(6) d using f
      by (auto simp: free_map_info_def dma_free_coherent_def table_bufs_def elem_buf_def
          split: if_splits)
    have "take i (addr_map_mem d') = take i (addr_map_mem d)"
      using arg_cong [OF IH(4), of "take i"] by simp
    moreover have "d' = d\<lparr>addr_map_mem := addr_map_mem d'\<rparr>"
      using IH(3) by (simp add: set_slot_def)
    ultimately show ?thesis using eq IH(2) zero live by blast
  next
    case False
    with "1.prems" have "i = MAX_ADDR_MAP_ENTRIES" by simp
    then show ?thesis
      using "1.prems" len by (subst free_from.simps) (auto simp: table_bufs_def)
  qed
qed

end
