(* ===== verification/Acl_Fileio.thy ===== *)
theory Acl_Fileio
  imports Acl_Mmap
begin

section \<open>Checked addresses and transfers (aclsoc\_fileio.c)\<close>

text \<open>
  Address checking, the global-memory segment, \<open>open()\<close> and \<open>close()\<close>, and the
  transfers between device registers and user memory: single values and arbitrary lengths
  through the driver's buffer. \<open>writeq\<close> does not exist on 32-bit ARM, so \<open>uX\<close> is the
  32-bit type. Time measurements and messages are not modelled.
\<close>

type_synonym uX = u32

definition sizeof_uX :: nat where "sizeof_uX = 4"

lemma sizeof_uX_simp [hw_consts]: "sizeof_uX = 4" by (simp add: sizeof_uX_def)

subsection \<open>Address checking\<close>

text \<open>The result is the address and the value stored to \<open>errno\<close>.\<close>

definition aclsoc_get_checked_addr :: "u32 \<Rightarrow> ptr \<Rightarrow> u32 \<Rightarrow> aclsoc_dev \<Rightarrow> ptr \<times> int" where
  "aclsoc_get_checked_addr bar addr cnt d =
     (if bar \<noteq> 0 \<and> bar \<noteq> 2 then (0, - EFAULT)
      else if addr + cnt > mapped_region_size d (unat bar) then (0, - EFAULT)
      else (mapped_region d (unat bar) + addr, 0))"

definition get_segment_ctrl_addr :: "aclsoc_dev \<Rightarrow> ptr" where
  "get_segment_ctrl_addr d =
     (let ctrl_addr = ACL_PCIE_MEMWINDOW_CRA;
          (dev_addr, errno) = aclsoc_get_checked_addr 2 ctrl_addr (of_nat sizeof_uX) d
      in if errno \<noteq> 0 then 0 else dev_addr)"

text \<open>
  The segment is never changed: the function returns before its assignment, on both paths.
\<close>

definition aclsoc_set_segment_by_val :: "uX \<Rightarrow> aclsoc_dev \<Rightarrow> hist \<Rightarrow> aclsoc_dev \<times> hist" where
  "aclsoc_set_segment_by_val new_val d h =
     (if global_mem_segment_addr d = 0 then (d, h) else (d, h))"

text \<open>
  The remainder is that of the signed type \<open>ssize_t\<close>, rounding towards zero; the segment
  is computed with the mask as it is written.
\<close>

definition aclsoc_set_segment :: "ptr \<Rightarrow> aclsoc_dev \<Rightarrow> hist \<Rightarrow> ptr \<times> aclsoc_dev \<times> hist" where
  "aclsoc_set_segment raw_user_ptr d h =
     (let cur_segment = raw_user_ptr AND (1 - (ACL_PCIE_MEMWINDOW_SIZE - 1));
          (d, h) = aclsoc_set_segment_by_val cur_segment d h;
          r = sint raw_user_ptr;
          offset = sgn r * (\<bar>r\<bar> mod uint ACL_PCIE_MEMWINDOW_SIZE)
      in (ACL_PCIE_MEMWINDOW_BASE + word_of_int offset, d, h))"

definition aligned_request :: "acl_cmd \<Rightarrow> u32 \<Rightarrow> bool" where
  "aligned_request cmd cnt \<longleftrightarrow>
     ((user_addr cmd AND DMA_ALIGNMENT_BYTE_MASK) OR (device_addr cmd AND DMA_ALIGNMENT_BYTE_MASK) OR
      (cnt AND DMA_ALIGNMENT_BYTE_MASK)) = 0"

subsection \<open>open() and close()\<close>

text \<open>
  The calling process is given by its number and its task. \<open>aclsoc_open\<close> returns the
  result, the device and the history; the reference to the device in the opened file is the
  device argument of the other operations.
\<close>

definition aclsoc_open :: "kernel \<Rightarrow> int \<Rightarrow> ptr \<Rightarrow> aclsoc_dev \<Rightarrow> hist \<Rightarrow> int \<times> aclsoc_dev \<times> hist" where
  "aclsoc_open K pid current d h =
     (let (r, h) = down_interruptible K h
      in if r \<noteq> 0 then (- ERESTARTSYS, d, h)
         else
           let d = d\<lparr>user_pid := pid, user_task := current\<rparr>;
               d = d\<lparr>global_mem_segment := 0, saved_kernel_irq_mask := 0\<rparr>;
               d = d\<lparr>global_mem_segment_addr := get_segment_ctrl_addr d\<rparr>;
               d = load_signal_info d;
               result = (if user_task d = 0 then - EFAULT else 0)
           in (result, d, up h))"

definition aclsoc_close :: "kernel \<Rightarrow> aclsoc_dev \<Rightarrow> hist \<Rightarrow> int \<times> aclsoc_dev \<times> hist" where
  "aclsoc_close K d h =
     (let (r, h) = down_interruptible K h
      in if r \<noteq> 0 then (- ERESTARTSYS, d, h) else (0, d, up h))"

subsection \<open>Single values\<close>

definition aclsoc_read_small :: "kernel \<Rightarrow> ptr \<Rightarrow> ptr \<Rightarrow> u32 \<Rightarrow> hist \<Rightarrow> int \<times> hist" where
  "aclsoc_read_small K read_addr dest_addr len h =
     (let (copy_res, h) =
        (if len = 1 then let (v, h) = readb K read_addr h in copy_to_user K dest_addr [v] h
         else if len = 2 then let (v, h) = readw K read_addr h in copy_to_user K dest_addr (bytes_u16 v) h
         else if len = 4 then let (v, h) = readl K read_addr h in copy_to_user K dest_addr (bytes_u32 v) h
         else (0, h))
      in (if copy_res \<noteq> 0 then - EFAULT else 0, h))"

text \<open>
  The cases of the C \<open>switch\<close>: the case of two bytes has no \<open>break\<close> and goes on with
  the case of four.
\<close>

definition write_case1 :: "kernel \<Rightarrow> ptr \<Rightarrow> ptr \<Rightarrow> hist \<Rightarrow> u32 \<times> hist" where
  "write_case1 K write_addr src_addr h =
     (let (copy_res, v, h) = copy_from_user K src_addr (uninit K 1 h) h
      in (copy_res, writeb (hd v) write_addr h))"

definition write_case4 :: "kernel \<Rightarrow> ptr \<Rightarrow> ptr \<Rightarrow> hist \<Rightarrow> u32 \<times> hist" where
  "write_case4 K write_addr src_addr h =
     (let (copy_res, v, h) = copy_from_user K src_addr (uninit K 4 h) h
      in (copy_res, writel (u32_bytes v) write_addr h))"

definition write_case2 :: "kernel \<Rightarrow> ptr \<Rightarrow> ptr \<Rightarrow> hist \<Rightarrow> u32 \<times> hist" where
  "write_case2 K write_addr src_addr h =
     (let (copy_res, v, h) = copy_from_user K src_addr (uninit K 2 h) h;
          h = writew (u16_bytes v) write_addr h
      in write_case4 K write_addr src_addr h)"

definition aclsoc_write_small :: "kernel \<Rightarrow> ptr \<Rightarrow> ptr \<Rightarrow> u32 \<Rightarrow> hist \<Rightarrow> int \<times> hist" where
  "aclsoc_write_small K write_addr src_addr len h =
     (let (copy_res, h) =
        (if len = 1 then write_case1 K write_addr src_addr h
         else if len = 2 then write_case2 K write_addr src_addr h
         else if len = 4 then write_case4 K write_addr src_addr h
         else (0, h))
      in (if copy_res \<noteq> 0 then - EFAULT else 0, h))"

subsection \<open>Arbitrary lengths\<close>

text \<open>The loop over the words of a chunk: \<open>ibuffer[i]\<close> is at \<open>4 * i\<close> of the buffer.\<close>

function rw_words ::
  "kernel \<Rightarrow> bool \<Rightarrow> ptr \<Rightarrow> nat \<Rightarrow> nat \<Rightarrow> u8 list \<Rightarrow> hist \<Rightarrow> (u8 list \<times> hist) option" where
  "rw_words K reading dev_addr n i buf h =
     (if i < n then
        if reading then
          (let (v, h') = readl K (dev_addr + of_nat (sizeof_uX * i)) h
           in case buf_put buf (sizeof_uX * i) (bytes_u32 v) of None \<Rightarrow> None
              | Some buf' \<Rightarrow> rw_words K reading dev_addr n (Suc i) buf' h')
        else
          (case buf_get buf (sizeof_uX * i) sizeof_uX of None \<Rightarrow> None
           | Some bs \<Rightarrow> rw_words K reading dev_addr n (Suc i) buf
                        (writel (u32_bytes bs) (dev_addr + of_nat (sizeof_uX * i)) h))
      else Some (buf, h))"
  by pat_completeness auto
termination
  by (relation "measure (\<lambda>(K, r, a, n, i, buf, h). n - i)") auto

text \<open>The loop over the bytes a multiple of the word size leaves; \<open>cbuffer\<close> starts at \<open>offset\<close>.\<close>

function rw_bytes ::
  "kernel \<Rightarrow> bool \<Rightarrow> ptr \<Rightarrow> nat \<Rightarrow> nat \<Rightarrow> nat \<Rightarrow> u8 list \<Rightarrow> hist \<Rightarrow> (u8 list \<times> hist) option" where
  "rw_bytes K reading dev_addr offset n i buf h =
     (if i < n then
        if reading then
          (let (v, h') = readb K (dev_addr + of_nat (offset + i)) h
           in case buf_put buf (offset + i) [v] of None \<Rightarrow> None
              | Some buf' \<Rightarrow> rw_bytes K reading dev_addr offset n (Suc i) buf' h')
        else
          (case buf_get buf (offset + i) 1 of None \<Rightarrow> None
           | Some bs \<Rightarrow> rw_bytes K reading dev_addr offset n (Suc i) buf
                        (writeb (hd bs) (dev_addr + of_nat (offset + i)) h))
      else Some (buf, h))"
  by pat_completeness auto
termination
  by (relation "measure (\<lambda>(K, r, a, off, n, i, buf, h). n - i)") auto

declare rw_words.simps [simp del] rw_bytes.simps [simp del]

text \<open>One turn of the \<open>while\<close> loop: the value is the function's result if the turn returns, else 0.\<close>

definition rw_chunk ::
  "kernel \<Rightarrow> bool \<Rightarrow> ptr \<Rightarrow> ptr \<Rightarrow> u32 \<Rightarrow> u8 list \<Rightarrow> hist \<Rightarrow> (int \<times> u8 list \<times> hist) option" where
  "rw_chunk K reading dev_addr uaddr chunk buf h = do {
     (res, buf, h) \<leftarrow>
       (if \<not> reading then do {
          old \<leftarrow> buf_get buf 0 (unat chunk);
          let (left, new, h) = copy_from_user K uaddr old h;
          buf \<leftarrow> buf_put buf 0 new;
          Some (if left \<noteq> 0 then - EFAULT else 0, buf, h)
        } else Some (0, buf, h));
     if res \<noteq> 0 then Some (res, buf, h)
     else do {
       let num_to_read = unat chunk div sizeof_uX;
       (buf, h) \<leftarrow> rw_words K reading dev_addr num_to_read 0 buf h;
       let offset = num_to_read * sizeof_uX;
       let num_missed = unat chunk - offset;
       (buf, h) \<leftarrow> rw_bytes K reading dev_addr offset num_missed 0 buf h;
       if reading then do {
         bs \<leftarrow> buf_get buf 0 (unat chunk);
         let (left, h) = copy_to_user K uaddr bs h;
         Some (if left \<noteq> 0 then - EFAULT else 0, buf, h)
       } else Some (0, buf, h)
     }
   }"

definition chunk_size :: "u32 \<Rightarrow> u32" where
  "chunk_size bytes_left =
     (if bytes_left < of_nat BUF_SIZE then bytes_left else of_nat BUF_SIZE)"

lemma chunk_size_unat: "unat (chunk_size n) = min (unat n) 4096"
  by (simp add: chunk_size_def hw_consts word_less_nat_alt min_def)

lemma chunk_size_le: "chunk_size n \<le> n"
  by (simp add: word_le_nat_alt chunk_size_unat)

lemma unat_sub_chunk: "unat (n - chunk_size n) = unat n - min (unat n) 4096"
  using chunk_size_le [of n] by (simp add: unat_sub chunk_size_unat)

function rw_loop ::
  "kernel \<Rightarrow> bool \<Rightarrow> ptr \<Rightarrow> ptr \<Rightarrow> u32 \<Rightarrow> u8 list \<Rightarrow> hist \<Rightarrow> (int \<times> u8 list \<times> hist) option" where
  "rw_loop K reading dev_addr uaddr bytes_left buf h =
     (if bytes_left > 0 then
        (case rw_chunk K reading dev_addr uaddr (chunk_size bytes_left) buf h of
           None \<Rightarrow> None
         | Some (res, buf', h') \<Rightarrow>
             if res \<noteq> 0 then Some (res, buf', h')
             else rw_loop K reading (dev_addr + chunk_size bytes_left)
                    (uaddr + chunk_size bytes_left) (bytes_left - chunk_size bytes_left) buf' h')
      else Some (0, buf, h))"
  by pat_completeness auto
termination
  by (relation "measure (\<lambda>(K, r, a, u, n, buf, h). unat n)")
    (auto simp: unat_sub_chunk word_less_nat_alt)

declare rw_loop.simps [simp del]

definition aclsoc_rw_large ::
  "kernel \<Rightarrow> ptr \<Rightarrow> ptr \<Rightarrow> u32 \<Rightarrow> u8 list \<Rightarrow> bool \<Rightarrow> hist \<Rightarrow> (int \<times> u8 list \<times> hist) option" where
  "aclsoc_rw_large K dev_addr uaddr len buf reading h =
     rw_loop K reading dev_addr uaddr len buf h"

end
