(* ===== verification/Acl_Transfer.thy ===== *)
theory Acl_Transfer
  imports Acl_Fileio
begin

section \<open>Correctness of the transfer loops\<close>

text \<open>
  The loops of \<open>aclsoc_rw_large\<close> against a byte-level specification: which bytes move from
  which device address to which user address, in which order, and what is left of a transfer
  that faults. The lemmas go from the inner loops to one turn of the outer loop and to the
  whole transfer.
\<close>

definition mmio_read :: "kevent \<Rightarrow> bool" where
  "mmio_read e \<longleftrightarrow> (case e of Readb _ _ \<Rightarrow> True | Readw _ _ \<Rightarrow> True | Readl _ _ \<Rightarrow> True | _ \<Rightarrow> False)"

definition mmio_write :: "kevent \<Rightarrow> bool" where
  "mmio_write e \<longleftrightarrow> (case e of Writeb _ _ \<Rightarrow> True | Writew _ _ \<Rightarrow> True | Writel _ _ \<Rightarrow> True | _ \<Rightarrow> False)"

lemma mmio_simps [simp]:
  "mmio_read (Readb a v)" "mmio_read (Readw a v')" "mmio_read (Readl a v'')"
  "mmio_write (Writeb v a)" "mmio_write (Writew v' a)" "mmio_write (Writel v'' a)"
  by (simp_all add: mmio_read_def mmio_write_def)

lemma mmio_read_moves:
  "mmio_read e \<Longrightarrow> dev_writes e = [] \<and> user_writes e = [] \<and> user_reads e = [] \<and> plain_call e \<and> copied e"
  by (cases e) (auto simp: mmio_read_def plain_call_def copied_def)

lemma mmio_write_moves:
  "mmio_write e \<Longrightarrow> dev_reads e = [] \<and> user_writes e = [] \<and> user_reads e = [] \<and> plain_call e \<and> copied e"
  by (cases e) (auto simp: mmio_write_def plain_call_def copied_def)

lemma moved_reads:
  "\<forall>e \<in> set tr. mmio_read e \<Longrightarrow>
   moved dev_writes tr = [] \<and> moved user_writes tr = [] \<and> moved user_reads tr = [] \<and>
   (\<forall>e \<in> set tr. plain_call e) \<and> (\<forall>e \<in> set tr. copied e)"
  by (auto simp: moved_def dest: mmio_read_moves)

lemma moved_writes:
  "\<forall>e \<in> set tr. mmio_write e \<Longrightarrow>
   moved dev_reads tr = [] \<and> moved user_writes tr = [] \<and> moved user_reads tr = [] \<and>
   (\<forall>e \<in> set tr. plain_call e) \<and> (\<forall>e \<in> set tr. copied e)"
  by (auto simp: moved_def dest: mmio_write_moves)

subsection \<open>The inner loops, reading\<close>

lemma rw_words_read:
  assumes "4 * n \<le> length buf" "i \<le> n"
  shows "\<exists>tr bs. rw_words K True dev n i buf h =
      Some (take (4 * i) buf @ bs @ drop (4 * n) buf, rev tr @ h) \<and>
    length bs = 4 * (n - i) \<and> moved dev_reads tr = place (dev + of_nat (4 * i)) bs \<and>
    (\<forall>e \<in> set tr. mmio_read e)"
  using assms
proof (induction "n - i" arbitrary: i buf h)
  case 0
  then show ?case by (intro exI [of _ "[]"]) (simp add: rw_words.simps moved_def)
next
  case (Suc m)
  let ?a = "dev + of_nat (4 * i)"
  let ?v = "ans_readl K h ?a"
  let ?buf = "take (4 * i) buf @ bytes_u32 ?v @ drop (4 * i + 4) buf"
  have i: "i < n" using Suc.hyps(2) by simp
  then have room: "4 * i + 4 \<le> length buf" using Suc.prems(1) by simp
  have "m = n - Suc i" "4 * n \<le> length ?buf" "Suc i \<le> n"
    using Suc.hyps(2) Suc.prems(1) i room by auto
  from Suc.hyps(1) [OF this, of "Readl ?a ?v # h"] obtain tr bs where
    IH: "rw_words K True dev n (Suc i) ?buf (Readl ?a ?v # h) =
      Some (take (4 * Suc i) ?buf @ bs @ drop (4 * n) ?buf, rev tr @ Readl ?a ?v # h)"
    "length bs = 4 * (n - Suc i)" "moved dev_reads tr = place (dev + of_nat (4 * Suc i)) bs"
    "\<forall>e \<in> set tr. mmio_read e" by blast
  have "rw_words K True dev n i buf h = rw_words K True dev n (Suc i) ?buf (Readl ?a ?v # h)"
    using i room by (subst rw_words.simps) (simp add: env_simps hw_consts)
  also have "\<dots> = Some (take (4 * i) buf @ (bytes_u32 ?v @ bs) @ drop (4 * n) buf,
      rev (Readl ?a ?v # tr) @ h)"
    using IH(1) room i by simp
  finally have "rw_words K True dev n i buf h = \<dots>" .
  moreover have "moved dev_reads (Readl ?a ?v # tr) = place ?a (bytes_u32 ?v @ bs)"
    by (simp add: trace_simps IH(3) place_append add_ac)
  ultimately show ?case using IH(2,4) i by (intro exI conjI) (assumption | simp | auto)+
qed

lemma rw_bytes_read:
  assumes "off + n \<le> length buf" "i \<le> n"
  shows "\<exists>tr bs. rw_bytes K True dev off n i buf h =
      Some (take (off + i) buf @ bs @ drop (off + n) buf, rev tr @ h) \<and>
    length bs = n - i \<and> moved dev_reads tr = place (dev + of_nat (off + i)) bs \<and>
    (\<forall>e \<in> set tr. mmio_read e)"
  using assms
proof (induction "n - i" arbitrary: i buf h)
  case 0
  then show ?case by (intro exI [of _ "[]"]) (simp add: rw_bytes.simps moved_def)
next
  case (Suc m)
  let ?a = "dev + of_nat (off + i)"
  let ?v = "ans_readb K h ?a"
  let ?buf = "take (off + i) buf @ [?v] @ drop (off + i + 1) buf"
  have i: "i < n" using Suc.hyps(2) by simp
  then have room: "off + i + 1 \<le> length buf" using Suc.prems(1) by simp
  have "m = n - Suc i" "off + n \<le> length ?buf" "Suc i \<le> n"
    using Suc.hyps(2) Suc.prems(1) i room by auto
  from Suc.hyps(1) [OF this, of "Readb ?a ?v # h"] obtain tr bs where
    IH: "rw_bytes K True dev off n (Suc i) ?buf (Readb ?a ?v # h) =
      Some (take (off + Suc i) ?buf @ bs @ drop (off + n) ?buf, rev tr @ Readb ?a ?v # h)"
    "length bs = n - Suc i" "moved dev_reads tr = place (dev + of_nat (off + Suc i)) bs"
    "\<forall>e \<in> set tr. mmio_read e" by blast
  have "rw_bytes K True dev off n i buf h = rw_bytes K True dev off n (Suc i) ?buf (Readb ?a ?v # h)"
    using i room by (subst rw_bytes.simps) (simp add: env_simps)
  also have "\<dots> = Some (take (off + i) buf @ (?v # bs) @ drop (off + n) buf,
      rev (Readb ?a ?v # tr) @ h)"
    using IH(1) room i by (simp add: drop_Cons' add.commute [of n off])
  finally have "rw_bytes K True dev off n i buf h = \<dots>" .
  moreover have "moved dev_reads (Readb ?a ?v # tr) = place ?a (?v # bs)"
    by (simp add: trace_simps IH(3) add_ac)
  ultimately show ?case using IH(2,4) i by (intro exI conjI) (assumption | simp | auto)+
qed

subsection \<open>The inner loops, writing\<close>

lemma rw_words_write:
  assumes "4 * n \<le> length buf" "i \<le> n"
  shows "\<exists>tr. rw_words K False dev n i buf h = Some (buf, rev tr @ h) \<and>
    moved dev_writes tr = place (dev + of_nat (4 * i)) (take (4 * (n - i)) (drop (4 * i) buf)) \<and>
    (\<forall>e \<in> set tr. mmio_write e)"
  using assms
proof (induction "n - i" arbitrary: i h)
  case 0
  then show ?case by (intro exI [of _ "[]"]) (simp add: rw_words.simps moved_def)
next
  case (Suc m)
  let ?a = "dev + of_nat (4 * i)"
  let ?bs = "take 4 (drop (4 * i) buf)"
  let ?e = "Writel (u32_bytes ?bs) ?a"
  have i: "i < n" using Suc.hyps(2) by simp
  then have room: "4 * i + 4 \<le> length buf" using Suc.prems(1) by simp
  have "m = n - Suc i" "Suc i \<le> n" using Suc.hyps(2) i by auto
  from Suc.hyps(1) [OF this(1) Suc.prems(1) this(2), of "?e # h"] obtain tr where
    IH: "rw_words K False dev n (Suc i) buf (?e # h) = Some (buf, rev tr @ ?e # h)"
    "moved dev_writes tr = place (dev + of_nat (4 * Suc i))
       (take (4 * (n - Suc i)) (drop (4 * Suc i) buf))"
    "\<forall>e \<in> set tr. mmio_write e" by blast
  have "rw_words K False dev n i buf h = Some (buf, rev (?e # tr) @ h)"
    using i room IH(1) by (subst rw_words.simps) (simp add: env_simps hw_consts)
  moreover have "moved dev_writes (?e # tr) = place ?a (take (4 * (n - i)) (drop (4 * i) buf))"
  proof -
    have "4 * (n - i) = 4 + 4 * (n - Suc i)" using i by simp
    then have "take (4 * (n - i)) (drop (4 * i) buf) =
        ?bs @ take (4 * (n - Suc i)) (drop (4 * Suc i) buf)"
      by (simp only: take_add drop_drop) (simp add: add.commute)
    moreover have "length ?bs = 4" using room by simp
    ultimately show ?thesis
      by (simp add: trace_simps IH(2) place_append bytes_u32_u32 add_ac)
  qed
  ultimately show ?case using IH(3) by (intro exI conjI) (assumption | simp | auto)+
qed

lemma rw_bytes_write:
  assumes "off + n \<le> length buf" "i \<le> n"
  shows "\<exists>tr. rw_bytes K False dev off n i buf h = Some (buf, rev tr @ h) \<and>
    moved dev_writes tr = place (dev + of_nat (off + i)) (take (n - i) (drop (off + i) buf)) \<and>
    (\<forall>e \<in> set tr. mmio_write e)"
  using assms
proof (induction "n - i" arbitrary: i h)
  case 0
  then show ?case by (intro exI [of _ "[]"]) (simp add: rw_bytes.simps moved_def)
next
  case (Suc m)
  let ?a = "dev + of_nat (off + i)"
  let ?e = "Writeb (buf ! (off + i)) ?a"
  have i: "i < n" using Suc.hyps(2) by simp
  then have room: "off + i < length buf" using Suc.prems(1) by simp
  then have hd: "take 1 (drop (off + i) buf) = [buf ! (off + i)]"
    by (simp add: take_Suc_conv_app_nth flip: Cons_nth_drop_Suc)
  have "m = n - Suc i" "Suc i \<le> n" using Suc.hyps(2) i by auto
  from Suc.hyps(1) [OF this(1) Suc.prems(1) this(2), of "?e # h"] obtain tr where
    IH: "rw_bytes K False dev off n (Suc i) buf (?e # h) = Some (buf, rev tr @ ?e # h)"
    "moved dev_writes tr = place (dev + of_nat (off + Suc i))
       (take (n - Suc i) (drop (off + Suc i) buf))"
    "\<forall>e \<in> set tr. mmio_write e" by blast
  have "rw_bytes K False dev off n i buf h = Some (buf, rev (?e # tr) @ h)"
    using i room hd IH(1) by (subst rw_bytes.simps) (simp add: env_simps)
  moreover have "moved dev_writes (?e # tr) = place ?a (take (n - i) (drop (off + i) buf))"
  proof -
    have "take (n - i) (drop (off + i) buf) =
        buf ! (off + i) # take (n - Suc i) (drop (off + Suc i) buf)"
      using i room by (simp add: take_Cons' flip: Cons_nth_drop_Suc)
    then show ?thesis by (simp add: trace_simps IH(2) add_ac)
  qed
  ultimately show ?case using IH(3) by (intro exI conjI) (assumption | simp | auto)+
qed

subsection \<open>One turn of the outer loop\<close>

lemma rw_chunk_read:
  assumes "unat chunk \<le> length buf"
  shows "\<exists>tr bs left buf'. rw_chunk K True dev u chunk buf h =
      Some (if left \<noteq> 0 then - EFAULT else 0, buf', rev (tr @ [Copy_to_user u bs left]) @ h) \<and>
    length buf' = length buf \<and> length bs = unat chunk \<and>
    moved dev_reads tr = place dev bs \<and> (\<forall>e \<in> set tr. mmio_read e)"
proof -
  let ?n = "unat chunk div 4"
  let ?off = "4 * ?n"
  let ?m = "unat chunk - ?off"
  have le: "?off \<le> unat chunk" by simp
  obtain tr1 bs1 where w: "rw_words K True dev ?n 0 buf h = Some (bs1 @ drop ?off buf, rev tr1 @ h)"
    "length bs1 = ?off" "moved dev_reads tr1 = place dev bs1" "\<forall>e \<in> set tr1. mmio_read e"
    using rw_words_read [of ?n buf 0 K dev h] assms le by auto
  let ?buf1 = "bs1 @ drop ?off buf"
  have len1: "?off + ?m \<le> length ?buf1" using w(2) assms le by simp
  obtain tr2 bs2 where b: "rw_bytes K True dev ?off ?m 0 ?buf1 (rev tr1 @ h) =
      Some (take ?off ?buf1 @ bs2 @ drop (?off + ?m) ?buf1, rev tr2 @ rev tr1 @ h)"
    "length bs2 = ?m" "moved dev_reads tr2 = place (dev + of_nat ?off) bs2"
    "\<forall>e \<in> set tr2. mmio_read e"
    using rw_bytes_read [OF len1, of 0 K dev "rev tr1 @ h"] by auto
  let ?buf2 = "bs1 @ bs2 @ drop (unat chunk) buf"
  let ?bs = "bs1 @ bs2"
  have buf2: "take ?off ?buf1 @ bs2 @ drop (?off + ?m) ?buf1 = ?buf2"
    using w(2) le by simp
  have lens: "length ?bs = unat chunk" "length ?buf2 = length buf" "take (unat chunk) ?buf2 = ?bs"
    using w(2) b(2) le assms by auto
  let ?h2 = "rev (tr1 @ tr2) @ h"
  let ?left = "ans_copy_to_user K ?h2 u ?bs"
  have "rw_chunk K True dev u chunk buf h =
      Some (if ?left \<noteq> 0 then - EFAULT else 0, ?buf2,
            rev ((tr1 @ tr2) @ [Copy_to_user u ?bs ?left]) @ h)"
    using w(1) b(1) buf2 lens assms
    by (simp add: rw_chunk_def hw_consts env_simps mult.commute [of _ 4] Let_def)
  moreover have "moved dev_reads (tr1 @ tr2) = place dev ?bs"
    using w(2,3) b(3) by (simp add: trace_simps place_append)
  ultimately show ?thesis using lens w(4) b(4) by (intro exI conjI) (assumption | auto)+
qed

lemma rw_chunk_write:
  assumes "unat chunk \<le> length buf"
  shows "\<exists>tr bs left buf'. rw_chunk K False dev u chunk buf h =
      Some (if left \<noteq> 0 then - EFAULT else 0, buf', rev (Copy_from_user u bs left # tr) @ h) \<and>
    length buf' = length buf \<and> length bs = unat chunk \<and>
    moved dev_writes tr = (if left = 0 then place dev bs else []) \<and> (\<forall>e \<in> set tr. mmio_write e)"
proof -
  let ?n = "unat chunk div 4"
  let ?off = "4 * ?n"
  let ?m = "unat chunk - ?off"
  have le: "?off \<le> unat chunk" by simp
  obtain left bs h1 where c: "copy_from_user K u (take (unat chunk) buf) h = (left, bs, h1)"
    by (metis prod_cases3)
  from copy_from_user_length [OF c] have lbs: "length bs = unat chunk"
    and h1: "h1 = Copy_from_user u bs left # h" using assms by auto
  let ?buf1 = "bs @ drop (unat chunk) buf"
  have len1: "length ?buf1 = length buf" using lbs assms by simp
  show ?thesis
  proof (cases "left = 0")
    case True
    have l1: "?off \<le> length ?buf1" and l2: "?off + ?m \<le> length ?buf1"
      using len1 le assms by linarith+
    have le0: "0 \<le> k" for k :: nat by simp
    obtain tr1 where w: "rw_words K False dev ?n 0 ?buf1 h1 = Some (?buf1, rev tr1 @ h1)"
      "moved dev_writes tr1 = place dev (take ?off ?buf1)" "\<forall>e \<in> set tr1. mmio_write e"
      using rw_words_write [OF l1 le0, of K dev h1] by auto
    obtain tr2 where b: "rw_bytes K False dev ?off ?m 0 ?buf1 (rev tr1 @ h1) =
        Some (?buf1, rev tr2 @ rev tr1 @ h1)"
      "moved dev_writes tr2 = place (dev + of_nat ?off) (take ?m (drop ?off ?buf1))"
      "\<forall>e \<in> set tr2. mmio_write e"
      using rw_bytes_write [OF l2 le0, of K dev "rev tr1 @ h1"] by auto
    have "rw_chunk K False dev u chunk buf h =
        Some (0, ?buf1, rev (Copy_from_user u bs left # tr1 @ tr2) @ h)"
      using c w(1) b(1) lbs h1 assms True
      by (simp add: rw_chunk_def hw_consts mult.commute [of _ 4] Let_def)
    moreover have "moved dev_writes (tr1 @ tr2) = place dev bs"
      using w(2) b(2) lbs le place_append [of dev "take ?off bs" "drop ?off bs"]
      by (simp add: trace_simps)
    ultimately show ?thesis
      using True len1 lbs w(3) b(3)
      by - (rule exI [of _ "tr1 @ tr2"], rule exI [of _ bs], rule exI [of _ left],
          rule exI [of _ ?buf1], auto)
  next
    case False
    have "rw_chunk K False dev u chunk buf h =
        Some (- EFAULT, ?buf1, rev [Copy_from_user u bs left] @ h)"
      using c lbs h1 assms False by (simp add: rw_chunk_def hw_consts Let_def)
    with False len1 lbs show ?thesis
      by - (rule exI [of _ "[]"], rule exI [of _ bs], rule exI [of _ left], rule exI [of _ ?buf1],
          simp add: trace_simps)
  qed
qed

subsection \<open>Whole transfers\<close>

text \<open>
  The specification of a transfer of \<open>n\<close> bytes with result \<open>r\<close>. Towards the user: the
  bytes \<open>done\<close> read from the device at increasing addresses, each once, arrive at the same
  offsets of the user's buffer; after a fault a whole number of driver buffers has arrived and
  the bytes \<open>rest\<close> were read and lost. Towards the device: nothing is read ahead.
\<close>

definition transfers_to_user :: "ptr \<Rightarrow> ptr \<Rightarrow> nat \<Rightarrow> int \<Rightarrow> kevent list \<Rightarrow> bool" where
  "transfers_to_user dev u n r tr \<longleftrightarrow>
     (\<exists>done rest. moved dev_reads tr = place dev (done @ rest) \<and> moved user_writes tr = place u done \<and>
        (r = 0 \<and> rest = [] \<and> length done = n \<or>
         r = - EFAULT \<and> rest \<noteq> [] \<and> BUF_SIZE dvd length done \<and> length (done @ rest) \<le> n)) \<and>
     moved dev_writes tr = [] \<and> moved user_reads tr = [] \<and> (\<forall>e \<in> set tr. plain_call e) \<and>
     (r = 0 \<longleftrightarrow> (\<forall>e \<in> set tr. copied e))"

definition transfers_to_device :: "ptr \<Rightarrow> ptr \<Rightarrow> nat \<Rightarrow> int \<Rightarrow> kevent list \<Rightarrow> bool" where
  "transfers_to_device dev u n r tr \<longleftrightarrow>
     (\<exists>done. moved user_reads tr = place u done \<and> moved dev_writes tr = place dev done \<and>
        (r = 0 \<and> length done = n \<or> r = - EFAULT \<and> BUF_SIZE dvd length done \<and> length done < n)) \<and>
     moved dev_reads tr = [] \<and> moved user_writes tr = [] \<and> (\<forall>e \<in> set tr. plain_call e) \<and>
     (r = 0 \<longleftrightarrow> (\<forall>e \<in> set tr. copied e))"

lemma chunk_advance:
  assumes "length bs = unat (chunk_size n)"
  shows "a + chunk_size n = a + of_nat (length bs)"
  using assms by simp

lemma unat_gt0: "0 < (n :: u32) \<Longrightarrow> 0 < unat n"
  by (simp add: word_less_nat_alt)

lemma to_user_step:
  assumes tr: "moved dev_reads tr = place dev bs" "\<forall>e \<in> set tr. mmio_read e"
    and bs: "length bs = unat (chunk_size n)" and n: "0 < n"
    and rest: "transfers_to_user (dev + chunk_size n) (u + chunk_size n) (unat (n - chunk_size n)) r tr'"
  shows "transfers_to_user dev u (unat n) r ((tr @ [Copy_to_user u bs 0]) @ tr')"
proof -
  note q = moved_reads [OF tr(2)]
  from rest obtain d2 r2 where m: "moved dev_reads tr' = place (dev + chunk_size n) (d2 @ r2)"
    "moved user_writes tr' = place (u + chunk_size n) d2"
    and alt: "r = 0 \<and> r2 = [] \<and> length d2 = unat (n - chunk_size n) \<or>
      r = - EFAULT \<and> r2 \<noteq> [] \<and> BUF_SIZE dvd length d2 \<and> length (d2 @ r2) \<le> unat (n - chunk_size n)"
    and z: "moved dev_writes tr' = []" "moved user_reads tr' = []" "\<forall>e \<in> set tr'. plain_call e"
      "r = 0 \<longleftrightarrow> (\<forall>e \<in> set tr'. copied e)"
    unfolding transfers_to_user_def by blast
  let ?t = "(tr @ [Copy_to_user u bs 0]) @ tr'"
  have "moved dev_reads ?t = place dev ((bs @ d2) @ r2)"
    using tr(1) m(1) chunk_advance [OF bs] by (simp add: trace_simps place_append)
  moreover have "moved user_writes ?t = place u (bs @ d2)"
    using q m(2) chunk_advance [OF bs] by (simp add: trace_simps place_append)
  moreover have "r = 0 \<and> r2 = [] \<and> length (bs @ d2) = unat n \<or>
      r = - EFAULT \<and> r2 \<noteq> [] \<and> BUF_SIZE dvd length (bs @ d2) \<and> length ((bs @ d2) @ r2) \<le> unat n"
  proof -
    have sub: "unat (n - chunk_size n) = unat n - min (unat n) 4096" by (rule unat_sub_chunk)
    have len: "length bs = min (unat n) 4096" using bs by (simp add: chunk_size_unat)
    from alt show ?thesis
    proof (elim disjE conjE)
      assume "r = 0" "r2 = []" "length d2 = unat (n - chunk_size n)"
      then show ?thesis using sub len by simp
    next
      assume a: "r = - EFAULT" "r2 \<noteq> []" "BUF_SIZE dvd length d2"
        "length (d2 @ r2) \<le> unat (n - chunk_size n)"
      then have "0 < length r2" by simp
      then have "4096 < unat n" using a(4) sub by (simp add: min_def split: if_splits)
      then show ?thesis using a sub len by (simp add: hw_consts min_def)
    qed
  qed
  moreover have "moved dev_writes ?t = []" "moved user_reads ?t = []" "\<forall>e \<in> set ?t. plain_call e"
    using q z(1-3) by (auto simp: trace_simps plain_call_def)
  moreover have "(\<forall>e \<in> set ?t. copied e) \<longleftrightarrow> (\<forall>e \<in> set tr'. copied e)" using q by auto
  ultimately show ?thesis
    using z(4) unfolding transfers_to_user_def by blast
qed

lemma rw_loop_read:
  assumes "length buf = BUF_SIZE"
  shows "\<exists>r buf' tr. rw_loop K True dev u n buf h = Some (r, buf', rev tr @ h) \<and>
    length buf' = BUF_SIZE \<and> transfers_to_user dev u (unat n) r tr"
  using assms
proof (induction "unat n" arbitrary: n dev u buf h rule: less_induct)
  case less
  show ?case
  proof (cases "0 < n")
    case False
    then have "n = 0" by (simp add: word_gt_0)
    then show ?thesis using less.prems
      by (intro exI [of _ 0] exI [of _ buf] exI [of _ "[]"])
        (simp add: rw_loop.simps transfers_to_user_def trace_simps hw_consts)
  next
    case True
    have small: "unat (chunk_size n) \<le> length buf"
      using less.prems by (simp add: chunk_size_unat hw_consts)
    obtain tr bs left buf1 where c: "rw_chunk K True dev u (chunk_size n) buf h =
        Some (if left \<noteq> 0 then - EFAULT else 0, buf1, rev (tr @ [Copy_to_user u bs left]) @ h)"
      "length buf1 = length buf" "length bs = unat (chunk_size n)" "moved dev_reads tr = place dev bs"
      "\<forall>e \<in> set tr. mmio_read e"
      using rw_chunk_read [OF small] by metis
    show ?thesis
    proof (cases "left = 0")
      case True
      have "unat (n - chunk_size n) < unat n"
        using unat_gt0 [OF \<open>0 < n\<close>] by (simp add: unat_sub_chunk)
      from less.hyps [OF this, of buf1] c(2) less.prems
      obtain r buf2 tr' where IH: "rw_loop K True (dev + chunk_size n) (u + chunk_size n)
          (n - chunk_size n) buf1 (rev (tr @ [Copy_to_user u bs left]) @ h) =
          Some (r, buf2, rev tr' @ rev (tr @ [Copy_to_user u bs left]) @ h)" "length buf2 = BUF_SIZE"
        "transfers_to_user (dev + chunk_size n) (u + chunk_size n) (unat (n - chunk_size n)) r tr'"
        by metis
      have "rw_loop K True dev u n buf h =
          Some (r, buf2, rev ((tr @ [Copy_to_user u bs 0]) @ tr') @ h)"
        using \<open>0 < n\<close> c(1) True IH(1) by (subst rw_loop.simps) simp
      with IH(2) to_user_step [OF c(4,5,3) \<open>0 < n\<close> IH(3)] show ?thesis by blast
    next
      case False
      have "rw_loop K True dev u n buf h = Some (- EFAULT, buf1, rev (tr @ [Copy_to_user u bs left]) @ h)"
        using \<open>0 < n\<close> c(1) False by (subst rw_loop.simps) (simp add: hw_consts)
      moreover have "transfers_to_user dev u (unat n) (- EFAULT) (tr @ [Copy_to_user u bs left])"
      proof -
        have "0 < length bs" using c(3) unat_gt0 [OF \<open>0 < n\<close>] by (simp add: chunk_size_unat)
        then show ?thesis
          using moved_reads [OF c(5)] c(3,4) False unfolding transfers_to_user_def
          by (intro conjI exI [of _ "[]"] exI [of _ bs])
            (auto simp: trace_simps plain_call_def chunk_size_unat hw_consts)
      qed
      moreover have "length buf1 = BUF_SIZE" using c(2) less.prems by simp
      ultimately show ?thesis by blast
    qed
  qed
qed

lemma to_device_step:
  assumes tr: "moved dev_writes tr = place dev bs" "\<forall>e \<in> set tr. mmio_write e"
    and bs: "length bs = unat (chunk_size n)" and n: "0 < n"
    and rest: "transfers_to_device (dev + chunk_size n) (u + chunk_size n) (unat (n - chunk_size n)) r tr'"
  shows "transfers_to_device dev u (unat n) r ((Copy_from_user u bs 0 # tr) @ tr')"
proof -
  note q = moved_writes [OF tr(2)]
  from rest obtain d2 where m: "moved user_reads tr' = place (u + chunk_size n) d2"
    "moved dev_writes tr' = place (dev + chunk_size n) d2"
    and alt: "r = 0 \<and> length d2 = unat (n - chunk_size n) \<or>
      r = - EFAULT \<and> BUF_SIZE dvd length d2 \<and> length d2 < unat (n - chunk_size n)"
    and z: "moved dev_reads tr' = []" "moved user_writes tr' = []" "\<forall>e \<in> set tr'. plain_call e"
      "r = 0 \<longleftrightarrow> (\<forall>e \<in> set tr'. copied e)"
    unfolding transfers_to_device_def by blast
  let ?t = "(Copy_from_user u bs 0 # tr) @ tr'"
  have "moved user_reads ?t = place u (bs @ d2)"
    using q m(1) chunk_advance [OF bs] by (simp add: trace_simps place_append)
  moreover have "moved dev_writes ?t = place dev (bs @ d2)"
    using tr(1) m(2) chunk_advance [OF bs] by (simp add: trace_simps place_append)
  moreover have "r = 0 \<and> length (bs @ d2) = unat n \<or>
      r = - EFAULT \<and> BUF_SIZE dvd length (bs @ d2) \<and> length (bs @ d2) < unat n"
    using alt bs by (auto simp: unat_sub_chunk chunk_size_unat hw_consts min_def split: if_splits)
  moreover have "moved dev_reads ?t = []" "moved user_writes ?t = []" "\<forall>e \<in> set ?t. plain_call e"
    using q z(1-3) by (auto simp: trace_simps plain_call_def)
  moreover have "(\<forall>e \<in> set ?t. copied e) \<longleftrightarrow> (\<forall>e \<in> set tr'. copied e)" using q by auto
  ultimately show ?thesis
    using z(4) unfolding transfers_to_device_def by blast
qed

lemma rw_loop_write:
  assumes "length buf = BUF_SIZE"
  shows "\<exists>r buf' tr. rw_loop K False dev u n buf h = Some (r, buf', rev tr @ h) \<and>
    length buf' = BUF_SIZE \<and> transfers_to_device dev u (unat n) r tr"
  using assms
proof (induction "unat n" arbitrary: n dev u buf h rule: less_induct)
  case less
  show ?case
  proof (cases "0 < n")
    case False
    then have "n = 0" by (simp add: word_gt_0)
    then show ?thesis using less.prems
      by (intro exI [of _ 0] exI [of _ buf] exI [of _ "[]"])
        (simp add: rw_loop.simps transfers_to_device_def trace_simps)
  next
    case True
    have small: "unat (chunk_size n) \<le> length buf"
      using less.prems by (simp add: chunk_size_unat hw_consts)
    obtain tr bs left buf1 where c: "rw_chunk K False dev u (chunk_size n) buf h =
        Some (if left \<noteq> 0 then - EFAULT else 0, buf1, rev (Copy_from_user u bs left # tr) @ h)"
      "length buf1 = length buf" "length bs = unat (chunk_size n)"
      "moved dev_writes tr = (if left = 0 then place dev bs else [])" "\<forall>e \<in> set tr. mmio_write e"
      using rw_chunk_write [OF small] by metis
    show ?thesis
    proof (cases "left = 0")
      case True
      have w: "moved dev_writes tr = place dev bs" using c(4) True by simp
      have "unat (n - chunk_size n) < unat n"
        using unat_gt0 [OF \<open>0 < n\<close>] by (simp add: unat_sub_chunk)
      from less.hyps [OF this, of buf1] c(2) less.prems
      obtain r buf2 tr' where IH: "rw_loop K False (dev + chunk_size n) (u + chunk_size n)
          (n - chunk_size n) buf1 (rev (Copy_from_user u bs left # tr) @ h) =
          Some (r, buf2, rev tr' @ rev (Copy_from_user u bs left # tr) @ h)" "length buf2 = BUF_SIZE"
        "transfers_to_device (dev + chunk_size n) (u + chunk_size n) (unat (n - chunk_size n)) r tr'"
        by metis
      have "rw_loop K False dev u n buf h =
          Some (r, buf2, rev ((Copy_from_user u bs 0 # tr) @ tr') @ h)"
        using \<open>0 < n\<close> c(1) True IH(1) by (subst rw_loop.simps) simp
      with IH(2) to_device_step [OF w c(5,3) \<open>0 < n\<close> IH(3)] show ?thesis by blast
    next
      case False
      have "rw_loop K False dev u n buf h = Some (- EFAULT, buf1, rev (Copy_from_user u bs left # tr) @ h)"
        using \<open>0 < n\<close> c(1) False by (subst rw_loop.simps) (simp add: hw_consts)
      moreover have "transfers_to_device dev u (unat n) (- EFAULT) (Copy_from_user u bs left # tr)"
        using moved_writes [OF c(5)] c(4) False unat_gt0 [OF \<open>0 < n\<close>]
        unfolding transfers_to_device_def
        by (intro conjI exI [of _ "[]"]) (auto simp: trace_simps plain_call_def hw_consts)
      moreover have "length buf1 = BUF_SIZE" using c(2) less.prems by simp
      ultimately show ?thesis by blast
    qed
  qed
qed

text \<open>Both directions, for \<open>aclsoc_rw_large\<close> itself.\<close>

definition transfers :: "bool \<Rightarrow> ptr \<Rightarrow> ptr \<Rightarrow> nat \<Rightarrow> int \<Rightarrow> kevent list \<Rightarrow> bool" where
  "transfers reading dev u n r tr =
     (if reading then transfers_to_user dev u n r tr else transfers_to_device dev u n r tr)"

lemma rw_large_transfers:
  assumes "length buf = BUF_SIZE"
  shows "\<exists>r buf' tr. aclsoc_rw_large K dev u n buf reading h = Some (r, buf', rev tr @ h) \<and>
    length buf' = BUF_SIZE \<and> transfers reading dev u (unat n) r tr"
  using rw_loop_read [OF assms] rw_loop_write [OF assms]
  by (cases reading) (simp_all add: aclsoc_rw_large_def transfers_def)

lemma transfers_result: "transfers reading dev u n r tr \<Longrightarrow> r = 0 \<or> r = - EFAULT"
  by (auto simp: transfers_def transfers_to_user_def transfers_to_device_def split: if_splits)

lemma transfers_plain: "transfers reading dev u n r tr \<Longrightarrow> \<forall>e \<in> set tr. plain_call e"
  by (auto simp: transfers_def transfers_to_user_def transfers_to_device_def split: if_splits)

end
