(* ===== verification/Acl_Table.thy ===== *)
theory Acl_Table
  imports Acl_Mmap
begin

section \<open>The table of mapped buffers as a finite map\<close>

text \<open>
  The interface between \<open>mmap()\<close>, which enters buffers into \<open>addr_map\<close>, and the command
  that looks their physical addresses up: a locale with the laws the command relies on, and its
  interpretation on the driver's table. The laws need an invariant the driver does not keep by
  itself: no free slot below a used one.
\<close>

subsection \<open>The table as a map\<close>

text \<open>
  The slots the code considers used are those before the first free one. \<open>table_lookup\<close> is
  what the search finds, \<open>live_lookup\<close> what a caller expects: any buffer in the table.
\<close>

definition used_prefix :: "addr_map_elem list \<Rightarrow> addr_map_elem list" where
  "used_prefix es = takeWhile (\<lambda>e. vm_start e \<noteq> 0) es"

definition table_lookup :: "addr_map_elem list \<Rightarrow> u32 \<Rightarrow> addr_map_elem option" where
  "table_lookup es v = find (\<lambda>e. vm_start e = v) (used_prefix (take 128 es))"

definition live_lookup :: "addr_map_elem list \<Rightarrow> u32 \<Rightarrow> addr_map_elem option" where
  "live_lookup es v = find (\<lambda>e. vm_start e = v \<and> vm_start e \<noteq> 0) es"

definition table_insert :: "addr_map_elem list \<Rightarrow> addr_map_elem \<Rightarrow> addr_map_elem list" where
  "table_insert es e = es[length (used_prefix es) := e]"

text \<open>No free slot lies below a used one.\<close>

definition dense :: "addr_map_elem list \<Rightarrow> bool" where
  "dense es \<longleftrightarrow> (\<forall>e \<in> set (drop (length (used_prefix es)) es). vm_start e = 0)"

lemma find_live_dense:
  assumes "dense es"
  shows "live_lookup es v = (if v = 0 then None else find (\<lambda>e. vm_start e = v) (used_prefix es))"
proof -
  let ?n = "length (used_prefix es)"
  have es: "es = used_prefix es @ drop ?n es"
    unfolding used_prefix_def by (metis dropWhile_eq_drop takeWhile_dropWhile_id)
  have none: "find (\<lambda>e. vm_start e = v \<and> vm_start e \<noteq> 0) (drop ?n es) = None"
    using assms by (auto simp: dense_def find_None_iff)
  have used: "\<forall>e \<in> set (used_prefix es). vm_start e \<noteq> 0"
    by (auto simp: used_prefix_def dest: set_takeWhileD)
  have "live_lookup es v = find (\<lambda>e. vm_start e = v \<and> vm_start e \<noteq> 0) (used_prefix es)"
    unfolding live_lookup_def by (subst es) (simp only: find_append none, simp split: option.splits)
  also have "\<dots> = (if v = 0 then None else find (\<lambda>e. vm_start e = v) (used_prefix es))"
    using used by (auto simp: find_None_iff intro!: find_cong)
  finally show ?thesis .
qed

text \<open>With no hole and at most 128 used slots the search finds what a caller expects.\<close>

lemma table_lookup_live:
  assumes "dense es" "length (used_prefix es) \<le> 128" "v \<noteq> 0"
  shows "table_lookup es v = live_lookup es v"
proof -
  have "used_prefix (take 128 es) = take 128 (used_prefix es)"
    unfolding used_prefix_def by (rule takeWhile_take)
  then show ?thesis
    using assms by (simp add: table_lookup_def find_live_dense)
qed

lemma find_slot_used:
  assumes "dev_wf d"
  shows "find_slot d 0 = Some (length (used_prefix (addr_map_mem d)))"
proof -
  let ?es = "addr_map_mem d"
  obtain j where j: "find_slot d 0 = Some j" "j \<le> MAX_ADDR_MAP_ENTRIES"
    "j < MAX_ADDR_MAP_ENTRIES \<longrightarrow> vm_start (?es ! j) = 0"
    "\<forall>k. k < j \<longrightarrow> vm_start (?es ! k) \<noteq> 0"
    using find_slot_props [OF assms, of 0] by auto
  have len: "length ?es = MAX_ADDR_MAP_ENTRIES" using assms by (simp add: dev_wfD)
  have "used_prefix ?es = take j ?es"
    unfolding used_prefix_def using j len by (intro takeWhile_eq_take_P_nth) auto
  then have "length (used_prefix ?es) = j" using j(2) len by simp
  with j(1) show ?thesis by simp
qed


subsection \<open>Mapping a buffer enters it into the table\<close>

lemma used_prefix_full:
  "length (used_prefix es) \<le> length es"
  by (simp add: used_prefix_def length_takeWhile_le)

lemma aclsoc_mmap_eq:
  assumes "dev_wf d"
  shows "aclsoc_mmap K v d h =
    (if length (used_prefix (addr_map_mem d)) = MAX_ADDR_MAP_ENTRIES then Some (- ENOMEM, v, d, h)
     else
       let sz = vma_end v - vma_start v;
           (p, dm) = ans_dma_alloc_coherent K h sz;
           h = Dma_alloc_coherent sz p dm # h
       in if p = 0 then Some (- ENOMEM, v, d, h)
          else
            let prot = pgprot_noncached K (vma_page_prot v);
                r = ans_remap_pfn_range K h (vma_start v) (drop_bit PAGE_SHIFT dm) sz prot;
                h = Remap_pfn_range (vma_start v) (drop_bit PAGE_SHIFT dm) sz prot r # h
            in if r < 0 then Some (- EAGAIN, v\<lparr>vma_page_prot := prot\<rparr>, d, h)
               else Some (0, v\<lparr>vma_page_prot := prot, vma_ops := True,
                                vma_private := Some (length (used_prefix (addr_map_mem d)))\<rparr>,
                          d\<lparr>addr_map_mem := table_insert (addr_map_mem d)
                              \<lparr>vm_start = vma_start v, map_size = sz, cpu_addr = p,
                               dma_handle = dm, ref = kr_init K\<rparr>\<rparr>, h))"
  using assms
  by (simp add: aclsoc_mmap_def find_slot_used env_simps Let_def table_insert_def set_slot_def
      split: prod.splits)

subsection \<open>The interface\<close>

locale phys_table =
  fixes lookup :: "'t \<Rightarrow> u32 \<Rightarrow> addr_map_elem option"
    and enter :: "'t \<Rightarrow> addr_map_elem \<Rightarrow> 't"
    and inv :: "'t \<Rightarrow> bool"
    and room :: "'t \<Rightarrow> nat"
  assumes inv_enter: "inv t \<Longrightarrow> 0 < room t \<Longrightarrow> vm_start e \<noteq> 0 \<Longrightarrow> inv (enter t e)"
    and room_enter: "inv t \<Longrightarrow> 0 < room t \<Longrightarrow> vm_start e \<noteq> 0 \<Longrightarrow> room (enter t e) = room t - 1"
    and lookup_new: "inv t \<Longrightarrow> 0 < room t \<Longrightarrow> vm_start e \<noteq> 0 \<Longrightarrow>
      lookup t (vm_start e) = None \<Longrightarrow> lookup (enter t e) (vm_start e) = Some e"
    and lookup_old: "inv t \<Longrightarrow> 0 < room t \<Longrightarrow> vm_start e \<noteq> 0 \<Longrightarrow>
      lookup t w = Some x \<Longrightarrow> lookup (enter t e) w = Some x"
    and lookup_other: "inv t \<Longrightarrow> 0 < room t \<Longrightarrow> vm_start e \<noteq> 0 \<Longrightarrow>
      w \<noteq> vm_start e \<Longrightarrow> lookup t w = None \<Longrightarrow> lookup (enter t e) w = None"
begin

lemma lookup_kept:
  "inv t \<Longrightarrow> length es \<le> room t \<Longrightarrow> \<forall>e \<in> set es. vm_start e \<noteq> 0 \<Longrightarrow>
   lookup t w = Some x \<Longrightarrow> lookup (foldl enter t es) w = Some x"
proof (induction es arbitrary: t)
  case Nil
  then show ?case by simp
next
  case (Cons e es)
  then have "0 < room t" by simp
  with Cons show ?case by (simp add: inv_enter room_enter lookup_old)
qed

lemma lookup_entered:
  "inv t \<Longrightarrow> length es \<le> room t \<Longrightarrow>
   \<forall>e \<in> set es. vm_start e \<noteq> 0 \<and> lookup t (vm_start e) = None \<Longrightarrow>
   distinct (map vm_start es) \<Longrightarrow> e \<in> set es \<Longrightarrow>
   lookup (foldl enter t es) (vm_start e) = Some e"
proof (induction es arbitrary: t)
  case Nil
  then show ?case by simp
next
  case (Cons a es)
  then have r: "0 < room t" and nz: "vm_start a \<noteq> 0" by auto
  have i: "inv (enter t a)" "length es \<le> room (enter t a)"
    using Cons.prems r nz by (auto simp: inv_enter room_enter)
  show ?case
  proof (cases "e = a")
    case True
    have "lookup (enter t a) (vm_start a) = Some a"
      using Cons.prems r nz by (simp add: lookup_new)
    then show ?thesis
      using lookup_kept [OF i] Cons.prems True by simp
  next
    case False
    with Cons.prems have e: "e \<in> set es" by simp
    have "lookup (enter t a) (vm_start x) = None" if x: "x \<in> set es" for x
    proof -
      have "vm_start x \<in> set (map vm_start es)" using x by simp
      then have "vm_start x \<noteq> vm_start a" using Cons.prems(4) by auto
      then show ?thesis using Cons.prems x r nz by (simp add: lookup_other)
    qed
    then have "\<forall>x \<in> set es. vm_start x \<noteq> 0 \<and> lookup (enter t a) (vm_start x) = None"
      using Cons.prems by simp
    then show ?thesis using Cons.IH [OF i] Cons.prems e by simp
  qed
qed

end

subsection \<open>The driver's table provides it\<close>

definition table_inv :: "addr_map_elem list \<Rightarrow> bool" where
  "table_inv es \<longleftrightarrow> dense es \<and> length es = MAX_ADDR_MAP_ENTRIES"

definition table_room :: "addr_map_elem list \<Rightarrow> nat" where
  "table_room es = 128 - length (used_prefix es)"

lemma dense_split:
  assumes "dense es" "length (used_prefix es) < length es"
  obtains z R where "es = used_prefix es @ z # R" "vm_start z = 0" "\<forall>e \<in> set R. vm_start e = 0"
proof -
  let ?n = "length (used_prefix es)"
  have "es = used_prefix es @ drop ?n es"
    unfolding used_prefix_def by (metis dropWhile_eq_drop takeWhile_dropWhile_id)
  moreover have "drop ?n es = es ! ?n # drop (Suc ?n) es"
    using assms(2) by (simp add: Cons_nth_drop_Suc)
  ultimately show ?thesis
    using that [of "es ! ?n" "drop (Suc ?n) es"] assms(1) unfolding dense_def by simp
qed

lemma used_prefix_app:
  "\<forall>e \<in> set xs. vm_start e \<noteq> 0 \<Longrightarrow> used_prefix (xs @ ys) = xs @ used_prefix ys"
  by (simp add: used_prefix_def)

lemma used_prefix_zero: "\<forall>e \<in> set R. vm_start e = 0 \<Longrightarrow> used_prefix R = []"
  by (cases R) (auto simp: used_prefix_def)

lemma used_prefix_used: "\<forall>e \<in> set (used_prefix es). vm_start e \<noteq> 0"
  by (auto simp: used_prefix_def dest: set_takeWhileD)

lemma table_insert_used:
  assumes "dense es" "length (used_prefix es) < length es" "vm_start e \<noteq> 0"
  shows "used_prefix (table_insert es e) = used_prefix es @ [e]" "dense (table_insert es e)"
proof -
  obtain z R where es: "es = used_prefix es @ z # R" "vm_start z = 0" "\<forall>e \<in> set R. vm_start e = 0"
    using dense_split [OF assms(1,2)] by blast
  have ti: "table_insert es e = used_prefix es @ e # R"
    unfolding table_insert_def by (subst (1) es(1)) simp
  show u: "used_prefix (table_insert es e) = used_prefix es @ [e]"
    using used_prefix_app [of "used_prefix es @ [e]" R] used_prefix_used [of es]
      used_prefix_zero [OF es(3)] assms(3) by (simp add: ti)
  show "dense (table_insert es e)"
    using es(3) by (simp add: dense_def u) (simp add: ti)
qed

lemma table_lookup_used:
  "length (used_prefix es) \<le> 128 \<Longrightarrow> table_lookup es v = find (\<lambda>e. vm_start e = v) (used_prefix es)"
  by (simp add: table_lookup_def used_prefix_def takeWhile_take)

lemma table_enter_lookup:
  assumes "table_inv es" "0 < table_room es" "vm_start e \<noteq> 0"
  shows "table_lookup (table_insert es e) v =
    (case table_lookup es v of Some x \<Rightarrow> Some x | None \<Rightarrow> if v = vm_start e then Some e else None)"
    "table_inv (table_insert es e)" "table_room (table_insert es e) = table_room es - 1"
proof -
  have n: "length (used_prefix es) < 128" "length (used_prefix es) < length es" "dense es"
    using assms by (auto simp: table_inv_def table_room_def hw_consts)
  note u = table_insert_used [OF n(3,2) assms(3)]
  show "table_lookup (table_insert es e) v =
      (case table_lookup es v of Some x \<Rightarrow> Some x | None \<Rightarrow> if v = vm_start e then Some e else None)"
    using n u by (simp add: table_lookup_used find_append split: option.splits)
  show "table_inv (table_insert es e)" "table_room (table_insert es e) = table_room es - 1"
    using u assms(1) by (simp_all add: table_inv_def table_room_def table_insert_def)
qed

interpretation drv: phys_table table_lookup table_insert table_inv table_room
  by unfold_locales (auto simp: table_enter_lookup)

subsection \<open>A series of mappings\<close>

text \<open>
  Successful calls of \<open>mmap()\<close> from one device to another, in order, with the start address of
  each mapping and the bus address the allocator gave for it. Between two of them the driver may
  do anything that leaves the table alone and the device well formed, such as fail to map.
\<close>

inductive mappings ::
  "kernel \<Rightarrow> aclsoc_dev \<Rightarrow> hist \<Rightarrow> (u32 \<times> u32) list \<Rightarrow> aclsoc_dev \<Rightarrow> hist \<Rightarrow> bool" for K where
  no_mapping: "mappings K d h [] d h"
| one_mapping: "aclsoc_mmap K v d h = Some (0, v', d1, h1) \<Longrightarrow> mappings K d1 h1 ms d' h' \<Longrightarrow>
    mappings K d h ((vma_start v, snd (ans_dma_alloc_coherent K h (vma_end v - vma_start v))) # ms) d' h'"
| table_alone: "addr_map_mem d1 = addr_map_mem d \<Longrightarrow> dev_wf d1 \<Longrightarrow> mappings K d1 h1 ms d' h' \<Longrightarrow>
    mappings K d h ms d' h'"

lemma failed_mmap_alone:
  assumes "aclsoc_mmap K v d h = Some (r, v', d', h')" "r \<noteq> 0" "dev_wf d"
  shows "d' = d"
  using assms(1,2) unfolding aclsoc_mmap_eq [OF assms(3)]
  by (auto simp: Let_def split: prod.splits if_splits)

lemma mmap_makes_entry:
  assumes "aclsoc_mmap K v d h = Some (0, v', d', h')" "dev_wf d"
  obtains e where "addr_map_mem d' = table_insert (addr_map_mem d) e" "vm_start e = vma_start v"
    "dma_handle e = snd (ans_dma_alloc_coherent K h (vma_end v - vma_start v))" "dev_wf d'"
proof -
  obtain p dm where a: "ans_dma_alloc_coherent K h (vma_end v - vma_start v) = (p, dm)" by force
  let ?e = "\<lparr>vm_start = vma_start v, map_size = vma_end v - vma_start v, cpu_addr = p, dma_handle = dm,
    ref = kr_init K\<rparr>"
  have d': "d' = d\<lparr>addr_map_mem := table_insert (addr_map_mem d) ?e\<rparr>"
    using assms(1) unfolding aclsoc_mmap_eq [OF assms(2)]
    by (auto simp: a Let_def hw_consts split: if_splits)
  then show ?thesis
    using that [of ?e] assms(2) by (simp add: a dev_wf_def table_insert_def)
qed

lemma mappings_insert:
  assumes "mappings K d h ms d' h'" "dev_wf d"
  obtains es where "addr_map_mem d' = foldl table_insert (addr_map_mem d) es"
    "map (\<lambda>e. (vm_start e, dma_handle e)) es = ms" "dev_wf d'"
proof -
  from assms have "\<exists>es. addr_map_mem d' = foldl table_insert (addr_map_mem d) es \<and>
      map (\<lambda>e. (vm_start e, dma_handle e)) es = ms \<and> dev_wf d'"
  proof (induction rule: mappings.induct)
    case (no_mapping d h)
    then show ?case by (intro exI [of _ "[]"]) simp
  next
    case (one_mapping v d h v' d1 h1 ms d' h')
    obtain e where e: "addr_map_mem d1 = table_insert (addr_map_mem d) e" "vm_start e = vma_start v"
      "dma_handle e = snd (ans_dma_alloc_coherent K h (vma_end v - vma_start v))" "dev_wf d1"
      using mmap_makes_entry [OF one_mapping.hyps(1) one_mapping.prems] by blast
    obtain es where "addr_map_mem d' = foldl table_insert (addr_map_mem d1) es"
      "map (\<lambda>e. (vm_start e, dma_handle e)) es = ms" "dev_wf d'"
      using one_mapping.IH e(4) by blast
    with e show ?case by (intro exI [of _ "e # es"]) simp
  next
    case (table_alone d1 d h1 ms d' h' h)
    then show ?case by simp
  qed
  then show ?thesis using that by blast
qed

text \<open>After mappings into an empty table the search finds the bus address of each.\<close>

lemma mapped_lookup:
  assumes "mappings K d h ms d' h'" "dev_wf d" "\<forall>e \<in> set (addr_map_mem d). vm_start e = 0"
    "length ms \<le> 128" "distinct (map fst ms)" "\<forall>m \<in> set ms. fst m \<noteq> 0" "(a, bus) \<in> set ms"
  obtains e where "table_lookup (addr_map_mem d') a = Some e" "dma_handle e = bus" "dev_wf d'"
proof -
  obtain es where es: "addr_map_mem d' = foldl table_insert (addr_map_mem d) es"
    "map (\<lambda>e. (vm_start e, dma_handle e)) es = ms" "dev_wf d'"
    using mappings_insert [OF assms(1,2)] by blast
  have starts: "map vm_start es = map fst ms" by (simp add: es(2) [symmetric] comp_def)
  obtain e where e: "e \<in> set es" "vm_start e = a" "dma_handle e = bus"
    using assms(7) by (auto simp: es(2) [symmetric])
  have "vm_start x \<noteq> 0" if "x \<in> set es" for x
    using that assms(6) by (auto simp: es(2) [symmetric])
  moreover have u: "used_prefix (addr_map_mem d) = []" by (rule used_prefix_zero [OF assms(3)])
  moreover have "length es \<le> 128" using assms(4) by (simp add: es(2) [symmetric])
  ultimately have t: "table_inv (addr_map_mem d)" "length es \<le> table_room (addr_map_mem d)"
    "\<forall>x \<in> set es. vm_start x \<noteq> 0 \<and> table_lookup (addr_map_mem d) (vm_start x) = None"
    using assms(2,3) by (simp_all add: table_inv_def table_room_def dense_def table_lookup_used dev_wfD)
  have "table_lookup (foldl table_insert (addr_map_mem d) es) (vm_start e) = Some e"
    by (rule drv.lookup_entered [OF t _ e(1)]) (simp add: starts assms(5))
  then show ?thesis using that [of e] e es by simp
qed

text \<open>A free slot ends the search, whatever comes after it.\<close>

lemma hole_ends_search:
  assumes "i < length es" "vm_start (es ! i) = 0" "\<forall>k < i. vm_start (es ! k) \<noteq> v"
  shows "table_lookup es v = None"
proof -
  have "used_prefix es = used_prefix (take i es @ es ! i # drop (Suc i) es)"
    by (simp only: id_take_nth_drop [OF assms(1), symmetric])
  also have "\<dots> = used_prefix (take i es)"
    unfolding used_prefix_def using assms(2) by (intro takeWhile_tail) simp
  finally have "used_prefix es = used_prefix (take i es)" .
  then have "set (used_prefix es) \<subseteq> set (take i es)"
    by (auto simp: used_prefix_def dest: set_takeWhileD)
  moreover have "set (used_prefix (take 128 es)) \<subseteq> set (used_prefix es)"
    by (simp add: used_prefix_def takeWhile_take set_take_subset)
  moreover have "vm_start e \<noteq> v" if "e \<in> set (take i es)" for e
  proof -
    obtain k where "k < i" "e = es ! k" using \<open>e \<in> set (take i es)\<close> assms(1) by (auto simp: in_set_conv_nth)
    then show ?thesis using assms(3) by simp
  qed
  ultimately have "\<forall>e \<in> set (used_prefix (take 128 es)). vm_start e \<noteq> v" by blast
  then show ?thesis by (auto simp: table_lookup_def find_None_iff)
qed

end
