(* ===== verification/Acl_Cmd.thy ===== *)
theory Acl_Cmd
  imports Acl_Fileio Acl_Table
begin

section \<open>Special commands (aclsoc\_cmd.c)\<close>

text \<open>
  The commands a process passes in place of a transfer, and the lookup of the physical address
  of a mapped buffer, with the table of \<^theory_text>\<open>Acl_Mmap\<close> seen as a finite map.
\<close>

definition ACL_DRIVER_VERSION :: string where "ACL_DRIVER_VERSION = ''14.1.''"

text \<open>A C string literal in memory: its characters and the terminating zero.\<close>

definition c_string :: "string \<Rightarrow> u8 list" where
  "c_string s = map of_char s @ [0]"

text \<open>The search of the command \<open>ACLPCI_CMD_GET_PHYS_PTR_FROM_VIRT\<close>.\<close>

function phys_loop ::
  "kernel \<Rightarrow> aclsoc_dev \<Rightarrow> u32 \<Rightarrow> ptr \<Rightarrow> int \<Rightarrow> nat \<Rightarrow> hist \<Rightarrow> (int \<times> hist) option" where
  "phys_loop K d vm_addr dest result i h =
     (if i < 128 then
        (case slot d i of None \<Rightarrow> None
         | Some e \<Rightarrow>
             if vm_start e = 0 then Some (result, h)
             else if vm_start e = vm_addr then
               (let (left, h) = copy_to_user K dest (bytes_u32 (dma_handle e)) h
                in Some (sint left, h))
             else phys_loop K d vm_addr dest result (Suc i) h)
      else Some (result, h))"
  by pat_completeness auto
termination
  by (relation "measure (\<lambda>(K, d, v, a, r, i, h). 128 - i)") auto

declare phys_loop.simps [simp del]

definition aclsoc_exec_cmd ::
  "kernel \<Rightarrow> acl_cmd \<Rightarrow> u32 \<Rightarrow> aclsoc_dev \<Rightarrow> hist \<Rightarrow> (int \<times> aclsoc_dev \<times> hist) option" where
  "aclsoc_exec_cmd K kcmd cnt d h =
     (if command kcmd = ACLPCI_CMD_GET_DMA_IDLE_STATUS then
        let (left, h) = copy_to_user K (user_addr kcmd) (bytes_u32 1) h in Some (sint left, d, h)
      else if command kcmd = ACLPCI_CMD_DMA_UPDATE then Some (0, d, h)
      else if command kcmd = ACLPCI_CMD_ENABLE_KERNEL_IRQ then Some (0, d, unmask_kernel_irq d h)
      else if command kcmd = ACLPCI_CMD_SET_SIGNAL_PAYLOAD then
        let (left, v, h) = copy_from_user K (user_addr kcmd) (uninit K 4 h) h;
            d = d\<lparr>signal_info := (signal_info d)\<lparr>si_int := u32_bytes v\<rparr>\<rparr>
        in Some (sint left, d, h)
      else if command kcmd = ACLPCI_CMD_GET_DRIVER_VERSION then
        let (left, h) = copy_to_user K (user_addr kcmd) (c_string ACL_DRIVER_VERSION) h
        in Some (sint left, d, h)
      else if command kcmd = ACLPCI_CMD_GET_DEVICE_ID then
        let (left, h) = copy_to_user K (user_addr kcmd) (bytes_u32 ACL_C5DK_DEVICE_ID) h
        in Some (sint left, d, h)
      else if command kcmd = ACLPCI_CMD_GET_PHYS_PTR_FROM_VIRT then
        (let (left, v, h) = copy_from_user K (user_addr kcmd) (uninit K 4 h) h
         in case phys_loop K d (u32_bytes v) (device_addr kcmd) (sint left) 0 h of
              None \<Rightarrow> None
            | Some (result, h) \<Rightarrow> Some (result, d, h))
      else if command kcmd = ACLPCI_CMD_LOAD_PCI_CONTROL_REGS then
        (case init_irq K (Some d) h of
           (_, None, h) \<Rightarrow> None
         | (_, Some d, h) \<Rightarrow> Some (0, d, h))
      else if command kcmd = ACLPCI_CMD_SAVE_PCI_CONTROL_REGS then Some (0, d, release_irq d h)
      else Some (- EFAULT, d, h))"

text \<open>
  The commands with a case of their own that does not fail. All others, those the header only
  declares among them, make no call and change nothing.
\<close>

definition supported_commands :: "u32 list" where
  "supported_commands =
     [ACLPCI_CMD_GET_DMA_IDLE_STATUS, ACLPCI_CMD_DMA_UPDATE, ACLPCI_CMD_ENABLE_KERNEL_IRQ,
      ACLPCI_CMD_SET_SIGNAL_PAYLOAD, ACLPCI_CMD_GET_DRIVER_VERSION, ACLPCI_CMD_GET_DEVICE_ID,
      ACLPCI_CMD_GET_PHYS_PTR_FROM_VIRT, ACLPCI_CMD_LOAD_PCI_CONTROL_REGS, ACLPCI_CMD_SAVE_PCI_CONTROL_REGS]"

definition declared_commands :: "u32 list" where
  "declared_commands =
     [ACLPCI_CMD_DEFAULT, ACLPCI_CMD_PIN_USER_ADDR, ACLPCI_CMD_UNPIN_USER_ADDR, ACLPCI_CMD_GET_VENDOR_ID,
      ACLPCI_CMD_DO_CVP, ACLPCI_CMD_GET_PCI_GEN, ACLPCI_CMD_GET_PCI_NUM_LANES,
      ACLPCI_CMD_REPROGRAM_VIA_FPGA_MANAGER, ACLPCI_CMD_GET_PCI_SLOT_INFO, ACLPCI_CMD_DMA_STOP]"

lemma unsupported_command:
  "command c \<notin> set supported_commands \<Longrightarrow> aclsoc_exec_cmd K c n d h = Some (- EFAULT, d, h)"
  by (simp add: supported_commands_def aclsoc_exec_cmd_def)

lemma all_commands: "set supported_commands \<inter> set declared_commands = {}"
  "set supported_commands \<union> set declared_commands = {c. c < ACLPCI_CMD_MAX_CMD}"
proof -
  show "set supported_commands \<inter> set declared_commands = {}"
    by (simp add: supported_commands_def declared_commands_def hw_consts)
  have "{c. c < (19 :: u32)} = of_nat ` {0..<19}"
  proof (intro set_eqI iffI)
    fix c :: u32 assume "c \<in> {c. c < 19}"
    then have "unat c < 19" by (simp add: word_less_nat_alt)
    then show "c \<in> of_nat ` {0..<19}" by (intro image_eqI [of _ _ "unat c"]) simp_all
  qed (auto simp: word_less_nat_alt unat_of_nat)
  moreover have "{0..<19} = set [0..<19 :: nat]" by simp
  ultimately show "set supported_commands \<union> set declared_commands = {c. c < ACLPCI_CMD_MAX_CMD}"
    by (simp add: supported_commands_def declared_commands_def hw_consts upt_rec) auto
qed

subsection \<open>The search finds what the table says\<close>

lemma phys_loop_lookup:
  assumes "dev_wf d" "i \<le> 128"
  shows "phys_loop K d v dest result i h =
    (case find (\<lambda>e. vm_start e = v) (used_prefix (drop i (take 128 (addr_map_mem d)))) of
       None \<Rightarrow> Some (result, h)
     | Some e \<Rightarrow> (let (left, h) = copy_to_user K dest (bytes_u32 (dma_handle e)) h
                  in Some (sint left, h)))"
  using assms
proof (induction K d v dest result i h rule: phys_loop.induct)
  case (1 K d v dest result i h)
  have len: "length (addr_map_mem d) = 204" using "1.prems" by (simp add: dev_wfD hw_consts)
  show ?case
  proof (cases "i < 128")
    case True
    let ?e = "addr_map_mem d ! i"
    have s: "slot d i = Some ?e" using "1.prems"(1) True by (simp add: slot_wf hw_consts)
    have d: "drop i (take 128 (addr_map_mem d)) = ?e # drop (Suc i) (take 128 (addr_map_mem d))"
      using True len by (subst Cons_nth_drop_Suc [symmetric]) auto
    show ?thesis
      using "1.IH" [OF True s] "1.prems" True s
      by (subst phys_loop.simps) (auto simp: d used_prefix_def Let_def)
  next
    case False
    with "1.prems" show ?thesis by (subst phys_loop.simps) (simp add: used_prefix_def)
  qed
qed

lemma phys_loop_table:
  assumes "dev_wf d"
  shows "phys_loop K d v dest result 0 h =
    (case table_lookup (addr_map_mem d) v of
       None \<Rightarrow> Some (result, h)
     | Some e \<Rightarrow> (let left = ans_copy_to_user K h dest (bytes_u32 (dma_handle e))
                  in Some (sint left, Copy_to_user dest (bytes_u32 (dma_handle e)) left # h)))"
  using phys_loop_lookup [OF assms, of 0]
  by (simp add: table_lookup_def env_simps Let_def split: option.splits)

end
