(* ===== verification/Acl_Rw.thy ===== *)
theory Acl_Rw
  imports Acl_Transfer Acl_Cmd
begin

section \<open>read() and write() (aclsoc\_fileio.c)\<close>

text \<open>
  The dispatcher behind \<open>read()\<close> and \<open>write()\<close>: it takes the device's lock, fetches the
  command, runs a special command or routes a transfer to one of the two mapped regions, and
  gives the lock back on every path.
\<close>

definition USE_DMA :: bool where "USE_DMA = False"

text \<open>Which region a request goes to. The sum is unsigned and wraps; the first test is signed.\<close>

definition route_cmd :: "acl_cmd \<Rightarrow> u32 \<Rightarrow> acl_cmd" where
  "route_cmd kcmd sz =
     (if bar_id kcmd = 0 \<and>
         sint (device_addr kcmd) \<ge> sint ACL_PCIE_MEMWINDOW_BASE \<and>
         device_addr kcmd + sz \<le> ACL_PCIE_MEMWINDOW_BASE + ACL_PCIE_MEMWINDOW_SIZE
      then kcmd else kcmd\<lparr>bar_id := 2\<rparr>)"

definition use_dma_for :: "acl_cmd \<Rightarrow> u32 \<Rightarrow> bool" where
  "use_dma_for kcmd sz \<longleftrightarrow>
     USE_DMA \<and> sz \<ge> 1024 \<and> aligned_request kcmd sz \<and> bar_id kcmd = ACLPCI_DMA_BAR"

text \<open>
  The address of a request that does not use DMA: the address, the error, whether the segment
  has to be restored and its old value.
\<close>

definition rw_resolve ::
  "acl_cmd \<Rightarrow> u32 \<Rightarrow> aclsoc_dev \<Rightarrow> hist \<Rightarrow> ptr \<times> int \<times> bool \<times> u64 \<times> aclsoc_dev \<times> hist" where
  "rw_resolve kcmd sz d h =
     (if bar_id kcmd \<noteq> ACLPCI_DMA_BAR then
        let (addr, errno) = aclsoc_get_checked_addr (bar_id kcmd) (device_addr kcmd) sz d
        in (addr, errno, False, 0, d, h)
      else
        let old_segment = global_mem_segment d;
            (daddr, d, h) = aclsoc_set_segment (device_addr kcmd) d h;
            (addr, errno) = aclsoc_get_checked_addr ACL_PCIE_MEMWINDOW_BAR daddr sz d
        in (addr, errno, True, old_segment, d, h))"

definition rw_move ::
  "kernel \<Rightarrow> bool \<Rightarrow> bool \<Rightarrow> ptr \<Rightarrow> ptr \<Rightarrow> u32 \<Rightarrow> aclsoc_dev \<Rightarrow> hist \<Rightarrow> (int \<times> aclsoc_dev \<times> hist) option" where
  "rw_move K reading use_dma addr uaddr sz d h =
     (if sz = 1 \<or> sz = 2 \<or> sz = 4 then
        let (result, h) = (if reading then aclsoc_read_small K addr uaddr sz h
                           else aclsoc_write_small K addr uaddr sz h)
        in Some (result, d, h)
      else if use_dma then Some (0, d, h)
      else
        (case aclsoc_rw_large K addr uaddr sz (buffer_mem d) reading h of
           None \<Rightarrow> None
         | Some (result, buf, h) \<Rightarrow> Some (result, d\<lparr>buffer_mem := buf\<rparr>, h)))"

definition rw_request ::
  "kernel \<Rightarrow> bool \<Rightarrow> acl_cmd \<Rightarrow> aclsoc_dev \<Rightarrow> hist \<Rightarrow> (int \<times> aclsoc_dev \<times> hist) option" where
  "rw_request K reading kcmd d h =
     (let sz = cmd_size kcmd;
          kcmd = route_cmd kcmd sz;
          use_dma = use_dma_for kcmd sz;
          (addr, errno, restore_segment, old_segment, d, h) =
            (if \<not> use_dma then rw_resolve kcmd sz d h else (0, 0, False, 0, d, h))
      in if errno \<noteq> 0 then Some (- EFAULT, d, h)
         else
           (case rw_move K reading use_dma addr (user_addr kcmd) sz d h of
              None \<Rightarrow> None
            | Some (result, d, h) \<Rightarrow>
                (let (d, h) = (if restore_segment then aclsoc_set_segment_by_val (ucast old_segment) d h
                               else (d, h))
                 in Some (result, d, h))))"

definition aclsoc_rw ::
  "kernel \<Rightarrow> ptr \<Rightarrow> bool \<Rightarrow> aclsoc_dev \<Rightarrow> hist \<Rightarrow> (int \<times> aclsoc_dev \<times> hist) option" where
  "aclsoc_rw K buf reading d h =
     (let (r, h) = down_interruptible K h
      in if r \<noteq> 0 then Some (- ERESTARTSYS, d, h)
         else
           let (left, bytes, h) = copy_from_user K buf (uninit K sizeof_acl_cmd h) h
           in if left \<noteq> 0 then Some (- EFAULT, d, up h)
              else
                let kcmd = decode_cmd bytes
                in (case (if bar_id kcmd = ACLPCI_CMD_BAR
                          then aclsoc_exec_cmd K kcmd (cmd_size kcmd) d h
                          else rw_request K reading kcmd d h) of
                      None \<Rightarrow> None
                    | Some (result, d, h) \<Rightarrow> Some (result, d, up h)))"

definition aclsoc_read :: "kernel \<Rightarrow> ptr \<Rightarrow> aclsoc_dev \<Rightarrow> hist \<Rightarrow> (int \<times> aclsoc_dev \<times> hist) option" where
  "aclsoc_read K buf d h = aclsoc_rw K buf True d h"

definition aclsoc_write :: "kernel \<Rightarrow> ptr \<Rightarrow> aclsoc_dev \<Rightarrow> hist \<Rightarrow> (int \<times> aclsoc_dev \<times> hist) option" where
  "aclsoc_write K buf d h = aclsoc_rw K buf False d h"

subsection \<open>Code that is never reached\<close>

text \<open>After routing only two regions remain, so the DMA space and the segment are never used.\<close>

lemma route_bar: "bar_id (route_cmd kcmd sz) = 0 \<or> bar_id (route_cmd kcmd sz) = 2"
  by (simp add: route_cmd_def)

lemma route_fields [simp]:
  "device_addr (route_cmd kcmd sz) = device_addr kcmd"
  "user_addr (route_cmd kcmd sz) = user_addr kcmd"
  by (simp_all add: route_cmd_def)

lemma no_dma [simp]: "use_dma_for kcmd sz = False"
  by (simp add: use_dma_for_def USE_DMA_def)

lemma rw_resolve_routed:
  "rw_resolve (route_cmd kcmd sz) sz d h =
     (let (addr, errno) = aclsoc_get_checked_addr (bar_id (route_cmd kcmd sz)) (device_addr kcmd) sz d
      in (addr, errno, False, 0, d, h))"
  using route_bar [of kcmd sz] by (auto simp: rw_resolve_def hw_consts)

text \<open>So a request is a check of its address followed by a transfer.\<close>

definition request_addr :: "acl_cmd \<Rightarrow> aclsoc_dev \<Rightarrow> ptr \<times> int" where
  "request_addr kcmd d =
     aclsoc_get_checked_addr (bar_id (route_cmd kcmd (cmd_size kcmd))) (device_addr kcmd) (cmd_size kcmd) d"

lemma rw_request_eq:
  "rw_request K reading kcmd d h =
     (if snd (request_addr kcmd d) \<noteq> 0 then Some (- EFAULT, d, h)
      else rw_move K reading False (fst (request_addr kcmd d)) (user_addr kcmd) (cmd_size kcmd) d h)"
proof -
  obtain addr errno where c: "request_addr kcmd d = (addr, errno)" by force
  then have "rw_resolve (route_cmd kcmd (cmd_size kcmd)) (cmd_size kcmd) d h =
      (addr, errno, False, 0, d, h)"
    by (simp add: rw_resolve_routed request_addr_def)
  then show ?thesis
    by (cases "rw_move K reading False addr (user_addr kcmd) (cmd_size kcmd) d h")
      (auto simp: rw_request_def c Let_def)
qed

subsection \<open>Routing against its specification\<close>

text \<open>
  What the routing is for, over the integers: the window of global memory is reached through
  region 0 and the control registers through region 2; everything else is refused.
\<close>

datatype target = GlobalMem | Control | Refused

definition rw_target :: "acl_cmd \<Rightarrow> target" where
  "rw_target c =
     (let a = unat (device_addr c); n = unat (cmd_size c)
      in if bar_id c = 0 \<and> 0x10000 \<le> a \<and> a + n \<le> 0x20000 then GlobalMem
         else if a + n \<le> 0x40000 then Control else Refused)"

definition no_wrap :: "acl_cmd \<Rightarrow> bool" where
  "no_wrap c \<longleftrightarrow> unat (device_addr c) + unat (cmd_size c) < 2 ^ 32"

lemma unat_add32: "unat (a :: u32) + unat b < 2 ^ 32 \<Longrightarrow> unat (a + b) = unat a + unat b"
  by (simp add: unat_word_ariths)

lemma sint_small:
  fixes a :: u32
  assumes "unat a < 0x80000000"
  shows "sint a = int (unat a)"
proof -
  have "int (unat a) < 0x80000000" using assms by linarith
  then have lt: "uint a < 0x80000000" by simp
  have ge: "- 0x80000000 \<le> uint a" using uint_ge_0 [of a] by linarith
  have "signed_take_bit 31 (uint a) = uint a"
    using lt ge by (intro signed_take_bit_int_eq_self) simp_all
  then show ?thesis by (simp add: sint_uint)
qed

lemma window_test:
  assumes "no_wrap c"
  shows "sint (device_addr c) \<ge> sint ACL_PCIE_MEMWINDOW_BASE \<and>
      device_addr c + cmd_size c \<le> ACL_PCIE_MEMWINDOW_BASE + ACL_PCIE_MEMWINDOW_SIZE \<longleftrightarrow>
    0x10000 \<le> unat (device_addr c) \<and> unat (device_addr c) + unat (cmd_size c) \<le> 0x20000"
proof -
  have sum: "device_addr c + cmd_size c \<le> ACL_PCIE_MEMWINDOW_BASE + ACL_PCIE_MEMWINDOW_SIZE \<longleftrightarrow>
      unat (device_addr c) + unat (cmd_size c) \<le> 0x20000"
    using assms by (simp add: word_le_nat_alt unat_add32 no_wrap_def hw_consts)
  have "sint (device_addr c) \<ge> sint ACL_PCIE_MEMWINDOW_BASE \<longleftrightarrow> 0x10000 \<le> unat (device_addr c)"
    if "unat (device_addr c) \<le> 0x20000"
  proof -
    have "sint (device_addr c) = int (unat (device_addr c))" using that by (intro sint_small) linarith
    moreover have "sint ACL_PCIE_MEMWINDOW_BASE = 0x10000" by (simp add: hw_consts)
    ultimately show ?thesis by linarith
  qed
  with sum show ?thesis by auto
qed

lemma request_addr_target:
  assumes "no_wrap c" "dev_wf d"
  shows "request_addr c d =
    (case rw_target c of
       GlobalMem \<Rightarrow> (mapped_region d 0 + device_addr c, 0)
     | Control \<Rightarrow> (mapped_region d 2 + device_addr c, 0)
     | Refused \<Rightarrow> (0, - EFAULT))"
proof -
  have gt: "k < device_addr c + cmd_size c \<longleftrightarrow> unat k < unat (device_addr c) + unat (cmd_size c)" for k
    using assms(1) by (simp add: word_less_nat_alt unat_add32 no_wrap_def)
  have route: "bar_id (route_cmd c (cmd_size c)) =
      (if bar_id c = 0 \<and> 0x10000 \<le> unat (device_addr c) \<and>
          unat (device_addr c) + unat (cmd_size c) \<le> 0x20000 then 0 else 2)"
    using window_test [OF assms(1)] by (simp add: route_cmd_def)
  show ?thesis
    using dev_wfD(4,5) [OF assms(2)]
    by (auto simp: request_addr_def route aclsoc_get_checked_addr_def rw_target_def Let_def gt)
qed

end
