(* ===== verification/Acl_Rw_Correct.thy ===== *)
theory Acl_Rw_Correct
  imports Acl_Rw
begin

section \<open>What a request does to the device and to user memory\<close>

text \<open>
  The single-value transfers and the dispatcher against the specification of whole transfers
  of \<^theory_text>\<open>Acl_Transfer\<close>, and the register addresses a request can reach.
\<close>

subsection \<open>Single values\<close>

lemma copy_to_user_transfers:
  assumes "moved dev_reads [e] = place a bs" "mmio_read e" "length bs = n" "0 < n"
  shows "transfers_to_user a u n (if left \<noteq> 0 then - EFAULT else 0) [e, Copy_to_user u bs left]"
proof -
  have q: "dev_writes e = []" "user_writes e = []" "user_reads e = []" "plain_call e" "copied e"
    using mmio_read_moves [OF assms(2)] by auto
  show ?thesis
  proof (cases "left = 0")
    case True
    then show ?thesis
      using assms q unfolding transfers_to_user_def
      by (intro conjI exI [of _ bs] exI [of _ "[]"]) (auto simp: trace_simps plain_call_def hw_consts)
  next
    case False
    have "bs \<noteq> []" using assms by auto
    with False show ?thesis
      using assms q unfolding transfers_to_user_def
      by (intro conjI exI [of _ "[]"] exI [of _ bs]) (auto simp: trace_simps plain_call_def hw_consts)
  qed
qed

lemma read_small_transfers:
  assumes "sz = 1 \<or> sz = 2 \<or> sz = 4"
  shows "\<exists>r tr. aclsoc_read_small K a u sz h = (r, rev tr @ h) \<and> transfers_to_user a u (unat sz) r tr"
proof -
  have *: "\<exists>r tr. aclsoc_read_small K a u sz h = (r, rev tr @ h) \<and> transfers_to_user a u (unat sz) r tr"
    if "aclsoc_read_small K a u sz h =
        (if left \<noteq> 0 then - EFAULT else 0, Copy_to_user u bs left # e # h)"
      "moved dev_reads [e] = place a bs" "mmio_read e" "length bs = unat sz" "0 < unat sz" for e bs left
  proof -
    have "aclsoc_read_small K a u sz h =
        (if left \<noteq> 0 then - EFAULT else 0, rev [e, Copy_to_user u bs left] @ h)"
      using that(1) by simp
    with copy_to_user_transfers [OF that(2,3,4,5)] show ?thesis by blast
  qed
  from assms show ?thesis
  proof (elim disjE)
    assume "sz = 1"
    then show ?thesis
      by (intro *) (auto simp: aclsoc_read_small_def env_simps Let_def trace_simps)
  next
    assume "sz = 2"
    then show ?thesis
      by (intro *) (auto simp: aclsoc_read_small_def env_simps Let_def trace_simps)
  next
    assume "sz = 4"
    then show ?thesis
      by (intro *) (auto simp: aclsoc_read_small_def env_simps Let_def trace_simps)
  qed
qed

text \<open>
  A single value is written to the register whether or not it could be fetched from the user;
  two bytes are followed by a write of four.
\<close>

lemma write_small_trace:
  assumes "sz = 1 \<or> sz = 4"
  shows "\<exists>bs left e. aclsoc_write_small K a u sz h =
      (if left \<noteq> 0 then - EFAULT else 0, rev [Copy_from_user u bs left, e] @ h) \<and>
    length bs = unat sz \<and> mmio_write e \<and> dev_writes e = place a bs"
proof -
  obtain left bs h1 where c: "copy_from_user K u (uninit K (unat sz) h) h = (left, bs, h1)"
    by (metis prod_cases3)
  from copy_from_user_length [OF c] have l: "length bs = unat sz" and h1: "h1 = Copy_from_user u bs left # h"
    by auto
  from assms show ?thesis
  proof
    assume sz: "sz = 1"
    then obtain b where b: "bs = [b]" using l by (auto simp: length_Suc_conv)
    show ?thesis
      using c l h1 sz b
      by (intro exI [of _ bs] exI [of _ left] exI [of _ "Writeb b a"])
        (simp add: aclsoc_write_small_def write_case1_def env_simps)
  next
    assume sz: "sz = 4"
    show ?thesis
      using c l h1 sz
      by (intro exI [of _ bs] exI [of _ left] exI [of _ "Writel (u32_bytes bs) a"])
        (simp add: aclsoc_write_small_def write_case4_def env_simps bytes_u32_u32)
  qed
qed

lemma write_small_two:
  "\<exists>bs left bs' left'. aclsoc_write_small K a u 2 h =
      (if left' \<noteq> 0 then - EFAULT else 0,
       rev [Copy_from_user u bs left, Writew (u16_bytes bs) a,
            Copy_from_user u bs' left', Writel (u32_bytes bs') a] @ h) \<and>
    length bs = 2 \<and> length bs' = 4"
proof -
  obtain left bs h1 where c: "copy_from_user K u (uninit K 2 h) h = (left, bs, h1)"
    by (metis prod_cases3)
  from copy_from_user_length [OF c] have l: "length bs = 2" "h1 = Copy_from_user u bs left # h" by auto
  let ?h = "Writew (u16_bytes bs) a # h1"
  obtain left' bs' h2 where c': "copy_from_user K u (uninit K 4 ?h) ?h = (left', bs', h2)"
    by (metis prod_cases3)
  from copy_from_user_length [OF c'] have l': "length bs' = 4" "h2 = Copy_from_user u bs' left' # ?h" by auto
  show ?thesis
    using c c' l l'
    by (intro exI [of _ bs], intro exI [of _ left], intro exI [of _ bs'], intro exI [of _ left'])
      (simp add: aclsoc_write_small_def write_case2_def write_case4_def env_simps)
qed

lemma write_small_plain:
  assumes "sz = 1 \<or> sz = 2 \<or> sz = 4"
  shows "\<exists>r tr. aclsoc_write_small K a u sz h = (r, rev tr @ h) \<and> (\<forall>e \<in> set tr. plain_call e)"
proof (cases "sz = 2")
  case True
  obtain bs left bs' left' where "aclsoc_write_small K a u 2 h =
      (if left' \<noteq> 0 then - EFAULT else 0,
       rev [Copy_from_user u bs left, Writew (u16_bytes bs) a,
            Copy_from_user u bs' left', Writel (u32_bytes bs') a] @ h)"
    using write_small_two by blast
  moreover have "\<forall>e \<in> set [Copy_from_user u bs left, Writew (u16_bytes bs) a,
      Copy_from_user u bs' left', Writel (u32_bytes bs') a]. plain_call e"
    by (simp add: plain_call_def)
  ultimately show ?thesis unfolding True by blast
next
  case False
  then obtain bs left e where "aclsoc_write_small K a u sz h =
      (if left \<noteq> 0 then - EFAULT else 0, rev [Copy_from_user u bs left, e] @ h)" "mmio_write e"
    using assms write_small_trace by blast
  moreover from this mmio_write_moves [of e]
  have "\<forall>x \<in> set [Copy_from_user u bs left, e]. plain_call x" by (simp add: plain_call_def)
  ultimately show ?thesis by blast
qed

subsection \<open>The dispatcher's transfers\<close>

lemma buffer_mem_wf [simp]:
  "length buf = BUF_SIZE \<Longrightarrow> dev_wf d \<Longrightarrow> dev_wf (d\<lparr>buffer_mem := buf\<rparr>)"
  by (simp add: dev_wf_def)

lemma rw_move_read:
  assumes "dev_wf d"
  shows "\<exists>r buf tr. rw_move K True False a u sz d h = Some (r, d\<lparr>buffer_mem := buf\<rparr>, rev tr @ h) \<and>
    length buf = BUF_SIZE \<and> transfers_to_user a u (unat sz) r tr"
proof (cases "sz = 1 \<or> sz = 2 \<or> sz = 4")
  case True
  obtain r tr where s: "aclsoc_read_small K a u sz h = (r, rev tr @ h)"
    "transfers_to_user a u (unat sz) r tr"
    using read_small_transfers [OF True] by blast
  have "rw_move K True False a u sz d h = Some (r, d\<lparr>buffer_mem := buffer_mem d\<rparr>, rev tr @ h)"
    using True s(1) by (auto simp: rw_move_def)
  with s(2) dev_wfD(1) [OF assms] show ?thesis by blast
next
  case False
  obtain r buf tr where "aclsoc_rw_large K a u sz (buffer_mem d) True h = Some (r, buf, rev tr @ h)"
    "length buf = BUF_SIZE" "transfers True a u (unat sz) r tr"
    using rw_large_transfers [OF dev_wfD(1) [OF assms]] by blast
  with False show ?thesis by (intro exI conjI) (simp_all add: rw_move_def transfers_def)
qed

lemma rw_move_write_large:
  assumes "dev_wf d" "sz \<noteq> 1" "sz \<noteq> 2" "sz \<noteq> 4"
  shows "\<exists>r buf tr. rw_move K False False a u sz d h = Some (r, d\<lparr>buffer_mem := buf\<rparr>, rev tr @ h) \<and>
    length buf = BUF_SIZE \<and> transfers_to_device a u (unat sz) r tr"
proof -
  obtain r buf tr where "aclsoc_rw_large K a u sz (buffer_mem d) False h = Some (r, buf, rev tr @ h)"
    "length buf = BUF_SIZE" "transfers False a u (unat sz) r tr"
    using rw_large_transfers [OF dev_wfD(1) [OF assms(1)]] by blast
  with assms show ?thesis by (intro exI conjI) (simp_all add: rw_move_def transfers_def)
qed

lemma buffer_mem_keeps [simp]: "length buf = BUF_SIZE \<Longrightarrow> keeps d (d\<lparr>buffer_mem := buf\<rparr>)"
  by (simp add: keeps_def dev_wf_def)

lemma rw_move_total:
  assumes "dev_wf d"
  shows "\<exists>r d' tr. rw_move K reading False a u sz d h = Some (r, d', rev tr @ h) \<and> keeps d d' \<and>
    (\<forall>e \<in> set tr. plain_call e)"
proof (cases reading)
  case True
  with rw_move_read [OF assms, of K a u sz h] assms show ?thesis
    by (auto simp: transfers_to_user_def intro!: buffer_mem_keeps)
next
  case False
  show ?thesis
  proof (cases "sz = 1 \<or> sz = 2 \<or> sz = 4")
    case True
    obtain r tr where "aclsoc_write_small K a u sz h = (r, rev tr @ h)" "\<forall>e \<in> set tr. plain_call e"
      using write_small_plain [OF True] by blast
    then have "rw_move K reading False a u sz d h = Some (r, d, rev tr @ h)"
      using True False by (auto simp: rw_move_def)
    with assms \<open>\<forall>e \<in> set tr. plain_call e\<close> show ?thesis by blast
  next
    case small: False
    with rw_move_write_large [OF assms, of sz K a u h] assms False show ?thesis
      by (auto simp: transfers_to_device_def intro!: buffer_mem_keeps)
  qed
qed

lemma rw_request_total:
  assumes "dev_wf d"
  shows "\<exists>r d' tr. rw_request K reading c d h = Some (r, d', rev tr @ h) \<and> keeps d d' \<and>
    (\<forall>e \<in> set tr. plain_call e)"
proof (cases "snd (request_addr c d) = 0")
  case True
  with rw_move_total [OF assms] show ?thesis by (simp add: rw_request_eq)
next
  case False
  with assms show ?thesis by (intro exI [of _ "- EFAULT"] exI [of _ d] exI [of _ "[]"]) (simp add: rw_request_eq)
qed

subsection \<open>The registers a request reaches\<close>

definition in_region :: "ptr \<Rightarrow> nat \<Rightarrow> ptr \<Rightarrow> bool" where
  "in_region base len x \<longleftrightarrow> unat (x - base) < len"

lemma place_in_region:
  assumes "unat off + length bs \<le> len" "len < 2 ^ 32" "x \<in> set (map fst (place (base + off) bs))"
  shows "in_region base len x"
proof -
  obtain i where i: "i < length bs" "x = base + off + of_nat i"
    using assms(3) by (auto simp: map_fst_place)
  have "unat (of_nat i :: u32) = i" using i(1) assms(1,2) by (simp add: unat_of_nat)
  then have "unat (off + of_nat i) = unat off + i"
    using i(1) assms(1,2) by (subst unat_add32) auto
  moreover have "x - base = off + of_nat i" using i(2) by simp
  ultimately show ?thesis using i(1) assms(1) by (simp add: in_region_def)
qed

lemma place_prefix: "set (place a xs) \<subseteq> set (place a (xs @ ys))"
  by (simp add: place_append)

end
