(* ===== verification/Acl_Lock.thy ===== *)
theory Acl_Lock
  imports Acl_Rw_Correct
begin

section \<open>The lock discipline of the file operations\<close>

text \<open>
  \<open>open()\<close>, \<open>close()\<close>, \<open>read()\<close> and \<open>write()\<close> share a contract: on a well-formed device
  they return, leave the device well-formed, and either fail to take the lock and do nothing or
  do all their work between taking it and giving it back. The contract is a locale, interpreted
  on the four operations.
\<close>

definition locked_section :: "kevent list \<Rightarrow> bool" where
  "locked_section tr \<longleftrightarrow>
     (\<exists>q. q \<noteq> 0 \<and> tr = [Down q]) \<or>
     (\<exists>body. tr = Down 0 # body @ [Up] \<and> (\<forall>e \<in> set body. plain_call e))"

text \<open>The lock depth at which each call of a trace is made.\<close>

fun depths :: "int \<Rightarrow> kevent list \<Rightarrow> (kevent \<times> int) list" where
  "depths k [] = []"
| "depths k (e # tr) = (e, k) # depths (lock_depth [e] + k) tr"

lemma depths_plain:
  "\<forall>e \<in> set body. plain_call e \<Longrightarrow>
   depths k (body @ [Up]) = map (\<lambda>e. (e, k)) body @ [(Up, k)]"
  by (induction body) (auto simp: plain_call_def split: kevent.splits)

lemma lock_depth_append: "lock_depth (xs @ ys) = lock_depth xs + lock_depth ys"
  by (induction xs) auto

lemma lock_depth_free: "\<forall>e \<in> set xs. plain_call e \<Longrightarrow> lock_depth xs = 0"
  by (induction xs) (auto simp: plain_call_def split: kevent.splits)

lemma locked_section_depth: "locked_section tr \<Longrightarrow> lock_depth (rev tr @ h) = lock_depth h"
  by (auto simp: locked_section_def lock_depth_append lock_depth_free)

lemma locked_section_holds:
  assumes "locked_section tr" "(e, k) \<in> set (depths 0 tr)"
  shows "(\<exists>q. e = Down q) \<and> k = 0 \<or> (\<forall>q. e \<noteq> Down q) \<and> k = 1"
  using assms
proof (unfold locked_section_def, elim disjE exE conjE)
  fix body assume b: "tr = Down 0 # body @ [Up]" "\<forall>e \<in> set body. plain_call e"
  have "depths 0 tr = (Down 0, 0) # map (\<lambda>e. (e, 1)) body @ [(Up, 1)]"
    using b by (simp add: depths_plain)
  with assms(2) b(2) show ?thesis by (auto simp: plain_call_def)
qed auto

locale guarded_call =
  fixes call :: "kernel \<Rightarrow> aclsoc_dev \<Rightarrow> hist \<Rightarrow> (int \<times> aclsoc_dev \<times> hist) option"
  assumes contract: "dev_wf d \<Longrightarrow>
    \<exists>r d' tr. call K d h = Some (r, d', rev tr @ h) \<and> keeps d d' \<and> locked_section tr"
begin

lemma returns: "dev_wf d \<Longrightarrow> call K d h \<noteq> None"
  using contract [of d K h] by auto

lemma keeps_device: "dev_wf d \<Longrightarrow> call K d h = Some (r, d', h') \<Longrightarrow> keeps d d'"
  using contract [of d K h] by auto

lemma keeps_depth: "dev_wf d \<Longrightarrow> call K d h = Some (r, d', h') \<Longrightarrow> lock_depth h' = lock_depth h"
  using contract [of d K h] locked_section_depth by auto

lemma holds_lock:
  assumes "dev_wf d" "call K d h = Some (r, d', h')" "runs h tr h'" "(e, k) \<in> set (depths 0 tr)"
  shows "(\<exists>q. e = Down q) \<and> k = 0 \<or> (\<forall>q. e \<noteq> Down q) \<and> k = 1"
proof -
  obtain tr' where "h' = rev tr' @ h" "locked_section tr'" using contract [OF assms(1), of K h] assms(2) by auto
  with assms(3) have "locked_section tr" by (simp add: runs_def)
  then show ?thesis using assms(4) by (rule locked_section_holds)
qed

end

subsection \<open>Every command runs inside the section\<close>

lemma keeps_fields [simp]:
  "keeps d (d\<lparr>signal_info := s\<rparr>)"
  "keeps d (d\<lparr>num_handled_interrupts := n, num_undelivered_signals := m\<rparr>)"
  "keeps d (d\<lparr>user_pid := p, user_task := t, global_mem_segment := g,
    saved_kernel_irq_mask := k, global_mem_segment_addr := a, signal_info := s\<rparr>)"
  by (simp_all add: keeps_def dev_wf_def)

lemma plain_calls [simp]:
  "plain_call (Copy_to_user p bs l)" "plain_call (Copy_from_user p bs l)"
  "plain_call (Writel v a)" "plain_call (Request_irq n r)" "plain_call (Free_irq n)"
  by (simp_all add: plain_call_def)

definition free_run :: "aclsoc_dev \<Rightarrow> hist \<Rightarrow> (int \<times> aclsoc_dev \<times> hist) option \<Rightarrow> bool" where
  "free_run d h res \<longleftrightarrow>
     (\<exists>r d' tr. res = Some (r, d', rev tr @ h) \<and> keeps d d' \<and> (\<forall>e \<in> set tr. plain_call e))"

lemma free_runI:
  "keeps d d' \<Longrightarrow> \<forall>e \<in> set tr. plain_call e \<Longrightarrow> h' = rev tr @ h \<Longrightarrow> free_run d h (Some (r, d', h'))"
  by (auto simp: free_run_def)

lemma free_run_if: "free_run d h a \<Longrightarrow> free_run d h b \<Longrightarrow> free_run d h (if P then a else b)"
  by simp

lemma exec_cmd_phys_free:
  assumes "dev_wf d"
  shows "free_run d h (let (left, v, h) = copy_from_user K p (uninit K 4 h) h
         in case phys_loop K d (u32_bytes v) q (sint left) 0 h of
              None \<Rightarrow> None | Some (result, h) \<Rightarrow> Some (result, d, h))"
proof -
  obtain left v h1 where c: "copy_from_user K p (uninit K 4 h) h = (left, v, h1)" by (metis prod_cases3)
  from copy_from_user_length [OF c] have h1: "h1 = Copy_from_user p v left # h" by auto
  show ?thesis
  proof (cases "table_lookup (addr_map_mem d) (u32_bytes v)")
    case None
    then show ?thesis using c h1 assms
      by (simp add: phys_loop_table [OF assms]) (intro free_runI [of _ d "[Copy_from_user p v left]"], auto)
  next
    case (Some e)
    let ?left = "ans_copy_to_user K h1 q (bytes_u32 (dma_handle e))"
    show ?thesis using c h1 assms Some
      by (simp add: phys_loop_table [OF assms] Let_def)
        (intro free_runI [of _ d "[Copy_from_user p v left, Copy_to_user q (bytes_u32 (dma_handle e)) ?left]"], auto)
  qed
qed

lemma exec_cmd_free:
  assumes "dev_wf d"
  shows "free_run d h (aclsoc_exec_cmd K c n d h)"
proof -
  have to_user: "free_run d h (let (left, h) = copy_to_user K p bs h in Some (sint left, d, h))" for p bs
    using assms by (auto simp: env_simps Let_def intro!: free_runI [of _ _ "[Copy_to_user p bs (ans_copy_to_user K h p bs)]"])
  have payload: "free_run d h (let (left, v, h) = copy_from_user K p (uninit K 4 h) h;
            d = d\<lparr>signal_info := (signal_info d)\<lparr>si_int := u32_bytes v\<rparr>\<rparr>
        in Some (sint left, d, h))" for p
  proof -
    obtain left v h1 where c: "copy_from_user K p (uninit K 4 h) h = (left, v, h1)" by (metis prod_cases3)
    from copy_from_user_length [OF c] c assms show ?thesis
      by (auto simp: Let_def intro!: free_runI [of _ _ "[Copy_from_user p v left]"])
  qed
  have load: "free_run d h (case init_irq K (Some d) h of (_, None, h) \<Rightarrow> None | (_, Some d, h) \<Rightarrow> Some (0, d, h))"
  proof (cases "ans_request_irq K h PIO_IRQ = 0")
    case True
    then show ?thesis using assms
      by (auto simp: init_irq_eq Let_def
          intro!: free_runI [of _ _ "[Request_irq PIO_IRQ 0, Writel 1 (get_interrupt_enable_addr d)]"])
  next
    case False
    then show ?thesis using assms
      by (auto simp: init_irq_eq Let_def
          intro!: free_runI [of _ _ "[Request_irq PIO_IRQ (ans_request_irq K h PIO_IRQ)]"])
  qed
  have save: "free_run d h (Some (0, d, release_irq d h))"
    using assms release_irq_runs [of h d]
    by (intro free_runI [of _ d "[Writel 0 (get_interrupt_enable_addr d), Free_irq PIO_IRQ,
           Writel 0 (get_interrupt_enable_addr d)]"]) (auto simp: runs_def)
  have unmask: "free_run d h (Some (0, d, unmask_kernel_irq d h))"
    using assms unmask_runs(2) [of h d]
    by (intro free_runI [of _ d "[Writel 1 (get_interrupt_enable_addr d)]"]) (auto simp: runs_def)
  have none: "free_run d h (Some (r, d, h))" for r
    using assms by (intro free_runI [of _ d "[]"]) auto
  show ?thesis
    unfolding aclsoc_exec_cmd_def
    by (intro free_run_if to_user payload load save unmask none exec_cmd_phys_free [OF assms])
qed

subsection \<open>The four operations keep the contract\<close>

lemma locked_body: "\<forall>e \<in> set body. plain_call e \<Longrightarrow> locked_section (Down 0 # body @ [Up])"
  by (auto simp: locked_section_def)

lemma rw_contract:
  assumes "dev_wf d"
  shows "\<exists>r d' tr. aclsoc_rw K buf reading d h = Some (r, d', rev tr @ h) \<and> keeps d d' \<and> locked_section tr"
proof (cases "ans_down K h = 0")
  case False
  then have "aclsoc_rw K buf reading d h = Some (- ERESTARTSYS, d, rev [Down (ans_down K h)] @ h)"
    by (simp add: aclsoc_rw_def env_simps)
  moreover have "locked_section [Down (ans_down K h)]" using False by (simp add: locked_section_def)
  ultimately show ?thesis using assms by blast
next
  case True
  let ?h = "Down 0 # h"
  obtain left bs h1 where c: "copy_from_user K buf (uninit K sizeof_acl_cmd ?h) ?h = (left, bs, h1)"
    by (metis prod_cases3)
  from copy_from_user_length [OF c] have h1: "h1 = Copy_from_user buf bs left # Down 0 # h" by auto
  show ?thesis
  proof (cases "left = 0")
    case False
    then have "aclsoc_rw K buf reading d h =
        Some (- EFAULT, d, rev (Down 0 # [Copy_from_user buf bs left] @ [Up]) @ h)"
      using True c h1 by (simp add: aclsoc_rw_def down_interruptible_def up_def)
    moreover have "locked_section (Down 0 # [Copy_from_user buf bs left] @ [Up])"
      by (rule locked_body) simp
    ultimately show ?thesis using assms by blast
  next
    case left: True
    let ?c = "decode_cmd bs"
    let ?m = "if bar_id ?c = ACLPCI_CMD_BAR then aclsoc_exec_cmd K ?c (cmd_size ?c) d h1
              else rw_request K reading ?c d h1"
    have "free_run d h1 ?m"
      using exec_cmd_free [OF assms] rw_request_total [OF assms, of K reading ?c h1]
      by (auto simp: free_run_def)
    then obtain r d' tr where m: "?m = Some (r, d', rev tr @ h1)" "keeps d d'" "\<forall>e \<in> set tr. plain_call e"
      by (auto simp: free_run_def)
    let ?body = "Copy_from_user buf bs 0 # tr"
    have "aclsoc_rw K buf reading d h = Some (r, d', rev (Down 0 # ?body @ [Up]) @ h)"
      using True left c h1 m(1)
      by (cases "bar_id ?c = ACLPCI_CMD_BAR")
        (simp_all add: aclsoc_rw_def down_interruptible_def up_def Let_def)
    moreover have "locked_section (Down 0 # ?body @ [Up])"
      using m(3) by (intro locked_body) simp
    ultimately show ?thesis using m(2) by blast
  qed
qed

interpretation rd: guarded_call "\<lambda>K d h. aclsoc_read K buf d h" for buf
  by unfold_locales (simp add: aclsoc_read_def rw_contract)

interpretation wr: guarded_call "\<lambda>K d h. aclsoc_write K buf d h" for buf
  by unfold_locales (simp add: aclsoc_write_def rw_contract)

lemma open_contract:
  assumes "dev_wf d"
  shows "\<exists>r d' tr. Some (aclsoc_open K pid cur d h) = Some (r, d', rev tr @ h) \<and> keeps d d' \<and> locked_section tr"
proof (cases "ans_down K h = 0")
  case True
  have "locked_section (Down 0 # [] @ [Up])" by (rule locked_body) simp
  moreover have "\<exists>r d'. aclsoc_open K pid cur d h = (r, d', rev (Down 0 # [] @ [Up]) @ h) \<and> keeps d d'"
    using True by (simp add: aclsoc_open_def env_simps Let_def load_signal_info_def)
  ultimately show ?thesis by (metis option.inject)
next
  case False
  then have "aclsoc_open K pid cur d h = (- ERESTARTSYS, d, rev [Down (ans_down K h)] @ h)"
    by (simp add: aclsoc_open_def env_simps)
  moreover have "locked_section [Down (ans_down K h)]" using False by (simp add: locked_section_def)
  ultimately show ?thesis using assms by blast
qed

lemma close_contract:
  assumes "dev_wf d"
  shows "\<exists>r d' tr. Some (aclsoc_close K d h) = Some (r, d', rev tr @ h) \<and> keeps d d' \<and> locked_section tr"
proof (cases "ans_down K h = 0")
  case True
  have "locked_section (Down 0 # [] @ [Up])" by (rule locked_body) simp
  moreover have "aclsoc_close K d h = (0, d, rev (Down 0 # [] @ [Up]) @ h)"
    using True by (simp add: aclsoc_close_def env_simps)
  ultimately show ?thesis using keeps_refl by (metis option.inject)
next
  case False
  then have "aclsoc_close K d h = (- ERESTARTSYS, d, rev [Down (ans_down K h)] @ h)"
    by (simp add: aclsoc_close_def env_simps)
  moreover have "locked_section [Down (ans_down K h)]" using False by (simp add: locked_section_def)
  ultimately show ?thesis by blast
qed

interpretation opn: guarded_call "\<lambda>K d h. Some (aclsoc_open K pid cur d h)" for pid cur
  by unfold_locales (rule open_contract)

interpretation cls: guarded_call "\<lambda>K d h. Some (aclsoc_close K d h)"
  by unfold_locales (rule close_contract)

end
