(* ===== verification/Acl_Answers.thy ===== *)
theory Acl_Answers
  imports Acl_Lock
begin

section \<open>The recorded answers\<close>

text \<open>
  The values in the history of a request are the environment's answers: \<open>answered\<close> says so of a
  history, and every operation of the driver keeps it. With that the traces of the transfer
  theorems can be evaluated in a given environment, which \<^theory_text>\<open>Acl_Memory\<close> does.
\<close>

subsection \<open>Histories of answers\<close>

fun answers :: "kernel \<Rightarrow> kevent \<Rightarrow> hist \<Rightarrow> bool" where
  "answers K (Down r) h = (r = ans_down K h)"
| "answers K (Readb a v) h = (v = ans_readb K h a)"
| "answers K (Readw a v) h = (v = ans_readw K h a)"
| "answers K (Readl a v) h = (v = ans_readl K h a)"
| "answers K (Copy_to_user p bs l) h = (l = ans_copy_to_user K h p bs)"
| "answers K (Copy_from_user p bs l) h =
     (\<exists>old. length old = length bs \<and> l = snd (ans_copy_from_user K h p old) \<and>
        bs = map (fst (ans_copy_from_user K h p old)) [0..<length bs])"
| "answers K e h = True"

primrec answered :: "kernel \<Rightarrow> hist \<Rightarrow> bool" where
  "answered K [] = True"
| "answered K (e # h) = (answers K e h \<and> answered K h)"

lemma answered_copy_from_user:
  assumes "copy_from_user K p old h = (left, new, h')" "answered K h"
  shows "answered K h'"
  using assms by (auto simp: copy_from_user_def Let_def split: prod.splits intro!: exI [of _ old])

lemma answered_rw_words:
  "rw_words K r a n i buf h = Some (buf', h') \<Longrightarrow> answered K h \<Longrightarrow> answered K h'"
proof (induction K r a n i buf h rule: rw_words.induct)
  case (1 K r a n i buf h)
  from "1.prems" show ?case
    by (subst (asm) rw_words.simps)
      (auto simp: env_simps intro: "1.IH" split: if_split_asm option.splits)
qed

lemma answered_rw_bytes:
  "rw_bytes K r a off n i buf h = Some (buf', h') \<Longrightarrow> answered K h \<Longrightarrow> answered K h'"
proof (induction K r a off n i buf h rule: rw_bytes.induct)
  case (1 K r a off n i buf h)
  from "1.prems" show ?case
    by (subst (asm) rw_bytes.simps)
      (auto simp: env_simps intro: "1.IH" split: if_split_asm option.splits)
qed

lemma answered_rw_chunk:
  assumes "rw_chunk K reading a u n buf h = Some (r, buf', h')" "answered K h"
  shows "answered K h'"
proof (cases reading)
  case True
  with assms show ?thesis
    by (auto simp: rw_chunk_def Let_def bind_Some_iff env_simps split: if_split_asm prod.splits
        dest!: answered_rw_words answered_rw_bytes)
next
  case False
  with assms obtain old where old: "buf_get buf 0 (unat n) = Some old"
    by (auto simp: rw_chunk_def bind_Some_iff)
  obtain left new h1 where c: "copy_from_user K u old h = (left, new, h1)" by (metis prod_cases3)
  note a1 = answered_copy_from_user [OF c assms(2)]
  from assms(1) False old c a1 show ?thesis
    by (auto simp: rw_chunk_def Let_def bind_Some_iff hw_consts split: if_split_asm
        dest!: answered_rw_words answered_rw_bytes)
qed

lemma answered_rw_loop:
  "rw_loop K reading a u n buf h = Some (r, buf', h') \<Longrightarrow> answered K h \<Longrightarrow> answered K h'"
proof (induction K reading a u n buf h rule: rw_loop.induct)
  case (1 K reading a u n buf h)
  show ?case
  proof (cases "0 < n")
    case False
    with "1.prems" show ?thesis by (simp add: rw_loop.simps)
  next
    case True
    note run = "1.prems"(1) [unfolded rw_loop.simps [of K reading a u n buf h]]
    then obtain res b1 h1 where c: "rw_chunk K reading a u (chunk_size n) buf h = Some (res, b1, h1)"
      using True by (auto split: option.splits)
    have a1: "answered K h1" using answered_rw_chunk [OF c "1.prems"(2)] .
    show ?thesis
    proof (cases "res = 0")
      case False
      with run True c a1 show ?thesis by simp
    next
      case res: True
      with run True c have "rw_loop K reading (a + chunk_size n) (u + chunk_size n) (n - chunk_size n) b1 h1 =
          Some (r, buf', h')" by simp
      from "1.IH" [OF True c refl refl _ this a1] res show ?thesis by simp
    qed
  qed
qed

lemma answered_read_small:
  "aclsoc_read_small K a u sz h = (r, h') \<Longrightarrow> answered K h \<Longrightarrow> answered K h'"
  by (auto simp: aclsoc_read_small_def env_simps Let_def split: if_split_asm)

lemma answered_write_case4:
  assumes "write_case4 K a u h = (l, h')" "answered K h"
  shows "answered K h'"
proof -
  obtain left new h1 where c: "copy_from_user K u (uninit K 4 h) h = (left, new, h1)"
    by (metis prod_cases3)
  with assms answered_copy_from_user [OF c] show ?thesis by (auto simp: write_case4_def env_simps)
qed

lemma answered_write_case1:
  assumes "write_case1 K a u h = (l, h')" "answered K h"
  shows "answered K h'"
proof -
  obtain left new h1 where c: "copy_from_user K u (uninit K 1 h) h = (left, new, h1)"
    by (metis prod_cases3)
  with assms answered_copy_from_user [OF c] show ?thesis by (auto simp: write_case1_def env_simps)
qed

lemma answered_write_case2:
  assumes "write_case2 K a u h = (l, h')" "answered K h"
  shows "answered K h'"
proof -
  obtain left new h1 where c: "copy_from_user K u (uninit K 2 h) h = (left, new, h1)"
    by (metis prod_cases3)
  with assms answered_copy_from_user [OF c] answered_write_case4 show ?thesis
    by (auto simp: write_case2_def env_simps Let_def)
qed

lemma answered_write_small:
  "aclsoc_write_small K a u sz h = (r, h') \<Longrightarrow> answered K h \<Longrightarrow> answered K h'"
  by (auto simp: aclsoc_write_small_def Let_def split: if_split_asm prod.splits
      dest: answered_write_case1 answered_write_case2 answered_write_case4)

lemma answered_rw_move:
  assumes "rw_move K reading False a u sz d h = Some (r, d', h')" "answered K h"
  shows "answered K h'"
  using assms
  by (auto simp: rw_move_def aclsoc_rw_large_def split: if_split_asm prod.splits option.splits
      dest: answered_read_small answered_write_small answered_rw_loop)

end
