(* ===== verification/Acl_Memory.thy ===== *)
theory Acl_Memory
  imports Acl_Answers
begin

section \<open>Requests on memory that keeps what is stored\<close>

text \<open>
  The environment in which the board's memory and the memory of the calling process are plain
  memories and no call is interrupted or faults, as a named hypothesis \<open>backed\<close> on the kernel
  and as an executable kernel that satisfies it. In it a request is a copy between the two
  memories.
\<close>

subsection \<open>Memories\<close>

type_synonym mem = "ptr \<Rightarrow> u8"

definition load :: "mem \<Rightarrow> ptr \<Rightarrow> nat \<Rightarrow> u8 list" where
  "load m a n = map (\<lambda>i. m (a + of_nat i)) [0..<n]"

definition apply_writes :: "(ptr \<times> u8) list \<Rightarrow> mem \<Rightarrow> mem" where
  "apply_writes ws m = foldl (\<lambda>m (a, b). m(a := b)) m ws"

definition store :: "ptr \<Rightarrow> u8 list \<Rightarrow> mem \<Rightarrow> mem" where
  "store a bs m = apply_writes (place a bs) m"

text \<open>The memories after the calls of a history.\<close>

definition user_view :: "mem \<Rightarrow> hist \<Rightarrow> mem" where
  "user_view m h = apply_writes (moved user_writes (rev h)) m"

definition dev_view :: "mem \<Rightarrow> hist \<Rightarrow> mem" where
  "dev_view m h = apply_writes (moved dev_writes (rev h)) m"

lemma length_load [simp]: "length (load m a n) = n"
  by (simp add: load_def)

lemma apply_writes_append [simp]: "apply_writes (xs @ ys) m = apply_writes ys (apply_writes xs m)"
  by (simp add: apply_writes_def)

lemma apply_writes_Nil [simp]: "apply_writes [] m = m"
  by (simp add: apply_writes_def)

lemma view_append:
  "user_view m (rev tr @ h) = apply_writes (moved user_writes tr) (user_view m h)"
  "dev_view m (rev tr @ h) = apply_writes (moved dev_writes tr) (dev_view m h)"
  by (simp_all add: user_view_def dev_view_def moved_simps)

lemma view_Nil [simp]: "user_view m [] = m" "dev_view m [] = m"
  by (simp_all add: user_view_def dev_view_def moved_def)

lemma apply_writes_other: "x \<notin> fst ` set ws \<Longrightarrow> apply_writes ws m x = m x"
proof (induction ws arbitrary: m)
  case Nil
  then show ?case by simp
next
  case (Cons w ws)
  have "apply_writes (w # ws) m x = apply_writes ws (m(fst w := snd w)) x"
    by (simp add: apply_writes_def split_beta)
  also have "\<dots> = (m(fst w := snd w)) x" using Cons by simp
  finally show ?case using Cons.prems by simp
qed

lemma apply_writes_distinct:
  "distinct (map fst ws) \<Longrightarrow> (x, b) \<in> set ws \<Longrightarrow> apply_writes ws m x = b"
proof (induction ws arbitrary: m)
  case Nil
  then show ?case by simp
next
  case (Cons w ws)
  have eq: "apply_writes (w # ws) m = apply_writes ws (m(fst w := snd w))"
    by (simp add: apply_writes_def split_beta)
  show ?case
  proof (cases "(x, b) \<in> set ws")
    case True
    then show ?thesis using Cons by (simp add: eq)
  next
    case False
    then have w: "w = (x, b)" using Cons.prems(2) by simp
    then have "x \<notin> fst ` set ws" using Cons.prems(1) by simp
    then have "apply_writes ws (m(x := b)) x = b" using apply_writes_other by simp
    then show ?thesis using eq w by simp
  qed
qed

text \<open>Reading back what was stored.\<close>

lemma load_store:
  assumes "length bs \<le> 2 ^ 31"
  shows "load (store a bs m) a (length bs) = bs"
proof (rule nth_equalityI)
  fix i assume i: "i < length (load (store a bs m) a (length bs))"
  then have "(a + of_nat i, bs ! i) \<in> set (place a bs)"
    using place_nth [of i bs a] nth_mem [of i "place a bs"] by simp
  moreover have "distinct (map fst (place a bs))" using assms by (intro distinct_place) simp
  ultimately show "load (store a bs m) a (length bs) ! i = bs ! i"
    using i apply_writes_distinct by (simp add: load_def store_def)
qed simp

lemma store_other:
  assumes "\<forall>i < length bs. x \<noteq> a + of_nat i"
  shows "store a bs m x = m x"
proof -
  have "x \<notin> set (map fst (place a bs))" using assms unfolding map_fst_place by auto
  then show ?thesis unfolding store_def by (intro apply_writes_other) simp
qed

text \<open>Storing commutes with a shift of the addresses.\<close>

lemma store_shift: "(\<lambda>x. store (b + a) bs m (b + x)) = store a bs (\<lambda>x. m (b + x))"
proof (induction bs arbitrary: a m)
  case Nil
  then show ?case by (simp add: store_def)
next
  case (Cons v bs)
  have s: "store a (v # bs) m = store (a + 1) bs (m(a := v))" for a m
    by (simp add: store_def apply_writes_def)
  have e: "(\<lambda>x. (m(b + a := v)) (b + x)) = (\<lambda>x. m (b + x))(a := v)" by auto
  have "(\<lambda>x. store (b + (a + 1)) bs (m(b + a := v)) (b + x)) = store (a + 1) bs ((\<lambda>x. m (b + x))(a := v))"
    unfolding e [symmetric] by (rule Cons.IH)
  then show ?case unfolding s by (simp only: add.assoc)
qed

lemma load_shift: "load m (b + a) n = load (\<lambda>x. m (b + x)) a n"
  by (simp add: load_def add.assoc)

lemma place_load: "(x, b) \<in> set (place a (load m a n)) \<Longrightarrow> b = m x"
  by (auto simp: in_set_conv_nth place_nth load_def)

lemma place_eq_load: "\<forall>(x, b) \<in> set (place a bs). b = m x \<Longrightarrow> bs = load m a (length bs)"
proof (rule nth_equalityI)
  fix i assume m: "\<forall>(x, b) \<in> set (place a bs). b = m x" and i: "i < length bs"
  then have "(a + of_nat i, bs ! i) \<in> set (place a bs)"
    using place_nth [of i bs a] nth_mem [of i "place a bs"] by simp
  with m i show "bs ! i = load m a (length bs) ! i" by (auto simp: load_def)
qed simp

subsection \<open>The environment\<close>

definition backed :: "kernel \<Rightarrow> mem \<Rightarrow> mem \<Rightarrow> bool" where
  "backed K um dm \<longleftrightarrow>
     (\<forall>h p old bs.
        ans_down K h = 0 \<and> ans_copy_to_user K h p bs = 0 \<and>
        ans_copy_from_user K h p old = (\<lambda>i. user_view um h (p + of_nat i), 0) \<and>
        ans_readb K h p = dev_view dm h p \<and>
        ans_readw K h p = u16_bytes (load (dev_view dm h) p 2) \<and>
        ans_readl K h p = u32_bytes (load (dev_view dm h) p 4))"

definition ram_kernel :: "kernel \<Rightarrow> mem \<Rightarrow> mem \<Rightarrow> kernel" where
  "ram_kernel K um dm = K\<lparr>
     ans_down := (\<lambda>h. 0), ans_copy_to_user := (\<lambda>h p bs. 0),
     ans_copy_from_user := (\<lambda>h p old. (\<lambda>i. user_view um h (p + of_nat i), 0)),
     ans_readb := (\<lambda>h p. dev_view dm h p),
     ans_readw := (\<lambda>h p. u16_bytes (load (dev_view dm h) p 2)),
     ans_readl := (\<lambda>h p. u32_bytes (load (dev_view dm h) p 4))\<rparr>"

lemma backed_ram: "backed (ram_kernel K um dm) um dm"
  by (simp add: backed_def ram_kernel_def)

lemma backed_copied: "backed K um dm \<Longrightarrow> answers K e h \<Longrightarrow> copied e"
  by (cases e) (auto simp: backed_def copied_def)

lemma backed_dev_reads:
  assumes "backed K um dm" "answers K e h" "(x, b) \<in> set (dev_reads e)"
  shows "b = dev_view dm h x"
  using assms
  by (cases e) (auto simp: backed_def bytes_u16_u16 bytes_u32_u32 dest!: place_load)

lemma backed_user_reads:
  assumes "backed K um dm" "answers K e h" "(x, b) \<in> set (user_reads e)"
  shows "b = user_view um h x"
proof (cases e)
  case (Copy_from_user p bs l)
  with assms(1,2) have "bs = load (user_view um h) p (length bs)" by (auto simp: backed_def load_def)
  moreover have "(x, b) \<in> set (place p bs)" using Copy_from_user assms(3) by (simp split: if_split_asm)
  ultimately show ?thesis using place_load by metis
qed (use assms in auto)

text \<open>What a trace moves when it does not write to the memory it reads from.\<close>

lemma trace_backed:
  assumes "backed K um dm"
  shows "answered K (rev tr @ h) \<Longrightarrow>
    (\<forall>e \<in> set tr. copied e) \<and>
    (moved dev_writes tr = [] \<longrightarrow> (\<forall>(x, b) \<in> set (moved dev_reads tr). b = dev_view dm h x)) \<and>
    (moved user_writes tr = [] \<longrightarrow> (\<forall>(x, b) \<in> set (moved user_reads tr). b = user_view um h x))"
proof (induction tr rule: rev_induct)
  case Nil
  then show ?case by (simp add: moved_def)
next
  case (snoc e tr)
  then have a: "answers K e (rev tr @ h)" by simp
  have d: "b = dev_view dm h x" if "(x, b) \<in> set (dev_reads e)" "moved dev_writes tr = []" for x b
    using backed_dev_reads [OF assms a that(1)] that(2) by (simp add: view_append)
  have u: "b = user_view um h x" if "(x, b) \<in> set (user_reads e)" "moved user_writes tr = []" for x b
    using backed_user_reads [OF assms a that(1)] that(2) by (simp add: view_append)
  show ?case
    using snoc backed_copied [OF assms a] by (auto simp: trace_simps dest: d u)
qed

subsection \<open>A request is a copy\<close>

lemma to_user_backed:
  assumes "backed K um dm" "answered K (rev tr @ h)" "transfers_to_user a u n r tr"
  shows "r = 0" "user_view um (rev tr @ h) = store u (load (dev_view dm h) a n) (user_view um h)"
    "dev_view dm (rev tr @ h) = dev_view dm h"
proof -
  from assms(3) obtain bs rest where m: "moved dev_reads tr = place a (bs @ rest)"
    "moved user_writes tr = place u bs"
    and alt: "r = 0 \<and> rest = [] \<and> length bs = n \<or> r = - EFAULT \<and> rest \<noteq> []"
    and z: "moved dev_writes tr = []" "r = 0 \<longleftrightarrow> (\<forall>e \<in> set tr. copied e)"
    unfolding transfers_to_user_def by blast
  note t = trace_backed [OF assms(1,2)]
  show r: "r = 0" using t z(2) by blast
  have bs: "rest = []" "length bs = n" using alt r by (auto simp: hw_consts)
  have "\<forall>(x, b) \<in> set (place a bs). b = dev_view dm h x" using t z(1) m(1) bs(1) by simp
  from place_eq_load [OF this] have "bs = load (dev_view dm h) a n" using bs(2) by simp
  then show "user_view um (rev tr @ h) = store u (load (dev_view dm h) a n) (user_view um h)"
    using m(2) by (simp add: view_append store_def)
  show "dev_view dm (rev tr @ h) = dev_view dm h" using z(1) by (simp add: view_append)
qed

lemma to_device_backed:
  assumes "backed K um dm" "answered K (rev tr @ h)" "transfers_to_device a u n r tr"
  shows "r = 0" "dev_view dm (rev tr @ h) = store a (load (user_view um h) u n) (dev_view dm h)"
    "user_view um (rev tr @ h) = user_view um h"
proof -
  from assms(3) obtain bs where m: "moved user_reads tr = place u bs" "moved dev_writes tr = place a bs"
    and alt: "r = 0 \<and> length bs = n \<or> r = - EFAULT"
    and z: "moved user_writes tr = []" "r = 0 \<longleftrightarrow> (\<forall>e \<in> set tr. copied e)"
    unfolding transfers_to_device_def by blast
  note t = trace_backed [OF assms(1,2)]
  show r: "r = 0" using t z(2) by blast
  have bs: "length bs = n" using alt r by (auto simp: hw_consts)
  have "\<forall>(x, b) \<in> set (place u bs). b = user_view um h x" using t z(1) m(1) by simp
  from place_eq_load [OF this] have "bs = load (user_view um h) u n" using bs by simp
  then show "dev_view dm (rev tr @ h) = store a (load (user_view um h) u n) (dev_view dm h)"
    using m(2) by (simp add: view_append store_def)
  show "user_view um (rev tr @ h) = user_view um h" using z(1) by (simp add: view_append)
qed

lemma move_read_backed:
  assumes "dev_wf d" "backed K um dm" "answered K h"
  shows "\<exists>d' h'. rw_move K True False a u sz d h = Some (0, d', h') \<and> keeps d d' \<and> answered K h' \<and>
    user_view um h' = store u (load (dev_view dm h) a (unat sz)) (user_view um h) \<and>
    dev_view dm h' = dev_view dm h"
proof -
  obtain r buf tr where m: "rw_move K True False a u sz d h = Some (r, d\<lparr>buffer_mem := buf\<rparr>, rev tr @ h)"
    "length buf = BUF_SIZE" "transfers_to_user a u (unat sz) r tr"
    using rw_move_read [OF assms(1)] by blast
  have a: "answered K (rev tr @ h)" using answered_rw_move [OF m(1) assms(3)] .
  note b = to_user_backed [OF assms(2) a m(3)]
  show ?thesis using m(1) a b buffer_mem_keeps [OF m(2), of d] by simp
qed

text \<open>A write of two bytes ends with a write of four.\<close>

definition stored_bytes :: "u32 \<Rightarrow> nat" where
  "stored_bytes sz = (if sz = 2 then 4 else unat sz)"

lemma store_twice:
  assumes "length bs \<le> length bs'" "length bs' \<le> 2 ^ 31"
  shows "store a bs' (store a bs m) = store a bs' m"
proof
  fix x
  show "store a bs' (store a bs m) x = store a bs' m x"
  proof (cases "\<exists>i < length bs'. x = a + of_nat i")
    case True
    then obtain i where i: "i < length bs'" "x = a + of_nat i" by blast
    have "store a bs' m' x = bs' ! i" for m'
      using arg_cong [OF load_store [OF assms(2), of a m'], of "\<lambda>xs. xs ! i"] i by (simp add: load_def)
    then show ?thesis by simp
  next
    case False
    then have "store a bs' m' x = m' x" for m' by (intro store_other) auto
    moreover have "store a bs m x = m x" using False assms(1) by (intro store_other) auto
    ultimately show ?thesis by simp
  qed
qed

lemma move_write_two_backed:
  assumes "backed K um dm" "answered K h"
  shows "\<exists>h'. rw_move K False False a u 2 d h = Some (0, d, h') \<and> answered K h' \<and>
    dev_view dm h' = store a (load (user_view um h) u 4) (dev_view dm h) \<and>
    user_view um h' = user_view um h"
proof -
  obtain bs left bs' left' where w: "aclsoc_write_small K a u 2 h =
      (if left' \<noteq> 0 then - EFAULT else 0,
       rev [Copy_from_user u bs left, Writew (u16_bytes bs) a,
            Copy_from_user u bs' left', Writel (u32_bytes bs') a] @ h)" "length bs = 2" "length bs' = 4"
    using write_small_two by blast
  let ?tr = "[Copy_from_user u bs left, Writew (u16_bytes bs) a, Copy_from_user u bs' left', Writel (u32_bytes bs') a]"
  have a: "answered K (rev ?tr @ h)" using answered_write_small [OF w(1) assms(2)] .
  have l: "left = 0" "left' = 0" using trace_backed [OF assms(1) a] by auto
  have "\<forall>(x, b) \<in> set (place u bs'). b = user_view um h x"
    using trace_backed [OF assms(1) a] l w by (auto simp: moved_def)
  from place_eq_load [OF this] have bs': "bs' = load (user_view um h) u 4" using w(3) by simp
  have "dev_view dm (rev ?tr @ h) = store a bs' (store a bs (dev_view dm h))"
    using w(2,3) l by (simp only: view_append) (simp add: moved_def store_def bytes_u16_u16 bytes_u32_u32)
  then have "dev_view dm (rev ?tr @ h) = store a bs' (dev_view dm h)"
    using store_twice [of bs bs' a "dev_view dm h"] w(2,3) by simp
  moreover have "user_view um (rev ?tr @ h) = user_view um h"
    by (simp only: view_append) (simp add: moved_def)
  moreover have "rw_move K False False a u 2 d h = Some (0, d, rev ?tr @ h)"
    using w(1) l by (simp add: rw_move_def)
  ultimately show ?thesis using a bs' by blast
qed

lemma move_write_one_backed:
  assumes "backed K um dm" "answered K h" "sz = 1 \<or> sz = 4"
  shows "\<exists>h'. rw_move K False False a u sz d h = Some (0, d, h') \<and> answered K h' \<and>
    dev_view dm h' = store a (load (user_view um h) u (unat sz)) (dev_view dm h) \<and>
    user_view um h' = user_view um h"
proof -
  obtain bs left e where w: "aclsoc_write_small K a u sz h =
      (if left \<noteq> 0 then - EFAULT else 0, rev [Copy_from_user u bs left, e] @ h)"
    "length bs = unat sz" "mmio_write e" "dev_writes e = place a bs"
    using write_small_trace [OF assms(3)] by blast
  let ?tr = "[Copy_from_user u bs left, e]"
  note q = mmio_write_moves [OF w(3)]
  have a: "answered K (rev ?tr @ h)" using answered_write_small [OF w(1) assms(2)] .
  have l: "left = 0" using trace_backed [OF assms(1) a] by auto
  have "\<forall>(x, b) \<in> set (place u bs). b = user_view um h x"
    using trace_backed [OF assms(1) a] l q by (auto simp: moved_def)
  from place_eq_load [OF this] have bs: "bs = load (user_view um h) u (unat sz)" using w(2) by simp
  have "dev_view dm (rev ?tr @ h) = store a bs (dev_view dm h)"
    "user_view um (rev ?tr @ h) = user_view um h"
    using w(4) q by (simp_all only: view_append) (simp_all add: moved_def store_def)
  moreover have "rw_move K False False a u sz d h = Some (0, d, rev ?tr @ h)"
    using w(1) l assms(3) by (auto simp: rw_move_def)
  ultimately show ?thesis using a bs by blast
qed

lemma move_write_backed:
  assumes "dev_wf d" "backed K um dm" "answered K h"
  shows "\<exists>d' h'. rw_move K False False a u sz d h = Some (0, d', h') \<and> keeps d d' \<and> answered K h' \<and>
    dev_view dm h' = store a (load (user_view um h) u (stored_bytes sz)) (dev_view dm h) \<and>
    user_view um h' = user_view um h"
proof -
  consider "sz = 2" | "sz = 1 \<or> sz = 4" "sz \<noteq> 2" | "sz \<noteq> 1" "sz \<noteq> 2" "sz \<noteq> 4" by fastforce
  then show ?thesis
  proof cases
    case 1
    then show ?thesis using move_write_two_backed [OF assms(2,3), of a u d] by (auto simp: stored_bytes_def)
  next
    case 2
    then show ?thesis using move_write_one_backed [OF assms(2,3) 2(1), of a u d] by (auto simp: stored_bytes_def)
  next
    case 3
    obtain r buf tr where m: "rw_move K False False a u sz d h = Some (r, d\<lparr>buffer_mem := buf\<rparr>, rev tr @ h)"
      "length buf = BUF_SIZE" "transfers_to_device a u (unat sz) r tr"
      using rw_move_write_large [OF assms(1) 3] by blast
    have a: "answered K (rev tr @ h)" using answered_rw_move [OF m(1) assms(3)] .
    note b = to_device_backed [OF assms(2) a m(3)]
    show ?thesis using m(1) a b 3(2) buffer_mem_keeps [OF m(2), of d] by (simp add: stored_bytes_def)
  qed
qed

subsection \<open>The system calls\<close>

lemma view_Cons:
  "user_view m (e # h) = apply_writes (user_writes e) (user_view m h)"
  "dev_view m (e # h) = apply_writes (dev_writes e) (dev_view m h)"
  by (simp_all add: user_view_def dev_view_def moved_def)

text \<open>A call with a request in memory takes the lock, fetches it and runs the request.\<close>

lemma aclsoc_rw_backed:
  assumes "backed K um dm" "answered K h" "load (user_view um h) buf sizeof_acl_cmd = encode_cmd c"
    "bar_id c \<noteq> ACLPCI_CMD_BAR" "snd (request_addr c d) = 0"
  shows "\<exists>h1. answered K h1 \<and> user_view um h1 = user_view um h \<and> dev_view dm h1 = dev_view dm h \<and>
    aclsoc_rw K buf reading d h =
      (case rw_move K reading False (fst (request_addr c d)) (user_addr c) (cmd_size c) d h1 of
         None \<Rightarrow> None | Some (r, d, h) \<Rightarrow> Some (r, d, Up # h))"
proof -
  let ?h = "Down 0 # h"
  obtain left bs h1 where f: "copy_from_user K buf (uninit K sizeof_acl_cmd ?h) ?h = (left, bs, h1)"
    by (metis prod_cases3)
  have down: "ans_down K h = 0" using assms(1) by (simp add: backed_def)
  from f assms(1) have "left = 0" "bs = load (user_view um ?h) buf sizeof_acl_cmd"
    "h1 = Copy_from_user buf bs left # ?h"
    by (auto simp: copy_from_user_def backed_def load_def Let_def)
  then have b: "left = 0" "bs = encode_cmd c" "h1 = Copy_from_user buf bs 0 # ?h"
    using assms(3) by (simp_all add: view_Cons)
  have "answered K ?h" using assms(2) down by simp
  from answered_copy_from_user [OF f this] have a: "answered K h1" .
  have "decode_cmd bs = c" using b(2) by (simp add: decode_encode_cmd)
  then have "aclsoc_rw K buf reading d h =
      (case rw_move K reading False (fst (request_addr c d)) (user_addr c) (cmd_size c) d h1 of
         None \<Rightarrow> None | Some (r, d, h) \<Rightarrow> Some (r, d, Up # h))"
    using f b(1) down assms(4,5)
    by (simp add: aclsoc_rw_def down_interruptible_def up_def rw_request_eq Let_def split: option.split)
  then show ?thesis using a b(3) by (intro exI [of _ h1]) (simp add: view_Cons)
qed

lemma aclsoc_read_backed:
  assumes "dev_wf d" "backed K um dm" "answered K h"
    "load (user_view um h) buf sizeof_acl_cmd = encode_cmd c"
    "bar_id c \<noteq> ACLPCI_CMD_BAR" "request_addr c d = (a, 0)"
  shows "\<exists>d' h'. aclsoc_read K buf d h = Some (0, d', h') \<and> keeps d d' \<and>
    user_view um h' = store (user_addr c) (load (dev_view dm h) a (unat (cmd_size c))) (user_view um h) \<and>
    dev_view dm h' = dev_view dm h"
proof -
  obtain h1 where h1: "answered K h1" "user_view um h1 = user_view um h" "dev_view dm h1 = dev_view dm h"
    "aclsoc_rw K buf True d h =
      (case rw_move K True False a (user_addr c) (cmd_size c) d h1 of
         None \<Rightarrow> None | Some (r, d, h) \<Rightarrow> Some (r, d, Up # h))"
    using aclsoc_rw_backed [OF assms(2-5), of d True] assms(6) by auto
  obtain d' h2 where m: "rw_move K True False a (user_addr c) (cmd_size c) d h1 = Some (0, d', h2)"
    "keeps d d'" "user_view um h2 = store (user_addr c) (load (dev_view dm h) a (unat (cmd_size c))) (user_view um h)"
    "dev_view dm h2 = dev_view dm h"
    using move_read_backed [OF assms(1,2) h1(1), of a "user_addr c" "cmd_size c"] h1(2,3) by auto
  then show ?thesis using h1(4) by (simp add: aclsoc_read_def view_Cons)
qed

lemma write_call_backed:
  assumes "dev_wf d" "backed K um dm" "answered K h"
    "load (user_view um h) buf sizeof_acl_cmd = encode_cmd c"
    "bar_id c \<noteq> ACLPCI_CMD_BAR" "request_addr c d = (a, 0)"
  shows "\<exists>d' h'. aclsoc_write K buf d h = Some (0, d', h') \<and> keeps d d' \<and> answered K h' \<and>
    dev_view dm h' = store a (load (user_view um h) (user_addr c) (stored_bytes (cmd_size c))) (dev_view dm h) \<and>
    user_view um h' = user_view um h"
proof -
  obtain h1 where h1: "answered K h1" "user_view um h1 = user_view um h" "dev_view dm h1 = dev_view dm h"
    "aclsoc_rw K buf False d h =
      (case rw_move K False False a (user_addr c) (cmd_size c) d h1 of
         None \<Rightarrow> None | Some (r, d, h) \<Rightarrow> Some (r, d, Up # h))"
    using aclsoc_rw_backed [OF assms(2-5), of d False] assms(6) by auto
  obtain d' h2 where m: "rw_move K False False a (user_addr c) (cmd_size c) d h1 = Some (0, d', h2)"
    "keeps d d'" "answered K h2"
    "dev_view dm h2 = store a (load (user_view um h) (user_addr c) (stored_bytes (cmd_size c))) (dev_view dm h)"
    "user_view um h2 = user_view um h"
    using move_write_backed [OF assms(1,2) h1(1), of a "user_addr c" "cmd_size c"] h1(2,3) by auto
  then show ?thesis using h1(4) by (simp add: aclsoc_write_def view_Cons)
qed

lemma aclsoc_write_backed:
  assumes "dev_wf d" "backed K um dm" "answered K h"
    "load (user_view um h) buf sizeof_acl_cmd = encode_cmd c"
    "bar_id c \<noteq> ACLPCI_CMD_BAR" "request_addr c d = (a, 0)"
  shows "\<exists>d' h'. aclsoc_write K buf d h = Some (0, d', h') \<and> keeps d d' \<and>
    dev_view dm h' = store a (load (user_view um h) (user_addr c) (stored_bytes (cmd_size c))) (dev_view dm h) \<and>
    user_view um h' = user_view um h"
  using write_call_backed [OF assms] by blast

end
