(* ===== verification/User_Test.thy ===== *)
theory User_Test
  imports Acl_Memory
begin

section \<open>The board tester (user.c)\<close>

text \<open>
  The process-side accessors of \<open>user.c\<close> and its tests of the global memory. The process sees
  the driver through two system calls and its own memory: the record \<open>io\<close>, whose laws are the
  locale \<open>memory_board\<close>. The tests are proved to pass once, inside the locale, and the locale
  is interpreted on the driver in \<^theory_text>\<open>User_Machine\<close>.

  Local variables live at addresses of the process's memory, given by a record \<open>frame\<close>; that
  different objects do not overlap is a hypothesis. A call is \<^const>\<open>None\<close> when the process
  does not survive it: a failed assertion, or a fault in the kernel. The text the tests print is
  not modelled, except for the mismatches.
\<close>

record 'w io =
  sys_read :: "int \<Rightarrow> ptr \<Rightarrow> u32 \<Rightarrow> 'w \<Rightarrow> (int \<times> 'w) option"
  sys_write :: "int \<Rightarrow> ptr \<Rightarrow> u32 \<Rightarrow> 'w \<Rightarrow> (int \<times> 'w) option"
  peek :: "'w \<Rightarrow> mem"
  poke :: "ptr \<Rightarrow> u8 list \<Rightarrow> 'w \<Rightarrow> 'w"

record frame =
  cmd_at :: ptr
  val_at :: ptr
  ua_at :: ptr
  ub_at :: ptr

definition mk_cmd :: "u32 \<Rightarrow> ptr \<Rightarrow> ptr \<Rightarrow> u32 \<Rightarrow> acl_cmd" where
  "mk_cmd bar dev_addr usr n =
     \<lparr>bar_id = bar, command = ACLPCI_CMD_DEFAULT, device_addr = dev_addr, user_addr = usr,
      cmd_size = n, is_diff_endian = 0\<rparr>"

subsection \<open>Accessors\<close>

definition read_mem ::
  "'w io \<Rightarrow> frame \<Rightarrow> int \<Rightarrow> u32 \<Rightarrow> ptr \<Rightarrow> ptr \<Rightarrow> u32 \<Rightarrow> 'w \<Rightarrow> (int \<times> 'w) option" where
  "read_mem io fr dev_id bar dev_addr dst_addr cnt w =
     sys_read io dev_id (cmd_at fr) (of_nat sizeof_acl_cmd)
       (poke io (cmd_at fr) (encode_cmd (mk_cmd bar dev_addr dst_addr cnt)) w)"

definition write_mem ::
  "'w io \<Rightarrow> frame \<Rightarrow> int \<Rightarrow> u32 \<Rightarrow> ptr \<Rightarrow> ptr \<Rightarrow> u32 \<Rightarrow> 'w \<Rightarrow> (int \<times> 'w) option" where
  "write_mem io fr dev_id bar dev_addr src_addr cnt w =
     sys_write io dev_id (cmd_at fr) (of_nat sizeof_acl_cmd)
       (poke io (cmd_at fr) (encode_cmd (mk_cmd bar dev_addr src_addr cnt)) w)"

definition read_uchar :: "'w io \<Rightarrow> frame \<Rightarrow> int \<Rightarrow> u32 \<Rightarrow> ptr \<Rightarrow> 'w \<Rightarrow> (u8 \<times> 'w) option" where
  "read_uchar io fr dev_id bar dev_addr w = do {
     (r, w) \<leftarrow> sys_read io dev_id (cmd_at fr) (of_nat sizeof_acl_cmd)
       (poke io (cmd_at fr) (encode_cmd (mk_cmd bar dev_addr (val_at fr) 1)) w);
     Some (peek io w (val_at fr), w)
   }"

definition read_ushort :: "'w io \<Rightarrow> frame \<Rightarrow> int \<Rightarrow> u32 \<Rightarrow> ptr \<Rightarrow> 'w \<Rightarrow> (u16 \<times> 'w) option" where
  "read_ushort io fr dev_id bar dev_addr w = do {
     (r, w) \<leftarrow> sys_read io dev_id (cmd_at fr) (of_nat sizeof_acl_cmd)
       (poke io (cmd_at fr) (encode_cmd (mk_cmd bar dev_addr (val_at fr) 2)) w);
     Some (u16_bytes (load (peek io w) (val_at fr) 2), w)
   }"

definition read_uint :: "'w io \<Rightarrow> frame \<Rightarrow> int \<Rightarrow> u32 \<Rightarrow> ptr \<Rightarrow> 'w \<Rightarrow> (u32 \<times> 'w) option" where
  "read_uint io fr dev_id bar dev_addr w = do {
     (r, w) \<leftarrow> sys_read io dev_id (cmd_at fr) (of_nat sizeof_acl_cmd)
       (poke io (cmd_at fr) (encode_cmd (mk_cmd bar dev_addr (val_at fr) 4)) w);
     Some (u32_bytes (load (peek io w) (val_at fr) 4), w)
   }"

text \<open>\<open>unsigned long\<close> is 32 bits wide on this target.\<close>

definition read_ulong :: "'w io \<Rightarrow> frame \<Rightarrow> int \<Rightarrow> u32 \<Rightarrow> ptr \<Rightarrow> 'w \<Rightarrow> (u32 \<times> 'w) option" where
  "read_ulong io fr dev_id bar dev_addr w = do {
     (r, w) \<leftarrow> sys_read io dev_id (cmd_at fr) (of_nat sizeof_acl_cmd)
       (poke io (cmd_at fr) (encode_cmd (mk_cmd bar dev_addr (val_at fr) 4)) w);
     Some (u32_bytes (load (peek io w) (val_at fr) 4), w)
   }"

text \<open>A value to write is a parameter: it is in memory before the command is built.\<close>

definition write_val ::
  "'w io \<Rightarrow> frame \<Rightarrow> int \<Rightarrow> u32 \<Rightarrow> ptr \<Rightarrow> u8 list \<Rightarrow> 'w \<Rightarrow> 'w option" where
  "write_val io fr dev_id bar dev_addr bs w = do {
     let w = poke io (val_at fr) bs w;
     (r, w) \<leftarrow> sys_write io dev_id (cmd_at fr) (of_nat sizeof_acl_cmd)
       (poke io (cmd_at fr) (encode_cmd (mk_cmd bar dev_addr (val_at fr) (of_nat (length bs)))) w);
     Some w
   }"

definition write_uchar :: "'w io \<Rightarrow> frame \<Rightarrow> int \<Rightarrow> u32 \<Rightarrow> ptr \<Rightarrow> u8 \<Rightarrow> 'w \<Rightarrow> 'w option" where
  "write_uchar io fr dev_id bar dev_addr v w = write_val io fr dev_id bar dev_addr [v] w"

definition write_ushort :: "'w io \<Rightarrow> frame \<Rightarrow> int \<Rightarrow> u32 \<Rightarrow> ptr \<Rightarrow> u16 \<Rightarrow> 'w \<Rightarrow> 'w option" where
  "write_ushort io fr dev_id bar dev_addr v w = write_val io fr dev_id bar dev_addr (bytes_u16 v) w"

definition write_uint :: "'w io \<Rightarrow> frame \<Rightarrow> int \<Rightarrow> u32 \<Rightarrow> ptr \<Rightarrow> u32 \<Rightarrow> 'w \<Rightarrow> 'w option" where
  "write_uint io fr dev_id bar dev_addr v w = write_val io fr dev_id bar dev_addr (bytes_u32 v) w"

definition write_ulong :: "'w io \<Rightarrow> frame \<Rightarrow> int \<Rightarrow> u32 \<Rightarrow> ptr \<Rightarrow> u32 \<Rightarrow> 'w \<Rightarrow> 'w option" where
  "write_ulong io fr dev_id bar dev_addr v w = write_val io fr dev_id bar dev_addr (bytes_u32 v) w"

subsection \<open>The tests\<close>

text \<open>The loop that fills the two arrays, and the comparison: the indices that differ.\<close>

primrec fill_arrays :: "'w io \<Rightarrow> frame \<Rightarrow> (nat \<Rightarrow> u32) \<Rightarrow> nat \<Rightarrow> 'w \<Rightarrow> 'w" where
  "fill_arrays io fr f 0 w = w"
| "fill_arrays io fr f (Suc n) w =
     (let w = fill_arrays io fr f n w;
          w = poke io (ua_at fr + of_nat (4 * n)) (bytes_u32 (f n)) w
      in poke io (ub_at fr + of_nat (4 * n)) (bytes_u32 0) w)"

definition array_at :: "'w io \<Rightarrow> ptr \<Rightarrow> 'w \<Rightarrow> nat \<Rightarrow> u32" where
  "array_at io p w i = u32_bytes (load (peek io w) (p + of_nat (4 * i)) 4)"

definition mismatches :: "'w io \<Rightarrow> frame \<Rightarrow> nat \<Rightarrow> 'w \<Rightarrow> nat list" where
  "mismatches io fr n w =
     filter (\<lambda>i. array_at io (ua_at fr) w i \<noteq> array_at io (ub_at fr) w i) [0..<n]"

definition test_small_writes :: "'w io \<Rightarrow> frame \<Rightarrow> int \<Rightarrow> 'w \<Rightarrow> 'w option" where
  "test_small_writes io fr f w = do {
     let dev_addr = 0x10000;
     w \<leftarrow> write_uchar io fr f 0 dev_addr 19 w;
     (uc, w) \<leftarrow> read_uchar io fr f 0 dev_addr w;
     if uc \<noteq> 19 then None else do {
     w \<leftarrow> write_ushort io fr f 0 dev_addr 13 w;
     (us, w) \<leftarrow> read_ushort io fr f 0 dev_addr w;
     if us \<noteq> 13 then None else do {
     w \<leftarrow> write_uint io fr f 0 dev_addr 18987983 w;
     (ui, w) \<leftarrow> read_uint io fr f 0 dev_addr w;
     if ui \<noteq> 18987983 then None else do {
     let w = fill_arrays io fr (\<lambda>i. of_nat i * 13) 10 w;
     (r, w) \<leftarrow> write_mem io fr f 0 dev_addr (ua_at fr) 40 w;
     (r, w) \<leftarrow> read_mem io fr f 0 dev_addr (ub_at fr) 40 w;
     if mismatches io fr 10 w \<noteq> [] then None else Some w
     }}}
   }"

definition test_page_write :: "'w io \<Rightarrow> frame \<Rightarrow> int \<Rightarrow> 'w \<Rightarrow> (nat list \<times> 'w) option" where
  "test_page_write io fr f w = do {
     let page_size = 4096 * 3;
     let page_size_ints = page_size div 4;
     let dev_addr = 0x10000;
     let w = fill_arrays io fr (\<lambda>i. of_nat i * 2) page_size_ints w;
     (r, w) \<leftarrow> write_mem io fr f 0 dev_addr (ua_at fr) (of_nat (page_size_ints * 4)) w;
     (r, w) \<leftarrow> read_mem io fr f 0 dev_addr (ub_at fr) (of_nat (page_size_ints * 4)) w;
     Some (mismatches io fr page_size_ints w, w)
   }"

subsection \<open>Objects in memory\<close>

text \<open>Two objects of \<open>n\<close> and \<open>m\<close> bytes that neither overlap nor wrap around.\<close>

definition apart :: "ptr \<Rightarrow> nat \<Rightarrow> ptr \<Rightarrow> nat \<Rightarrow> bool" where
  "apart a n b m \<longleftrightarrow>
     unat a + n \<le> unat b \<and> unat b + m \<le> 2 ^ 32 \<or> unat b + m \<le> unat a \<and> unat a + n \<le> 2 ^ 32"

lemma unat_offset: "unat (a :: u32) + i < 2 ^ 32 \<Longrightarrow> unat (a + of_nat i) = unat a + i"
  by (simp add: unat_word_ariths unat_of_nat)

lemma load_store_apart:
  assumes "apart a (length bs) b n"
  shows "load (store a bs m) b n = load m b n"
proof -
  have "store a bs m (b + of_nat j) = m (b + of_nat j)" if j: "j < n" for j
  proof (rule store_other, intro allI impI)
    fix i assume i: "i < length bs"
    have "unat (b + of_nat j) = unat b + j" "unat (a + of_nat i) = unat a + i"
      using assms i j by (auto simp: apart_def intro!: unat_offset)
    then show "b + of_nat j \<noteq> a + of_nat i" using assms i j by (auto simp: apart_def)
  qed
  then show ?thesis by (simp add: load_def)
qed

lemma load_take_drop: "i + n \<le> k \<Longrightarrow> load m (a + of_nat i) n = take n (drop i (load m a k))"
  by (rule nth_equalityI) (auto simp: load_def add.assoc)

lemma load_store_sub:
  assumes "i + n \<le> k" "k \<le> 2 ^ 31"
  shows "load (store b (load m a k) g) (b + of_nat i) n = load m (a + of_nat i) n"
  using load_store [of "load m a k" b g] assms
  by (simp add: load_take_drop [OF assms(1)])

lemma apart_sub:
  assumes "apart a n b m" "i + k \<le> m" "0 < k"
  shows "apart a n (b + of_nat i) k"
proof -
  have a: "unat a < 2 ^ 32" using unsigned_less [of a] by simp
  have "unat b + m \<le> 2 ^ 32" using assms(1) a unfolding apart_def by linarith
  then have "unat b + i < 2 ^ 32" using assms(2,3) by linarith
  then have "unat (b + of_nat i) = unat b + i" by (rule unat_offset)
  then show ?thesis using assms by (auto simp: apart_def)
qed

subsection \<open>What the process relies on\<close>

locale memory_board =
  fixes io :: "'w io" and fd :: int and ok :: "'w \<Rightarrow> bool" and gmem :: "'w \<Rightarrow> mem"
  assumes ok_poke: "ok w \<Longrightarrow> ok (poke io p bs w)"
    and gmem_poke: "ok w \<Longrightarrow> gmem (poke io p bs w) = gmem w"
    and peek_poke: "ok w \<Longrightarrow> peek io (poke io p bs w) = store p bs (peek io w)"
    and read_law: "ok w \<Longrightarrow> load (peek io w) buf sizeof_acl_cmd = encode_cmd c \<Longrightarrow>
      rw_target c = GlobalMem \<Longrightarrow>
      \<exists>w'. sys_read io fd buf (of_nat sizeof_acl_cmd) w = Some (0, w') \<and> ok w' \<and> gmem w' = gmem w \<and>
        peek io w' = store (user_addr c) (load (gmem w) (device_addr c) (unat (cmd_size c))) (peek io w)"
    and write_law: "ok w \<Longrightarrow> load (peek io w) buf sizeof_acl_cmd = encode_cmd c \<Longrightarrow>
      rw_target c = GlobalMem \<Longrightarrow>
      \<exists>w'. sys_write io fd buf (of_nat sizeof_acl_cmd) w = Some (0, w') \<and> ok w' \<and>
        peek io w' = peek io w \<and>
        gmem w' = store (device_addr c) (load (peek io w) (user_addr c) (stored_bytes (cmd_size c))) (gmem w)"
begin

lemma cmd_in_memory:
  "ok w \<Longrightarrow> load (peek io (poke io p (encode_cmd c) w)) p sizeof_acl_cmd = encode_cmd c"
  using load_store [of "encode_cmd c" p] by (simp add: peek_poke sizeof_acl_cmd_def)

lemma read_cmd:
  assumes "ok w" "rw_target (mk_cmd 0 da dst n) = GlobalMem"
  shows "\<exists>w'. sys_read io fd (cmd_at fr) (of_nat sizeof_acl_cmd)
      (poke io (cmd_at fr) (encode_cmd (mk_cmd 0 da dst n)) w) = Some (0, w') \<and>
    ok w' \<and> gmem w' = gmem w \<and>
    peek io w' = store dst (load (gmem w) da (unat n))
      (store (cmd_at fr) (encode_cmd (mk_cmd 0 da dst n)) (peek io w))"
  using read_law [OF ok_poke [OF assms(1)] cmd_in_memory [OF assms(1)] assms(2)] assms(1)
  by (simp add: gmem_poke peek_poke mk_cmd_def)

lemma write_cmd:
  assumes "ok w" "rw_target (mk_cmd 0 da src n) = GlobalMem"
    "apart (cmd_at fr) sizeof_acl_cmd src (stored_bytes n)"
  shows "\<exists>w'. sys_write io fd (cmd_at fr) (of_nat sizeof_acl_cmd)
      (poke io (cmd_at fr) (encode_cmd (mk_cmd 0 da src n)) w) = Some (0, w') \<and> ok w' \<and>
    gmem w' = store da (load (peek io w) src (stored_bytes n)) (gmem w) \<and>
    peek io w' = store (cmd_at fr) (encode_cmd (mk_cmd 0 da src n)) (peek io w)"
proof -
  let ?c = "mk_cmd 0 da src n"
  let ?w = "poke io (cmd_at fr) (encode_cmd ?c) w"
  have f: "user_addr ?c = src" "cmd_size ?c = n" "device_addr ?c = da" by (simp_all add: mk_cmd_def)
  obtain w' where w': "sys_write io fd (cmd_at fr) (of_nat sizeof_acl_cmd) ?w = Some (0, w')" "ok w'"
    "peek io w' = peek io ?w"
    "gmem w' = store da (load (peek io ?w) src (stored_bytes n)) (gmem ?w)"
    using write_law [OF ok_poke [OF assms(1)] cmd_in_memory [OF assms(1)] assms(2)] f by metis
  have "load (peek io ?w) src (stored_bytes n) = load (peek io w) src (stored_bytes n)"
    using assms(1,3) by (simp add: peek_poke load_store_apart)
  with w' assms(1) show ?thesis by (simp add: gmem_poke peek_poke)
qed

text \<open>A value written is the value read.\<close>

lemma write_val_gets:
  assumes "ok w" "rw_target (mk_cmd 0 da (val_at fr) (of_nat (length bs))) = GlobalMem"
    "apart (cmd_at fr) sizeof_acl_cmd (val_at fr) 4" "length bs \<in> {1, 2, 4}"
  shows "\<exists>w'. write_val io fr fd 0 da bs w = Some w' \<and> ok w' \<and> load (gmem w') da (length bs) = bs"
proof -
  let ?w = "poke io (val_at fr) bs w" and ?n = "of_nat (length bs) :: u32"
  have n: "unat ?n = length bs" using assms(4) by auto
  have s: "length bs \<le> stored_bytes ?n" "stored_bytes ?n \<le> 4"
    using n assms(4) by (auto simp: stored_bytes_def)
  have a: "apart (cmd_at fr) sizeof_acl_cmd (val_at fr) (stored_bytes ?n)"
    using assms(3) s(2) by (auto simp: apart_def)
  obtain w' where w': "sys_write io fd (cmd_at fr) (of_nat sizeof_acl_cmd)
      (poke io (cmd_at fr) (encode_cmd (mk_cmd 0 da (val_at fr) ?n)) ?w) = Some (0, w')" "ok w'"
    "gmem w' = store da (load (peek io ?w) (val_at fr) (stored_bytes ?n)) (gmem ?w)"
    using write_cmd [OF ok_poke [OF assms(1)] assms(2) a] by blast
  have "load (gmem w') da (length bs) = load (peek io ?w) (val_at fr) (length bs)"
    using load_store_sub [of 0 "length bs" "stored_bytes ?n" da] s by (simp add: w'(3))
  also have "\<dots> = bs" using assms(1,4) load_store [of bs "val_at fr"] by (auto simp: peek_poke)
  finally show ?thesis using w'(1,2) by (simp add: write_val_def)
qed

lemma read_val:
  assumes "ok w" "rw_target (mk_cmd 0 da (val_at fr) n) = GlobalMem" "unat n \<le> 2 ^ 31"
  shows "\<exists>w'. sys_read io fd (cmd_at fr) (of_nat sizeof_acl_cmd)
      (poke io (cmd_at fr) (encode_cmd (mk_cmd 0 da (val_at fr) n)) w) = Some (0, w') \<and>
    ok w' \<and> gmem w' = gmem w \<and> load (peek io w') (val_at fr) (unat n) = load (gmem w) da (unat n)"
  using read_cmd [OF assms(1,2), of fr] load_store [of "load (gmem w) da (unat n)" "val_at fr"] assms(3)
  by auto

end

lemma window_target:
  "unat n \<le> 0x10000 \<Longrightarrow> rw_target (mk_cmd 0 0x10000 p n) = GlobalMem"
  by (simp add: rw_target_def mk_cmd_def)

definition frame_ok :: "frame \<Rightarrow> nat \<Rightarrow> bool" where
  "frame_ok fr n \<longleftrightarrow>
     apart (cmd_at fr) sizeof_acl_cmd (val_at fr) 4 \<and>
     apart (cmd_at fr) sizeof_acl_cmd (ua_at fr) (4 * n) \<and> apart (ub_at fr) (4 * n) (ua_at fr) (4 * n)"

subsection \<open>The tests pass on any such board\<close>

context memory_board
begin

lemma byte_round:
  assumes "ok w" "rw_target (mk_cmd 0 da (val_at fr) 1) = GlobalMem" "frame_ok fr n"
  shows "\<exists>w1 w2. write_uchar io fr fd 0 da v w = Some w1 \<and> read_uchar io fr fd 0 da w1 = Some (v, w2) \<and> ok w2"
proof -
  have a: "apart (cmd_at fr) sizeof_acl_cmd (val_at fr) 4" using assms(3) by (simp add: frame_ok_def)
  have t: "rw_target (mk_cmd 0 da (val_at fr) (of_nat (length [v]))) = GlobalMem" using assms(2) by simp
  obtain w1 where w1: "write_uchar io fr fd 0 da v w = Some w1" "ok w1" "load (gmem w1) da 1 = [v]"
    using write_val_gets [OF assms(1) t a] by (auto simp: write_uchar_def)
  obtain w2 where w2: "sys_read io fd (cmd_at fr) (of_nat sizeof_acl_cmd)
      (poke io (cmd_at fr) (encode_cmd (mk_cmd 0 da (val_at fr) 1)) w1) = Some (0, w2)" "ok w2"
    "load (peek io w2) (val_at fr) 1 = load (gmem w1) da 1"
    using read_val [OF w1(2) assms(2)] by auto
  have "peek io w2 (val_at fr) = v" using w2(3) w1(3) by (simp add: load_def)
  then show ?thesis using w1(1) w2(1,2) by (simp add: read_uchar_def)
qed

lemma short_round:
  assumes "ok w" "rw_target (mk_cmd 0 da (val_at fr) 2) = GlobalMem" "frame_ok fr n"
  shows "\<exists>w1 w2. write_ushort io fr fd 0 da v w = Some w1 \<and> read_ushort io fr fd 0 da w1 = Some (v, w2) \<and> ok w2"
proof -
  have a: "apart (cmd_at fr) sizeof_acl_cmd (val_at fr) 4" using assms(3) by (simp add: frame_ok_def)
  have t: "rw_target (mk_cmd 0 da (val_at fr) (of_nat (length (bytes_u16 v)))) = GlobalMem" using assms(2) by simp
  obtain w1 where w1: "write_ushort io fr fd 0 da v w = Some w1" "ok w1" "load (gmem w1) da 2 = bytes_u16 v"
    using write_val_gets [OF assms(1) t a] by (auto simp: write_ushort_def)
  obtain w2 where w2: "sys_read io fd (cmd_at fr) (of_nat sizeof_acl_cmd)
      (poke io (cmd_at fr) (encode_cmd (mk_cmd 0 da (val_at fr) 2)) w1) = Some (0, w2)" "ok w2"
    "load (peek io w2) (val_at fr) 2 = load (gmem w1) da 2"
    using read_val [OF w1(2) assms(2)] by auto
  then show ?thesis using w1 by (simp add: read_ushort_def)
qed

lemma word_round:
  assumes "ok w" "rw_target (mk_cmd 0 da (val_at fr) 4) = GlobalMem" "frame_ok fr n"
  shows "\<exists>w1 w2. write_uint io fr fd 0 da v w = Some w1 \<and> read_uint io fr fd 0 da w1 = Some (v, w2) \<and> ok w2"
proof -
  have a: "apart (cmd_at fr) sizeof_acl_cmd (val_at fr) 4" using assms(3) by (simp add: frame_ok_def)
  have t: "rw_target (mk_cmd 0 da (val_at fr) (of_nat (length (bytes_u32 v)))) = GlobalMem" using assms(2) by simp
  obtain w1 where w1: "write_uint io fr fd 0 da v w = Some w1" "ok w1" "load (gmem w1) da 4 = bytes_u32 v"
    using write_val_gets [OF assms(1) t a] by (auto simp: write_uint_def)
  obtain w2 where w2: "sys_read io fd (cmd_at fr) (of_nat sizeof_acl_cmd)
      (poke io (cmd_at fr) (encode_cmd (mk_cmd 0 da (val_at fr) 4)) w1) = Some (0, w2)" "ok w2"
    "load (peek io w2) (val_at fr) 4 = load (gmem w1) da 4"
    using read_val [OF w1(2) assms(2)] by auto
  then show ?thesis using w1 by (simp add: read_uint_def)
qed

lemma ok_fill: "ok w \<Longrightarrow> ok (fill_arrays io fr f n w)"
  by (induction n) (simp_all add: Let_def ok_poke)

text \<open>Writing one array to the board and reading it into the other makes them equal.\<close>

lemma array_round:
  assumes "ok w" "rw_target (mk_cmd 0 da (ua_at fr) (of_nat (4 * n))) = GlobalMem"
    "frame_ok fr n" "4 * n \<le> 2 ^ 31"
  shows "\<exists>w1 w2. write_mem io fr fd 0 da (ua_at fr) (of_nat (4 * n)) w = Some (0, w1) \<and>
    read_mem io fr fd 0 da (ub_at fr) (of_nat (4 * n)) w1 = Some (0, w2) \<and> ok w2 \<and>
    mismatches io fr n w2 = []"
proof -
  let ?n = "of_nat (4 * n) :: u32"
  have n: "unat ?n = 4 * n" using assms(4) by (subst unat_of_nat) simp
  have s: "stored_bytes ?n = 4 * n"
  proof -
    have "unat ?n \<noteq> 2" using n by presburger
    then have "?n \<noteq> 2" by auto
    then show ?thesis using n by (simp add: stored_bytes_def del: of_nat_mult)
  qed
  let ?ca = "encode_cmd (mk_cmd 0 da (ua_at fr) ?n)" and ?cb = "encode_cmd (mk_cmd 0 da (ub_at fr) ?n)"
  have a: "apart (cmd_at fr) sizeof_acl_cmd (ua_at fr) (stored_bytes ?n)"
    using assms(3) unfolding s by (simp add: frame_ok_def)
  obtain w1 where w1: "write_mem io fr fd 0 da (ua_at fr) ?n w = Some (0, w1)" "ok w1"
    "gmem w1 = store da (load (peek io w) (ua_at fr) (4 * n)) (gmem w)"
    "peek io w1 = store (cmd_at fr) ?ca (peek io w)"
    using write_cmd [OF assms(1,2) a] unfolding s write_mem_def by blast
  have t: "rw_target (mk_cmd 0 da (ub_at fr) ?n) = GlobalMem"
    using assms(2) by (simp add: rw_target_def mk_cmd_def Let_def)
  obtain w2 where w2: "read_mem io fr fd 0 da (ub_at fr) ?n w1 = Some (0, w2)" "ok w2"
    "peek io w2 = store (ub_at fr) (load (gmem w1) da (4 * n)) (store (cmd_at fr) ?cb (peek io w1))"
    using read_cmd [OF w1(2) t] unfolding n read_mem_def by blast
  have g: "load (gmem w1) da (4 * n) = load (peek io w) (ua_at fr) (4 * n)"
    using load_store [of "load (peek io w) (ua_at fr) (4 * n)" da] assms(4) by (simp add: w1(3))
  have "array_at io (ua_at fr) w2 i = array_at io (ub_at fr) w2 i" if i: "i < n" for i
  proof -
    have i4: "4 * i + 4 \<le> 4 * n" using i by simp
    have ap: "apart (cmd_at fr) sizeof_acl_cmd (ua_at fr + of_nat (4 * i)) 4"
      "apart (ub_at fr) (4 * n) (ua_at fr + of_nat (4 * i)) 4"
      using assms(3) i4 unfolding frame_ok_def by (auto intro: apart_sub simp del: of_nat_mult)
    have "load (peek io w2) (ua_at fr + of_nat (4 * i)) 4 = load (peek io w) (ua_at fr + of_nat (4 * i)) 4"
      using ap by (simp add: w2(3) w1(4) load_store_apart del: of_nat_mult)
    moreover have "load (peek io w2) (ub_at fr + of_nat (4 * i)) 4 = load (peek io w) (ua_at fr + of_nat (4 * i)) 4"
      using load_store_sub [OF i4 assms(4)] by (simp add: w2(3) g del: of_nat_mult)
    ultimately show ?thesis by (simp add: array_at_def)
  qed
  then have "mismatches io fr n w2 = []" by (simp add: mismatches_def)
  then show ?thesis using w1(1) w2(1,2) by blast
qed

lemma small_writes_pass:
  assumes "ok w" "frame_ok fr 10"
  shows "\<exists>w'. test_small_writes io fr fd w = Some w' \<and> ok w'"
proof -
  obtain w1 w2 where b: "write_uchar io fr fd 0 0x10000 19 w = Some w1"
    "read_uchar io fr fd 0 0x10000 w1 = Some (19, w2)" "ok w2"
    using byte_round [OF assms(1) window_target assms(2), of 19] by auto
  obtain w3 w4 where s: "write_ushort io fr fd 0 0x10000 13 w2 = Some w3"
    "read_ushort io fr fd 0 0x10000 w3 = Some (13, w4)" "ok w4"
    using short_round [OF b(3) window_target assms(2), of 13] by auto
  obtain w5 w6 where u: "write_uint io fr fd 0 0x10000 18987983 w4 = Some w5"
    "read_uint io fr fd 0 0x10000 w5 = Some (18987983, w6)" "ok w6"
    using word_round [OF s(3) window_target assms(2), of 18987983] by auto
  let ?w = "fill_arrays io fr (\<lambda>i. of_nat i * 13) 10 w6"
  have o: "ok ?w" by (rule ok_fill [OF u(3)])
  obtain w7 w8 where a: "write_mem io fr fd 0 0x10000 (ua_at fr) 40 ?w = Some (0, w7)"
    "read_mem io fr fd 0 0x10000 (ub_at fr) 40 w7 = Some (0, w8)" "ok w8" "mismatches io fr 10 w8 = []"
    using array_round [OF o, of "0x10000" fr 10] window_target [of 40] assms(2) by auto
  show ?thesis
    using b s u a unfolding test_small_writes_def by (simp add: Let_def)
qed

lemma page_write_passes:
  assumes "ok w" "frame_ok fr 3072"
  shows "\<exists>w'. test_page_write io fr fd w = Some ([], w') \<and> ok w'"
proof -
  let ?w = "fill_arrays io fr (\<lambda>i. of_nat i * 2) 3072 w"
  have o: "ok ?w" by (rule ok_fill [OF assms(1)])
  obtain w7 w8 where a: "write_mem io fr fd 0 0x10000 (ua_at fr) 12288 ?w = Some (0, w7)"
    "read_mem io fr fd 0 0x10000 (ub_at fr) 12288 w7 = Some (0, w8)" "ok w8" "mismatches io fr 3072 w8 = []"
    using array_round [OF o, of "0x10000" fr 3072] window_target [of 12288] assms(2) by auto
  then show ?thesis unfolding test_page_write_def by (simp add: Let_def)
qed

end

subsection \<open>A board with registers\<close>

text \<open>A board that also takes writes to its registers, which may change its memory.\<close>

locale register_board = memory_board +
  assumes reg_law: "ok w \<Longrightarrow> load (peek io w) buf sizeof_acl_cmd = encode_cmd c \<Longrightarrow>
      bar_id c \<noteq> ACLPCI_CMD_BAR \<Longrightarrow> rw_target c = Control \<Longrightarrow>
      \<exists>w'. sys_write io fd buf (of_nat sizeof_acl_cmd) w = Some (0, w') \<and> ok w' \<and> peek io w' = peek io w"
begin

lemma write_reg:
  assumes "ok w" "rw_target (mk_cmd bar da src n) = Control" "bar \<noteq> ACLPCI_CMD_BAR"
  shows "\<exists>w'. write_mem io fr fd bar da src n w = Some (0, w') \<and> ok w'"
  using reg_law [OF ok_poke [OF assms(1)] cmd_in_memory [OF assms(1)], of "mk_cmd bar da src n" "cmd_at fr"] assms(2,3)
  unfolding write_mem_def by (auto simp: mk_cmd_def)

end

end
