(* ===== verification/Acl_Module.thy ===== *)
theory Acl_Module
  imports Acl_Lock
begin

section \<open>Loading and unloading the module (aclsoc.c)\<close>

text \<open>
  The driver's static variables, the character device, \<open>aclsoc_probe\<close> with its error
  handling and \<open>aclsoc_remove\<close>. The pointer \<open>aclsoc\<close> and the object behind it are kept
  apart: after \<open>kfree\<close> the pointer may still be set while there is no object, and following
  it is \<^const>\<open>None\<close>.
\<close>

definition lwHPS2FPGA_OFFSET :: u32 where "lwHPS2FPGA_OFFSET = 0xFF200000"
definition lwHPS2FPGA_SIZE :: u32 where "lwHPS2FPGA_SIZE = 0x40000"
definition HPS2FPGA_OFFSET :: u32 where "HPS2FPGA_OFFSET = 0xC0000000"
definition HPS2FPGA_SIZE :: u32 where "HPS2FPGA_SIZE = 0x10000"

lemma bridge_simps [hw_consts]:
  "lwHPS2FPGA_OFFSET = 0xFF200000" "lwHPS2FPGA_SIZE = 0x40000"
  "HPS2FPGA_OFFSET = 0xC0000000" "HPS2FPGA_SIZE = 0x10000"
  by (simp_all add: lwHPS2FPGA_OFFSET_def lwHPS2FPGA_SIZE_def HPS2FPGA_OFFSET_def HPS2FPGA_SIZE_def)

definition DRIVER_NAME :: string where "DRIVER_NAME = ''aclsoc''"
definition BOARD_NAME :: string where "BOARD_NAME = ''acl''"

record driver =
  aclsoc :: ptr
  aclsoc_obj :: "aclsoc_dev option"
  aclsoc_class :: ptr

definition unloaded :: driver where
  "unloaded = \<lparr>aclsoc = 0, aclsoc_obj = None, aclsoc_class = 0\<rparr>"

subsection \<open>The character device\<close>

text \<open>The result, the device, the class and the history. \<open>devno\<close> is -1 until the class exists.\<close>

definition init_chrdev :: "kernel \<Rightarrow> aclsoc_dev \<Rightarrow> ptr \<Rightarrow> hist \<Rightarrow> int \<times> aclsoc_dev \<times> ptr \<times> hist" where
  "init_chrdev K d cls h =
     (let dev_minor = 0; devno = -1;
          ((result, num), h) = alloc_chrdev_region K dev_minor 1 BOARD_NAME h;
          d = d\<lparr>cdev_num := num\<rparr>;
          dev_major = MAJOR K (cdev_num d)
      in if result < 0 then (-1, d, cls, h)
         else
           let (cls, h) = class_create K DRIVER_NAME h
           in if IS_ERR K cls then (-1, d, cls, unregister_chrdev_region devno 1 h)
              else
                let devno = MKDEV K dev_major dev_minor;
                    (result, h) = cdev_add K devno 1 h
                in if result \<noteq> 0 then
                     (-1, d, cls, unregister_chrdev_region devno 1 (class_destroy cls h))
                   else
                     let (dev, h) = device_create K cls devno (BOARD_NAME @ ''0'') h;
                         d = d\<lparr>device := dev\<rparr>
                     in if IS_ERR K dev then
                          (-1, d, cls, unregister_chrdev_region devno 1 (class_destroy cls (cdev_del h)))
                        else (0, d, cls, h))"

subsection \<open>Probe\<close>

definition map_regions :: "kernel \<Rightarrow> aclsoc_dev \<Rightarrow> hist \<Rightarrow> aclsoc_dev \<times> hist" where
  "map_regions K d h =
     (let (p2, h) = ioremap K lwHPS2FPGA_OFFSET lwHPS2FPGA_SIZE h;
          d = d\<lparr>mapped_region := (mapped_region d)(2 := p2, 1 := 0),
                mapped_region_size := (mapped_region_size d)(2 := lwHPS2FPGA_SIZE, 1 := 0)\<rparr>;
          (p0, h) = ioremap K HPS2FPGA_OFFSET (2 * HPS2FPGA_SIZE) h;
          d = d\<lparr>mapped_region := (mapped_region d)(0 := p0),
                mapped_region_size := (mapped_region_size d)(0 := 2 * HPS2FPGA_SIZE)\<rparr>
      in (d, h))"

definition aclsoc_probe :: "kernel \<Rightarrow> driver \<Rightarrow> hist \<Rightarrow> int \<times> driver \<times> hist" where
  "aclsoc_probe K drv h =
     (let (p, h) = kzalloc K (sizeof_aclsoc_dev K) h;
          drv = drv\<lparr>aclsoc := p, aclsoc_obj := None\<rparr>
      in if p = 0 then (-1, drv, h)
         else
           let d = zero_dev\<lparr>user_pid := -1\<rparr>;
               (am, h) = kzalloc K (of_nat (sizeof_addr_map_elem * MAX_ADDR_MAP_ENTRIES)) h;
               d = d\<lparr>addr_map := am,
                     addr_map_mem := (if am = 0 then [] else replicate MAX_ADDR_MAP_ENTRIES zero_elem)\<rparr>;
               (b, h) = kmalloc K (of_nat BUF_SIZE) h;
               d = d\<lparr>buffer := b, buffer_mem := (if b = 0 then [] else uninit K BUF_SIZE h)\<rparr>
           in if b = 0 then (-1, drv, kfree (aclsoc drv) h)
              else
                let (res, d, cls, h) = init_chrdev K d (aclsoc_class drv) h;
                    drv = drv\<lparr>aclsoc_class := cls\<rparr>
                in if res \<noteq> 0 then (-1, drv, kfree (aclsoc drv) (kfree (buffer d) h))
                   else
                     let (d, h) = map_regions K d h;
                         (r, obj, h) = init_irq K (Some d) h
                     in (r, drv\<lparr>aclsoc_obj := obj\<rparr>, h))"

subsection \<open>Remove\<close>

definition aclsoc_remove :: "driver \<Rightarrow> hist \<Rightarrow> (driver \<times> hist) option" where
  "aclsoc_remove drv h =
     (if aclsoc drv = 0 then Some (drv, h)
      else do {
        d \<leftarrow> aclsoc_obj drv;
        let h = release_irq d h;
        let h = device_destroy (aclsoc_class drv) (cdev_num d) h;
        let h = class_destroy (aclsoc_class drv) h;
        let h = cdev_del h;
        let h = unregister_chrdev_region (cdev_num d) 1 h;
        let h = iounmap (mapped_region d 0) h;
        let h = iounmap (mapped_region d 2) h;
        let h = kfree (buffer d) h;
        (d, h) \<leftarrow> free_contiguous_memory d h;
        let h = kfree (addr_map d) h;
        let h = kfree (aclsoc drv) h;
        Some (drv\<lparr>aclsoc := 0, aclsoc_obj := None\<rparr>, h)
      })"

definition aclsoc_init :: "kernel \<Rightarrow> driver \<Rightarrow> hist \<Rightarrow> int \<times> driver \<times> hist" where
  "aclsoc_init K drv h = (let (_, drv, h) = aclsoc_probe K drv h in (0, drv, h))"

definition aclsoc_exit :: "driver \<Rightarrow> hist \<Rightarrow> (driver \<times> hist) option" where
  "aclsoc_exit drv h = aclsoc_remove drv h"

subsection \<open>The ledger of kernel resources\<close>

datatype resource =
    RMem ptr
  | RRegion u32
  | RClass ptr
  | RCdev
  | RDevice u32
  | RMap ptr
  | RIrq u32
  | RDma u32 ptr u32

fun acquires :: "kernel \<Rightarrow> kevent \<Rightarrow> resource list" where
  "acquires K (Kzalloc n p) = (if p = 0 then [] else [RMem p])"
| "acquires K (Kmalloc n p) = (if p = 0 then [] else [RMem p])"
| "acquires K (Alloc_chrdev_region m c nm r num) = (if r < 0 then [] else [RRegion num])"
| "acquires K (Class_create nm p) = (if IS_ERR K p then [] else [RClass p])"
| "acquires K (Cdev_add num c r) = (if r = 0 then [RCdev] else [])"
| "acquires K (Device_create cls num nm p) = (if IS_ERR K p then [] else [RDevice num])"
| "acquires K (Ioremap a n p) = [RMap p]"
| "acquires K (Request_irq n r) = (if r = 0 then [RIrq n] else [])"
| "acquires K (Dma_alloc_coherent n p dm) = (if p = 0 then [] else [RDma n p dm])"
| "acquires K _ = []"

fun releases :: "kevent \<Rightarrow> resource list" where
  "releases (Kfree p) = (if p = 0 then [] else [RMem p])"
| "releases (Unregister_chrdev_region num c) = [RRegion num]"
| "releases (Class_destroy p) = [RClass p]"
| "releases Cdev_del = [RCdev]"
| "releases (Device_destroy cls num) = [RDevice num]"
| "releases (Iounmap p) = [RMap p]"
| "releases (Free_irq n) = [RIrq n]"
| "releases (Dma_free_coherent n p dm) = [RDma n p dm]"
| "releases _ = []"

definition acquired :: "kernel \<Rightarrow> kevent list \<Rightarrow> resource multiset" where
  "acquired K tr = mset (concat (map (acquires K) tr))"

definition released :: "kevent list \<Rightarrow> resource multiset" where
  "released tr = mset (concat (map releases tr))"

lemma ledger_append [simp]:
  "acquired K (t @ t') = acquired K t + acquired K t'" "released (t @ t') = released t + released t'"
  by (simp_all add: acquired_def released_def)

lemma ledger_Nil [simp]: "acquired K [] = {#}" "released [] = {#}"
  by (simp_all add: acquired_def released_def)

lemma ledger_Cons: "acquired K (e # t) = mset (acquires K e) + acquired K t"
  "released (e # t) = mset (releases e) + released t"
  by (simp_all add: acquired_def released_def)

subsection \<open>Probe and remove, call by call\<close>

text \<open>The numbers the kernel hands out for minor 0 are rebuilt by the code from their major part.\<close>

definition region_numbers_ok :: "kernel \<Rightarrow> bool" where
  "region_numbers_ok K \<longleftrightarrow>
     (\<forall>h nm. MKDEV K (MAJOR K (snd (ans_alloc_chrdev_region K h 0 1 nm))) 0
            = snd (ans_alloc_chrdev_region K h 0 1 nm))"

lemma init_chrdev_ok:
  assumes "init_chrdev K d cls h = (0, d', cls', h')"
  shows "\<exists>r num dev. let devno = MKDEV K (MAJOR K num) 0 in
    h' = rev [Alloc_chrdev_region 0 1 BOARD_NAME r num, Class_create DRIVER_NAME cls',
              Cdev_add devno 1 0, Device_create cls' devno (BOARD_NAME @ ''0'') dev] @ h \<and>
    (r, num) = ans_alloc_chrdev_region K h 0 1 BOARD_NAME \<and>
    0 \<le> r \<and> \<not> IS_ERR K cls' \<and> \<not> IS_ERR K dev \<and> d' = d\<lparr>cdev_num := num, device := dev\<rparr>"
proof -
  obtain r num where a: "ans_alloc_chrdev_region K h 0 1 BOARD_NAME = (r, num)" by force
  show ?thesis
    using assms
    by (auto simp: init_chrdev_def env_simps a Let_def split: if_splits)
qed

end
