(* ===== verification/Acl_Load.thy ===== *)
theory Acl_Load
  imports Acl_Module
begin

section \<open>What loading acquires and unloading releases\<close>

text \<open>
  The traces of a successful \<open>aclsoc_probe\<close> and of \<open>aclsoc_remove\<close>, the resource
  ledger they balance, and what a failing probe leaves behind.
\<close>

subsection \<open>A successful probe\<close>

definition probe_trace ::
  "kernel \<Rightarrow> ptr \<Rightarrow> ptr \<Rightarrow> ptr \<Rightarrow> int \<Rightarrow> u32 \<Rightarrow> ptr \<Rightarrow> ptr \<Rightarrow> ptr \<Rightarrow> ptr \<Rightarrow> kevent list" where
  "probe_trace K p am b r num cls dev p2 p0 =
     [Kzalloc (sizeof_aclsoc_dev K) p, Kzalloc 4080 am, Kmalloc 4096 b,
      Alloc_chrdev_region 0 1 BOARD_NAME r num, Class_create DRIVER_NAME cls,
      Cdev_add (MKDEV K (MAJOR K num) 0) 1 0,
      Device_create cls (MKDEV K (MAJOR K num) 0) (BOARD_NAME @ ''0'') dev,
      Ioremap lwHPS2FPGA_OFFSET lwHPS2FPGA_SIZE p2, Ioremap HPS2FPGA_OFFSET (2 * HPS2FPGA_SIZE) p0,
      Request_irq PIO_IRQ 0, Writel 1 (p2 + (ACL_KERNEL_CSR_OFFSET + PCIE_CRA_IRQ_ENABLE))]"

text \<open>The device a successful probe makes.\<close>

definition probed :: "driver \<Rightarrow> aclsoc_dev \<Rightarrow> ptr \<Rightarrow> ptr \<Rightarrow> ptr \<Rightarrow> u32 \<Rightarrow> ptr \<Rightarrow> ptr \<Rightarrow> ptr \<Rightarrow> bool" where
  "probed drv d p am b num cls p2 p0 \<longleftrightarrow>
     drv = \<lparr>aclsoc = p, aclsoc_obj = Some d, aclsoc_class = cls\<rparr> \<and>
     addr_map d = am \<and> buffer d = b \<and> cdev_num d = num \<and> mapped_region d 0 = p0 \<and>
     mapped_region d 2 = p2 \<and> mapped_region_size d 0 = 0x20000 \<and> mapped_region_size d 2 = 0x40000 \<and>
     length (buffer_mem d) = BUF_SIZE \<and>
     addr_map_mem d = (if am = 0 then [] else replicate MAX_ADDR_MAP_ENTRIES zero_elem)"

lemma addr_map_bytes:
  "of_nat sizeof_addr_map_elem * of_nat MAX_ADDR_MAP_ENTRIES = (4080 :: u32)" "of_nat BUF_SIZE = (4096 :: u32)"
  by (simp_all add: hw_consts sizeof_addr_map_elem_def)

lemma map_regions_eq:
  "\<exists>p2 p0 d'. map_regions K d h =
     (d', Ioremap HPS2FPGA_OFFSET (2 * HPS2FPGA_SIZE) p0 # Ioremap lwHPS2FPGA_OFFSET lwHPS2FPGA_SIZE p2 # h) \<and>
   mapped_region d' 0 = p0 \<and> mapped_region d' 2 = p2 \<and>
   mapped_region_size d' 0 = 0x20000 \<and> mapped_region_size d' 2 = 0x40000 \<and>
   buffer_mem d' = buffer_mem d \<and> addr_map_mem d' = addr_map_mem d \<and> addr_map d' = addr_map d \<and>
   buffer d' = buffer d \<and> cdev_num d' = cdev_num d"
  by (simp add: map_regions_def env_simps Let_def hw_consts)

lemma init_irq_ok:
  assumes "init_irq K (Some d) h = (0, obj, h')"
  shows "\<exists>d'. obj = Some d' \<and> h' = Writel 1 (get_interrupt_enable_addr d) # Request_irq PIO_IRQ 0 # h \<and>
    d' = d\<lparr>num_handled_interrupts := 0, num_undelivered_signals := 0\<rparr>"
  using assms by (simp add: init_irq_eq Let_def split: if_split_asm)

lemma probe_ok:
  assumes "aclsoc_probe K drv0 h = (0, drv, h')"
  shows "\<exists>p am b r num cls dev p2 p0 d.
    runs h (probe_trace K p am b r num cls dev p2 p0) h' \<and> probed drv d p am b num cls p2 p0 \<and>
    p \<noteq> 0 \<and> b \<noteq> 0 \<and> 0 \<le> r \<and> \<not> IS_ERR K cls \<and> \<not> IS_ERR K dev \<and>
    (\<exists>h0. (r, num) = ans_alloc_chrdev_region K h0 0 1 BOARD_NAME)"
proof -
  let ?h1 = "Kzalloc (sizeof_aclsoc_dev K) (ans_kzalloc K h (sizeof_aclsoc_dev K)) # h"
  let ?p = "ans_kzalloc K h (sizeof_aclsoc_dev K)"
  let ?am = "ans_kzalloc K ?h1 4080"
  let ?h2 = "Kzalloc 4080 ?am # ?h1"
  let ?b = "ans_kmalloc K ?h2 4096"
  let ?h3 = "Kmalloc 4096 ?b # ?h2"
  let ?d = "zero_dev\<lparr>user_pid := -1, addr_map := ?am,
     addr_map_mem := (if ?am = 0 then [] else replicate MAX_ADDR_MAP_ENTRIES zero_elem),
     buffer := ?b, buffer_mem := uninit K BUF_SIZE ?h3\<rparr>"
  obtain res d1 cls h4 where c: "init_chrdev K ?d (aclsoc_class drv0) ?h3 = (res, d1, cls, h4)"
    by (metis prod_cases4)
  obtain d2 h5 where m: "map_regions K d1 h4 = (d2, h5)" by force
  obtain r obj h6 where i: "init_irq K (Some d2) h5 = (r, obj, h6)" by (metis prod_cases3)
  have nz: "?p \<noteq> 0" "?b \<noteq> 0" "res = 0"
    and r: "r = 0" "drv = \<lparr>aclsoc = ?p, aclsoc_obj = obj, aclsoc_class = cls\<rparr>" "h' = h6"
    using assms c m i
    by (auto simp: aclsoc_probe_def env_simps Let_def addr_map_bytes split: if_split_asm)
  obtain rr num dev where ch: "h4 = rev [Alloc_chrdev_region 0 1 BOARD_NAME rr num, Class_create DRIVER_NAME cls,
              Cdev_add (MKDEV K (MAJOR K num) 0) 1 0,
              Device_create cls (MKDEV K (MAJOR K num) 0) (BOARD_NAME @ ''0'') dev] @ ?h3"
    "(rr, num) = ans_alloc_chrdev_region K ?h3 0 1 BOARD_NAME"
    "0 \<le> rr" "\<not> IS_ERR K cls" "\<not> IS_ERR K dev" "d1 = ?d\<lparr>cdev_num := num, device := dev\<rparr>"
    using init_chrdev_ok [of K ?d "aclsoc_class drv0" ?h3 d1 cls h4] c nz(3) by (auto simp: Let_def)
  obtain p2 p0 where mm: "h5 = Ioremap HPS2FPGA_OFFSET (2 * HPS2FPGA_SIZE) p0 #
      Ioremap lwHPS2FPGA_OFFSET lwHPS2FPGA_SIZE p2 # h4"
    "mapped_region d2 0 = p0" "mapped_region d2 2 = p2"
    "mapped_region_size d2 0 = 0x20000" "mapped_region_size d2 2 = 0x40000"
    "buffer_mem d2 = buffer_mem d1" "addr_map_mem d2 = addr_map_mem d1" "addr_map d2 = addr_map d1"
    "buffer d2 = buffer d1" "cdev_num d2 = cdev_num d1"
    using map_regions_eq [of K d1 h4] m by auto
  obtain d where ii: "obj = Some d" "h6 = Writel 1 (get_interrupt_enable_addr d2) # Request_irq PIO_IRQ 0 # h5"
    "d = d2\<lparr>num_handled_interrupts := 0, num_undelivered_signals := 0\<rparr>"
    using init_irq_ok i r(1) by blast
  have "runs h (probe_trace K ?p ?am ?b rr num cls dev p2 p0) h'"
    using ch(1) mm(1,3) ii(2) r(3) by (simp add: runs_def probe_trace_def get_interrupt_enable_addr_def)
  moreover have "probed drv d ?p ?am ?b num cls p2 p0"
    using r(2) ii(1,3) mm ch(6) by (simp add: probed_def)
  ultimately show ?thesis using nz ch by blast
qed

lemma probed_wf: "probed drv d p am b num cls p2 p0 \<Longrightarrow> am \<noteq> 0 \<Longrightarrow> dev_wf d"
  by (simp add: probed_def dev_wf_def hw_consts)

subsection \<open>Unloading\<close>

lemma free_from_unused:
  assumes "dev_wf d" "\<forall>e \<in> set (addr_map_mem d). vm_start e = 0"
  shows "free_from i d h = Some (d, h)"
  using assms
proof (induction i d h rule: free_from.induct)
  case (1 i d h)
  show ?case
  proof (cases "i < MAX_ADDR_MAP_ENTRIES")
    case True
    have s: "slot d i = Some (addr_map_mem d ! i)" using True "1.prems"(1) by (simp add: slot_wf)
    have "addr_map_mem d ! i \<in> set (addr_map_mem d)"
      using True dev_wfD(3) [OF "1.prems"(1)] by simp
    then have f: "free_map_info (addr_map_mem d ! i) h = (addr_map_mem d ! i, h)"
      using "1.prems"(2) by (simp add: free_map_info_def)
    have same: "set_slot d i (addr_map_mem d ! i) = d" using s by (rule set_slot_same)
    from "1.IH" [OF True s f [symmetric] refl] "1.prems" same
    have "free_from (Suc i) d h = Some (d, h)" by simp
    then show ?thesis using True s f same by (subst free_from.simps) simp
  next
    case False
    then show ?thesis by (subst free_from.simps) simp
  qed
qed

definition remove_trace :: "ptr \<Rightarrow> ptr \<Rightarrow> ptr \<Rightarrow> u32 \<Rightarrow> ptr \<Rightarrow> ptr \<Rightarrow> ptr \<Rightarrow> kevent list" where
  "remove_trace p am b num cls p2 p0 =
     [Writel 0 (p2 + (ACL_KERNEL_CSR_OFFSET + PCIE_CRA_IRQ_ENABLE)), Free_irq PIO_IRQ,
      Writel 0 (p2 + (ACL_KERNEL_CSR_OFFSET + PCIE_CRA_IRQ_ENABLE)),
      Device_destroy cls num, Class_destroy cls, Cdev_del, Unregister_chrdev_region num 1,
      Iounmap p0, Iounmap p2, Kfree b, Kfree am, Kfree p]"

lemma remove_probed:
  assumes "probed drv d p am b num cls p2 p0" "p \<noteq> 0" "am \<noteq> 0"
  shows "aclsoc_remove drv h =
    Some (\<lparr>aclsoc = 0, aclsoc_obj = None, aclsoc_class = cls\<rparr>, rev (remove_trace p am b num cls p2 p0) @ h)"
proof -
  have d: "drv = \<lparr>aclsoc = p, aclsoc_obj = Some d, aclsoc_class = cls\<rparr>" "addr_map d = am" "buffer d = b"
    "cdev_num d = num" "mapped_region d 0 = p0" "mapped_region d 2 = p2"
    "addr_map_mem d = replicate MAX_ADDR_MAP_ENTRIES zero_elem"
    using assms by (simp_all add: probed_def)
  have "free_from 0 d h' = Some (d, h')" for h'
    using probed_wf [OF assms(1,3)] d(7) by (intro free_from_unused) auto
  then show ?thesis
    using d(1-6) assms(2)
    by (simp add: aclsoc_remove_def free_contiguous_memory_def env_simps release_irq_def mask_irq_def
        remove_trace_def get_interrupt_enable_addr_def)
qed

text \<open>Everything acquired is released, each once.\<close>

lemma probe_remove_balance:
  assumes "p \<noteq> 0" "am \<noteq> 0" "b \<noteq> 0" "0 \<le> r" "\<not> IS_ERR K cls" "\<not> IS_ERR K dev"
    "MKDEV K (MAJOR K num) 0 = num"
  shows "acquired K (probe_trace K p am b r num cls dev p2 p0 @ remove_trace p am b num cls p2 p0) =
    released (probe_trace K p am b r num cls dev p2 p0 @ remove_trace p am b num cls p2 p0)"
  using assms by (simp add: probe_trace_def remove_trace_def ledger_Cons)

lemma load_unload_balance:
  assumes "region_numbers_ok K" "aclsoc_probe K drv0 h = (0, drv, h1)"
    and "aclsoc_obj drv = Some d" "addr_map d \<noteq> 0"
  shows "\<exists>tr cls. aclsoc_remove drv h1 =
      Some (\<lparr>aclsoc = 0, aclsoc_obj = None, aclsoc_class = cls\<rparr>, rev tr @ h) \<and>
    acquired K tr = released tr"
proof -
  obtain p am b r num cls dev p2 p0 d' where t: "runs h (probe_trace K p am b r num cls dev p2 p0) h1"
    and q: "probed drv d' p am b num cls p2 p0"
    and nz: "p \<noteq> 0" "b \<noteq> 0" "0 \<le> r" "\<not> IS_ERR K cls" "\<not> IS_ERR K dev"
    and num: "\<exists>h0. (r, num) = ans_alloc_chrdev_region K h0 0 1 BOARD_NAME"
    using probe_ok [OF assms(2)] by blast
  have am: "am \<noteq> 0" using q assms(3,4) by (simp add: probed_def)
  have "MKDEV K (MAJOR K num) 0 = num"
    using num assms(1) by (metis region_numbers_ok_def snd_conv)
  from probe_remove_balance [OF nz(1) am nz(2-5) this]
  have "acquired K (probe_trace K p am b r num cls dev p2 p0 @ remove_trace p am b num cls p2 p0) =
    released (probe_trace K p am b r num cls dev p2 p0 @ remove_trace p am b num cls p2 p0)" .
  moreover have "aclsoc_remove drv h1 = Some (\<lparr>aclsoc = 0, aclsoc_obj = None, aclsoc_class = cls\<rparr>,
      rev (probe_trace K p am b r num cls dev p2 p0 @ remove_trace p am b num cls p2 p0) @ h)"
    using remove_probed [OF q nz(1) am, of h1] t by (simp add: runs_def)
  ultimately show ?thesis by blast
qed

subsection \<open>Failing probes\<close>

text \<open>
  When a later step fails the object is freed but the pointer to it stays, and
  \<open>aclsoc_init\<close> reports success all the same: unloading then follows a dangling pointer.
\<close>

lemma failed_probe_dangles:
  assumes "aclsoc_probe K drv0 h = (r, drv, h')" "aclsoc_obj drv = None" "aclsoc drv \<noteq> 0"
  shows "fst (aclsoc_init K drv0 h) = 0" "aclsoc_exit drv h' = None"
  using assms by (simp_all add: aclsoc_init_def aclsoc_exit_def aclsoc_remove_def)

lemma no_buffer_dangles:
  assumes "ans_kzalloc K h (sizeof_aclsoc_dev K) = p" "p \<noteq> 0"
    and "\<forall>h. ans_kmalloc K h 4096 = 0"
  shows "\<exists>am. aclsoc_probe K drv0 h = (-1, drv0\<lparr>aclsoc := p, aclsoc_obj := None\<rparr>,
      Kfree p # Kmalloc 4096 0 # Kzalloc 4080 am # Kzalloc (sizeof_aclsoc_dev K) p # h)"
  using assms by (simp add: aclsoc_probe_def env_simps Let_def addr_map_bytes)

text \<open>When no class can be made, the number given back is not the one that was taken.\<close>

lemma class_failure_leaks:
  assumes "ans_alloc_chrdev_region K h 0 1 BOARD_NAME = (r, num)" "0 \<le> r"
    "\<forall>h. IS_ERR K (ans_class_create K h DRIVER_NAME)"
  shows "\<exists>cls d'. init_chrdev K d c h = (-1, d', cls, Unregister_chrdev_region 0xFFFFFFFF 1 #
      Class_create DRIVER_NAME cls # Alloc_chrdev_region 0 1 BOARD_NAME r num # h)"
  using assms by (simp add: init_chrdev_def env_simps Let_def)

end
