(* ===== verification/Acl_System.thy ===== *)
theory Acl_System
  imports Acl_Load
begin

section \<open>The loaded driver as a state machine\<close>

text \<open>
  The driver between loading and unloading: the device, the history and the mappings user
  processes hold, and a step for each way the kernel enters the driver. The system calls, the
  operations of the mappings and the interrupt come in any order and from any process. The
  reachable states keep the reference counts of the buffers, the ledger of DMA memory and the
  lock. A step is a whole call; \<^theory_text>\<open>Acl_Race\<close> cuts \<open>mmap()\<close>, which does not take the lock, into
  pieces and shows what two overlapping calls do.
\<close>

record sys =
  sdev :: aclsoc_dev
  shist :: hist
  maps :: "vma list"

text \<open>A 32-bit address space holds fewer mappings than the counters can count.\<close>

definition MAX_MAPS :: nat where "MAX_MAPS = 0xFFFFFFFF"

inductive step :: "kernel \<Rightarrow> sys \<Rightarrow> sys \<Rightarrow> bool" for K where
  open_step: "aclsoc_open K pid cur (sdev s) (shist s) = (r, d, h) \<Longrightarrow>
    step K s (s\<lparr>sdev := d, shist := h\<rparr>)"
| close_step: "aclsoc_close K (sdev s) (shist s) = (r, d, h) \<Longrightarrow>
    step K s (s\<lparr>sdev := d, shist := h\<rparr>)"
| read_step: "aclsoc_read K buf (sdev s) (shist s) = Some (r, d, h) \<Longrightarrow>
    step K s (s\<lparr>sdev := d, shist := h\<rparr>)"
| write_step: "aclsoc_write K buf (sdev s) (shist s) = Some (r, d, h) \<Longrightarrow>
    step K s (s\<lparr>sdev := d, shist := h\<rparr>)"
| mmap_step: "aclsoc_mmap K v (sdev s) (shist s) = Some (r, v', d, h) \<Longrightarrow> vma_start v \<noteq> 0 \<Longrightarrow>
    length (maps s) < MAX_MAPS \<Longrightarrow>
    step K s \<lparr>sdev = d, shist = h, maps = (if r = 0 then v' # maps s else maps s)\<rparr>"
| vma_open_step: "v \<in> set (maps s) \<Longrightarrow> vma_private v' = vma_private v \<Longrightarrow>
    aclsoc_vma_open K v' (sdev s) = Some d \<Longrightarrow> length (maps s) < MAX_MAPS \<Longrightarrow>
    step K s (s\<lparr>sdev := d, maps := v' # maps s\<rparr>)"
| vma_close_step: "v \<in> set (maps s) \<Longrightarrow> aclsoc_vma_close K v (sdev s) (shist s) = Some (d, h) \<Longrightarrow>
    step K s \<lparr>sdev = d, shist = h, maps = remove1 v (maps s)\<rparr>"
| irq_step: "aclsoc_irq K (Some (sdev s)) (shist s) = (r, Some d, h) \<Longrightarrow>
    step K s (s\<lparr>sdev := d, shist := h\<rparr>)"

inductive reachable :: "kernel \<Rightarrow> sys \<Rightarrow> sys \<Rightarrow> bool" for K where
  start: "reachable K s s"
| more: "reachable K s t \<Longrightarrow> step K t u \<Longrightarrow> reachable K s u"

text \<open>
  The one place where DMA memory is lost: the buffer of a mapping whose pages cannot be
  remapped is not freed.
\<close>

fun last_alloc :: "hist \<Rightarrow> (u32 \<times> ptr \<times> u32) multiset" where
  "last_alloc (Dma_alloc_coherent sz p dm # h) = {#(sz, p, dm)#}"
| "last_alloc h = {#}"

primrec leaked :: "hist \<Rightarrow> (u32 \<times> ptr \<times> u32) multiset" where
  "leaked [] = {#}"
| "leaked (e # h) =
     (case e of Remap_pfn_range v pfn n prot r \<Rightarrow> (if r < 0 then last_alloc h else {#}) | _ \<Rightarrow> {#}) + leaked h"

text \<open>The state a successful probe leaves: no buffer is mapped.\<close>

definition fresh :: "sys \<Rightarrow> bool" where
  "fresh s \<longleftrightarrow>
     dev_wf (sdev s) \<and> (\<forall>e \<in> set (addr_map_mem (sdev s)). vm_start e = 0) \<and> maps s = [] \<and>
     dma_live (shist s) = {#} \<and> leaked (shist s) = {#} \<and> lock_depth (shist s) = 0"

subsection \<open>Reference counts\<close>

text \<open>
  The documented behaviour of the kernel's reference counters: they start at one, and the
  release function is called when the last reference is given back.
\<close>

definition kref_ok :: "kernel \<Rightarrow> bool" where
  "kref_ok K \<longleftrightarrow> kr_init K = 1 \<and> (\<forall>r. kr_get K r = r + 1 \<and> kr_put K r = (r - 1, r = 1))"

definition refs :: "nat \<Rightarrow> vma list \<Rightarrow> nat" where
  "refs i ms = length (filter (\<lambda>v. vma_private v = Some i) ms)"

definition counted :: "addr_map_elem \<Rightarrow> nat \<Rightarrow> bool" where
  "counted e n \<longleftrightarrow> (if vm_start e = 0 then n = 0 else 0 < n \<and> unat (ref e) = n)"

definition refs_ok :: "addr_map_elem list \<Rightarrow> vma list \<Rightarrow> bool" where
  "refs_ok es ms \<longleftrightarrow>
     (\<forall>i < length es. counted (es ! i) (refs i ms)) \<and>
     (\<forall>v \<in> set ms. \<exists>i < length es. vma_private v = Some i)"

lemma refs_Cons: "refs i (v # ms) = (if vma_private v = Some i then 1 else 0) + refs i ms"
  by (simp add: refs_def)

lemma refs_remove1:
  "v \<in> set ms \<Longrightarrow> refs i ms = (if vma_private v = Some i then 1 else 0) + refs i (remove1 v ms)"
  by (induction ms) (auto simp: refs_def)

lemma refs_le: "refs i ms \<le> length ms"
  by (simp add: refs_def)

lemma refs_pos: "v \<in> set ms \<Longrightarrow> vma_private v = Some i \<Longrightarrow> 0 < refs i ms"
  using refs_remove1 [of v ms i] by simp

lemma refs_ok_update:
  assumes "refs_ok es ms" "i < length es" "counted e (refs i ms')"
    and "\<And>j. j \<noteq> i \<Longrightarrow> refs j ms' = refs j ms"
    and "set ms' \<subseteq> insert v (set ms)" "vma_private v = Some i"
  shows "refs_ok (es[i := e]) ms'"
proof -
  have "counted (es[i := e] ! j) (refs j ms')" if "j < length es" for j
    using assms(1,3,4) that by (cases "j = i") (simp_all add: refs_ok_def)
  moreover have "\<exists>i < length es. vma_private x = Some i" if "x \<in> set ms'" for x
    using assms(1,2,5,6) that by (auto simp: refs_ok_def)
  ultimately show ?thesis by (simp add: refs_ok_def)
qed

lemma refs_ok_slot:
  assumes "refs_ok es ms" "v \<in> set ms" "vma_private v = Some i"
  shows "i < length es" "vm_start (es ! i) \<noteq> 0" "unat (ref (es ! i)) = refs i ms"
proof -
  show i: "i < length es" using assms by (auto simp: refs_ok_def)
  then have "counted (es ! i) (refs i ms)" using assms(1) by (simp add: refs_ok_def)
  then show "vm_start (es ! i) \<noteq> 0" "unat (ref (es ! i)) = refs i ms"
    using refs_pos [OF assms(2,3)] by (auto simp: counted_def split: if_split_asm)
qed

subsection \<open>The ledger of DMA memory\<close>

definition ledger_ok :: "addr_map_elem list \<Rightarrow> hist \<Rightarrow> bool" where
  "ledger_ok es h \<longleftrightarrow> dma_live h = table_bufs es + leaked h"

lemma plain_ledger:
  "\<forall>e \<in> set tr. plain_call e \<Longrightarrow>
   dma_live (rev tr @ h) = dma_live h \<and> leaked (rev tr @ h) = leaked h"
  by (induction tr arbitrary: h) (auto simp: plain_call_def split: kevent.splits)

lemma section_ledger:
  assumes "locked_section tr" "ledger_ok es h"
  shows "ledger_ok es (rev tr @ h)"
  using assms plain_ledger
  by (auto simp: locked_section_def ledger_ok_def)

lemma ledger_ref:
  assumes "i < length es" "vm_start e = vm_start (es ! i)" "elem_buf e = elem_buf (es ! i)"
  shows "table_bufs (es[i := e]) = table_bufs es"
  using assms by (simp add: table_bufs_update [OF assms(1)] table_bufs_split [OF assms(1)])

lemma ledger_release:
  assumes "i < length es" "free_map_info e h = (e', h')" "vm_start (es ! i) \<noteq> 0"
    and "vm_start e = vm_start (es ! i)" "elem_buf e = elem_buf (es ! i)" "ledger_ok es h"
  shows "ledger_ok (es[i := e']) h'"
  using assms
  by (auto simp: ledger_ok_def free_map_info_def dma_free_coherent_def elem_buf_def
      table_bufs_update [OF assms(1)] table_bufs_split [OF assms(1)] split: if_splits)

subsection \<open>The invariant of the running driver\<close>

definition sys_ok :: "(nat \<Rightarrow> ptr) \<Rightarrow> sys \<Rightarrow> bool" where
  "sys_ok regions s \<longleftrightarrow>
     dev_wf (sdev s) \<and> mapped_region (sdev s) = regions \<and>
     refs_ok (addr_map_mem (sdev s)) (maps s) \<and> length (maps s) \<le> MAX_MAPS \<and>
     ledger_ok (addr_map_mem (sdev s)) (shist s) \<and> lock_depth (shist s) = 0"

lemma fresh_ok:
  assumes "fresh s"
  shows "sys_ok (mapped_region (sdev s)) s"
proof -
  have "table_bufs (addr_map_mem (sdev s)) = {#}"
    using assms(1) by (auto simp: fresh_def table_bufs_def)
  then show ?thesis
    using assms by (simp add: fresh_def sys_ok_def refs_ok_def counted_def refs_def ledger_ok_def)
qed

lemma keeps_ok:
  assumes "sys_ok R s" "keeps (sdev s) d" "ledger_ok (addr_map_mem (sdev s)) h" "lock_depth h = 0"
  shows "sys_ok R (s\<lparr>sdev := d, shist := h\<rparr>)"
  using assms by (simp add: sys_ok_def keeps_def)

lemma call_ok:
  assumes "sys_ok R s" "keeps (sdev s) d" "locked_section tr"
  shows "sys_ok R (s\<lparr>sdev := d, shist := rev tr @ shist s\<rparr>)"
  using assms locked_section_depth [of tr "shist s"] section_ledger [of tr "addr_map_mem (sdev s)" "shist s"]
  by (intro keeps_ok) (simp_all add: sys_ok_def)

lemma irq_ok:
  assumes "sys_ok R s" "aclsoc_irq K (Some (sdev s)) (shist s) = (r, Some d, h)"
  shows "sys_ok R (s\<lparr>sdev := d, shist := h\<rparr>)"
proof -
  obtain n where d: "d = (sdev s)\<lparr>num_handled_interrupts := num_handled_interrupts (sdev s) + 1,
                         num_undelivered_signals := n\<rparr>"
    using aclsoc_irq_dev [OF assms(2)] by auto
  have "\<exists>tr. h = rev tr @ shist s \<and> (\<forall>e \<in> set tr. plain_call e)"
    using aclsoc_irq_hist [OF assms(2)]
    by (cases "user_task (sdev s) = 0")
      (auto simp: plain_call_def intro!: exI [of _ "[Writel 0 (get_interrupt_enable_addr (sdev s))]"]
        exI [of _ "[Writel 0 (get_interrupt_enable_addr (sdev s)), x]" for x])
  then obtain tr where tr: "h = rev tr @ shist s" "\<forall>e \<in> set tr. plain_call e" by blast
  show ?thesis
    using assms(1) d tr(1) plain_ledger [OF tr(2), of "shist s"] lock_depth_runs [of "shist s" tr h] tr(2)
    by (intro keeps_ok) (simp_all add: sys_ok_def ledger_ok_def runs_def)
qed

lemma vma_open_ok:
  assumes "kref_ok K" "sys_ok R s" "v \<in> set (maps s)" "vma_private v' = vma_private v"
    "aclsoc_vma_open K v' (sdev s) = Some d" "length (maps s) < MAX_MAPS"
  shows "sys_ok R (s\<lparr>sdev := d, maps := v' # maps s\<rparr>)"
proof -
  let ?es = "addr_map_mem (sdev s)"
  have ok: "refs_ok ?es (maps s)" "ledger_ok ?es (shist s)" using assms(2) by (simp_all add: sys_ok_def)
  obtain i where i: "vma_private v = Some i" "i < length ?es" using ok(1) assms(3) by (auto simp: refs_ok_def)
  note sl = refs_ok_slot [OF ok(1) assms(3) i(1)]
  let ?e = "(?es ! i)\<lparr>ref := ref (?es ! i) + 1\<rparr>"
  have d: "d = set_slot (sdev s) i ?e"
    using assms(1,4,5) i by (auto simp: aclsoc_vma_open_def bind_Some_iff slot_def kref_ok_def split: if_splits)
  have "refs i (maps s) < MAX_MAPS" using refs_le [of i "maps s"] assms(6) by linarith
  then have "unat (ref (?es ! i) + 1) = Suc (refs i (maps s))"
    using sl(3) by (subst unat_add32) (simp_all add: MAX_MAPS_def)
  then have "counted ?e (refs i (v' # maps s))"
    using sl(2) assms(4) i(1) by (simp add: counted_def refs_Cons)
  then have "refs_ok (?es[i := ?e]) (v' # maps s)"
    using assms(4) i(1) by (intro refs_ok_update [OF ok(1) i(2), where v = v']) (auto simp: refs_Cons)
  moreover have "ledger_ok (?es[i := ?e]) (shist s)"
    using ok(2) ledger_ref [OF i(2), of ?e] by (simp add: ledger_ok_def elem_buf_def)
  ultimately show ?thesis using assms(2,6) by (simp add: sys_ok_def d)
qed

lemma ledger_ok_lock_depth:
  "free_map_info e h = (e', h') \<Longrightarrow> lock_depth h' = lock_depth h"
  by (auto simp: free_map_info_def dma_free_coherent_def split: if_splits)

lemma vma_close_ok:
  assumes "kref_ok K" "sys_ok R s" "v \<in> set (maps s)"
    "aclsoc_vma_close K v (sdev s) (shist s) = Some (d, h)"
  shows "sys_ok R \<lparr>sdev = d, shist = h, maps = remove1 v (maps s)\<rparr>"
proof -
  let ?es = "addr_map_mem (sdev s)" and ?ms = "remove1 v (maps s)"
  have ok: "refs_ok ?es (maps s)" "ledger_ok ?es (shist s)" using assms(2) by (simp_all add: sys_ok_def)
  obtain i where i: "vma_private v = Some i" "i < length ?es" using ok(1) assms(3) by (auto simp: refs_ok_def)
  note sl = refs_ok_slot [OF ok(1) assms(3) i(1)]
  let ?e = "(?es ! i)\<lparr>ref := ref (?es ! i) - 1\<rparr>"
  have n: "refs i (maps s) = Suc (refs i ?ms)" using refs_remove1 [OF assms(3), of i] i(1) by simp
  have len: "length ?ms \<le> MAX_MAPS" using assms(2) by (auto simp: sys_ok_def length_remove1)
  have others: "refs j ?ms = refs j (maps s)" if "j \<noteq> i" for j
    using refs_remove1 [OF assms(3), of j] i(1) that by simp
  have upd: "refs_ok (?es[i := e]) ?ms" if "counted e (refs i ?ms)" for e
    using that i(1) set_remove1_subset [of v "maps s"]
    by (intro refs_ok_update [OF ok(1) i(2) _ others, where v = v]) auto
  show ?thesis
  proof (cases "ref (?es ! i) = 1")
    case True
    obtain e' h1 where f: "free_map_info ?e (shist s) = (e', h1)" by force
    have d: "d = set_slot (sdev s) i e'" "h = h1"
      using assms(1,4) i f True
      by (auto simp: aclsoc_vma_close_def bind_Some_iff slot_def kref_ok_def aclsoc_release_mmap_memory_def
          split: if_splits)
    have "refs i ?ms = 0" using n sl(3) True by simp
    moreover have "vm_start e' = 0" using f by (auto simp: free_map_info_def split: if_splits)
    ultimately have "refs_ok (?es[i := e']) ?ms" by (intro upd) (simp add: counted_def)
    moreover have "ledger_ok (?es[i := e']) h1"
      using ledger_release [OF i(2) f sl(2) _ _ ok(2)] by (simp add: elem_buf_def)
    ultimately show ?thesis
      using assms(2) len d ledger_ok_lock_depth [OF f] by (simp add: sys_ok_def)
  next
    case False
    have d: "d = set_slot (sdev s) i ?e" "h = shist s"
      using assms(1,4) i False
      by (auto simp: aclsoc_vma_close_def bind_Some_iff slot_def kref_ok_def split: if_splits)
    have "unat (ref (?es ! i)) \<noteq> 1" using False by (metis unat_1 word_unat_eq_iff)
    then have "refs i ?ms \<noteq> 0" using n sl(3) by linarith
    moreover have "unat (ref (?es ! i) - 1) = refs i ?ms"
      using n sl(3) by (subst unat_sub) (auto simp: word_le_nat_alt)
    ultimately have "refs_ok (?es[i := ?e]) ?ms" using sl(2) by (intro upd) (simp add: counted_def)
    moreover have "ledger_ok (?es[i := ?e]) (shist s)"
      using ok(2) ledger_ref [OF i(2), of ?e] by (simp add: ledger_ok_def elem_buf_def)
    ultimately show ?thesis using assms(2) len d by (simp add: sys_ok_def)
  qed
qed

lemma used_prefix_free:
  assumes "length (used_prefix es) < length es"
  shows "vm_start (es ! length (used_prefix es)) = 0"
  using nth_length_takeWhile [of "\<lambda>e. vm_start e \<noteq> 0" es] assms by (simp add: used_prefix_def)

lemma mmap_ok:
  assumes "kref_ok K" "sys_ok R s" "aclsoc_mmap K v (sdev s) (shist s) = Some (r, v', d, h)"
    "vma_start v \<noteq> 0" "length (maps s) < MAX_MAPS"
  shows "sys_ok R \<lparr>sdev = d, shist = h, maps = (if r = 0 then v' # maps s else maps s)\<rparr>"
proof -
  let ?es = "addr_map_mem (sdev s)" and ?i = "length (used_prefix (addr_map_mem (sdev s)))"
  have ok: "dev_wf (sdev s)" "refs_ok ?es (maps s)" "ledger_ok ?es (shist s)"
    using assms(2) by (simp_all add: sys_ok_def)
  let ?sz = "vma_end v - vma_start v"
  obtain p dm where a: "ans_dma_alloc_coherent K (shist s) ?sz = (p, dm)" by force
  let ?h1 = "Dma_alloc_coherent ?sz p dm # shist s"
  let ?prot = "pgprot_noncached K (vma_page_prot v)"
  let ?r = "ans_remap_pfn_range K ?h1 (vma_start v) (drop_bit PAGE_SHIFT dm) ?sz ?prot"
  let ?h2 = "Remap_pfn_range (vma_start v) (drop_bit PAGE_SHIFT dm) ?sz ?prot ?r # ?h1"
  let ?e = "\<lparr>vm_start = vma_start v, map_size = ?sz, cpu_addr = p, dma_handle = dm, ref = kr_init K\<rparr>"
  note eq = assms(3) [unfolded aclsoc_mmap_eq [OF ok(1)] Let_def a prod.case]
  consider "r = - ENOMEM" "d = sdev s" "h = shist s"
    | "r = - ENOMEM" "d = sdev s" "h = ?h1" "p = 0"
    | "r = - EAGAIN" "d = sdev s" "h = ?h2" "p \<noteq> 0" "?r < 0"
    | "?i < MAX_ADDR_MAP_ENTRIES" "r = 0" "d = (sdev s)\<lparr>addr_map_mem := table_insert ?es ?e\<rparr>" "h = ?h2" "p \<noteq> 0" "\<not> ?r < 0"
      "vma_private v' = Some ?i"
    using eq used_prefix_full [of ?es] dev_wfD(3) [OF ok(1)]
    by (auto split: if_split_asm)
  then show ?thesis
  proof cases
    case 4
    have i: "?i < length ?es" using 4(1) dev_wfD(3) [OF ok(1)] by simp
    note free = used_prefix_free [OF i]
    have "refs ?i (maps s) = 0" using ok(2) i free by (auto simp: refs_ok_def counted_def)
    then have "counted ?e (refs ?i (v' # maps s))"
      using assms(1,4) 4(7) by (simp add: counted_def refs_Cons kref_ok_def)
    then have "refs_ok (?es[?i := ?e]) (v' # maps s)"
      using 4(7) by (intro refs_ok_update [OF ok(2) i, where v = v']) (auto simp: refs_Cons)
    moreover have "ledger_ok (?es[?i := ?e]) ?h2"
      using ok(3) 4(5,6) free assms(4)
      by (simp add: ledger_ok_def table_bufs_update [OF i] table_bufs_split [OF i] elem_buf_def)
    moreover have "dev_wf d" using ok(1) 4(3) by (simp add: dev_wf_def table_insert_def)
    ultimately show ?thesis
      using assms(2,5) 4(2-4) by (simp add: sys_ok_def table_insert_def)
  qed (use assms(2,5) in \<open>auto simp: sys_ok_def ledger_ok_def EAGAIN_def ENOMEM_def\<close>)
qed

subsection \<open>Every step keeps it\<close>

lemma step_ok:
  assumes "kref_ok K" "step K s t" "sys_ok R s"
  shows "sys_ok R t"
  using assms(2,3)
proof cases
  case (open_step pid cur r d h)
  then show ?thesis
    using open_contract [of "sdev s" K pid cur "shist s"] call_ok [OF assms(3)] assms(3)
    by (auto simp: sys_ok_def)
next
  case (close_step r d h)
  then show ?thesis
    using close_contract [of "sdev s" K "shist s"] call_ok [OF assms(3)] assms(3)
    by (auto simp: sys_ok_def)
next
  case (read_step buf r d h)
  then show ?thesis
    using rd.contract [of "sdev s" K buf "shist s"] call_ok [OF assms(3)] assms(3)
    by (auto simp: sys_ok_def)
next
  case (write_step buf r d h)
  then show ?thesis
    using wr.contract [of "sdev s" K buf "shist s"] call_ok [OF assms(3)] assms(3)
    by (auto simp: sys_ok_def)
next
  case (mmap_step v r v' d h)
  then show ?thesis using mmap_ok [OF assms(1,3)] by blast
next
  case (vma_open_step v v' d)
  then show ?thesis using vma_open_ok [OF assms(1,3)] by blast
next
  case (vma_close_step v d h)
  then show ?thesis using vma_close_ok [OF assms(1,3)] by blast
next
  case (irq_step r d h)
  then show ?thesis using irq_ok [OF assms(3)] by blast
qed

lemma reachable_ok: "reachable K s t \<Longrightarrow> kref_ok K \<Longrightarrow> sys_ok R s \<Longrightarrow> sys_ok R t"
  by (induction rule: reachable.induct) (auto intro: step_ok)

subsection \<open>No entry into the driver faults\<close>

lemma sys_ok_calls:
  assumes "sys_ok R s"
  shows "aclsoc_read K buf (sdev s) (shist s) \<noteq> None" "aclsoc_write K buf (sdev s) (shist s) \<noteq> None"
    "aclsoc_mmap K v (sdev s) (shist s) \<noteq> None" "free_contiguous_memory (sdev s) (shist s) \<noteq> None"
    "w \<in> set (maps s) \<Longrightarrow> aclsoc_vma_open K w (sdev s) \<noteq> None"
    "w \<in> set (maps s) \<Longrightarrow> aclsoc_vma_close K w (sdev s) (shist s) \<noteq> None"
proof -
  have wf: "dev_wf (sdev s)" and ok: "refs_ok (addr_map_mem (sdev s)) (maps s)"
    using assms by (simp_all add: sys_ok_def)
  show "aclsoc_read K buf (sdev s) (shist s) \<noteq> None" "aclsoc_write K buf (sdev s) (shist s) \<noteq> None"
    using rd.returns [OF wf] wr.returns [OF wf] by simp_all
  show "aclsoc_mmap K v (sdev s) (shist s) \<noteq> None"
    by (simp add: aclsoc_mmap_eq [OF wf] Let_def split: prod.splits)
  show "free_contiguous_memory (sdev s) (shist s) \<noteq> None"
    using free_from_props [OF wf, of 0 "shist s"] by (auto simp: free_contiguous_memory_def)
  assume w: "w \<in> set (maps s)"
  then obtain i where "vma_private w = Some i" "i < length (addr_map_mem (sdev s))"
    using ok by (auto simp: refs_ok_def)
  then show "aclsoc_vma_open K w (sdev s) \<noteq> None" "aclsoc_vma_close K w (sdev s) (shist s) \<noteq> None"
    using wf
    by (auto simp: aclsoc_vma_open_def aclsoc_vma_close_def slot_def dev_wf_def Let_def split: prod.splits)
qed

text \<open>What the ledger says when the driver is unloaded: only leaked buffers are still live.\<close>

lemma sys_ok_unload:
  assumes "sys_ok R s" "free_contiguous_memory (sdev s) (shist s) = Some (d, h)"
  shows "dma_live h = leaked (shist s)"
proof -
  have wf: "dev_wf (sdev s)" and l: "ledger_ok (addr_map_mem (sdev s)) (shist s)"
    using assms(1) by (simp_all add: sys_ok_def)
  show ?thesis
    using free_from_props [OF wf, of 0 "shist s"] assms(2) l
    by (auto simp: free_contiguous_memory_def ledger_ok_def)
qed

subsection \<open>From loading to unloading\<close>

definition loaded :: "aclsoc_dev \<Rightarrow> hist \<Rightarrow> sys" where
  "loaded d h = \<lparr>sdev = d, shist = h, maps = []\<rparr>"

lemma probe_fresh:
  assumes "aclsoc_probe K unloaded [] = (0, drv, h)" "aclsoc_obj drv = Some d" "addr_map d \<noteq> 0"
  shows "fresh (loaded d h)"
proof -
  obtain p am b r num cls dev p2 p0 d' where t: "runs [] (probe_trace K p am b r num cls dev p2 p0) h"
    and q: "probed drv d' p am b num cls p2 p0"
    using probe_ok [OF assms(1)] by blast
  have d: "d' = d" "am \<noteq> 0" using q assms(2,3) by (simp_all add: probed_def)
  have "\<forall>e \<in> set (addr_map_mem d). vm_start e = 0" using q d by (auto simp: probed_def)
  then show ?thesis
    using probed_wf [OF q d(2)] d(1) t
    by (simp add: fresh_def loaded_def runs_def probe_trace_def)
qed

lemma remove_ledger:
  assumes "sys_ok R s" "aclsoc drv \<noteq> 0"
  shows "\<exists>drv' h'. aclsoc_exit (drv\<lparr>aclsoc_obj := Some (sdev s)\<rparr>) (shist s) = Some (drv', h') \<and>
    aclsoc drv' = 0 \<and> dma_live h' = leaked (shist s)"
proof -
  have wf: "dev_wf (sdev s)" and l: "ledger_ok (addr_map_mem (sdev s)) (shist s)"
    using assms(1) by (simp_all add: sys_ok_def)
  let ?d = "sdev s"
  let ?h = "Kfree (buffer ?d) # Iounmap (mapped_region ?d 2) # Iounmap (mapped_region ?d 0) #
    Unregister_chrdev_region (cdev_num ?d) 1 # Cdev_del # Class_destroy (aclsoc_class drv) #
    Device_destroy (aclsoc_class drv) (cdev_num ?d) # release_irq ?d (shist s)"
  obtain d' h' where f: "free_from 0 ?d ?h = Some (d', h')"
    "dma_live h' = dma_live ?h - table_bufs (addr_map_mem ?d)"
    using free_from_props [OF wf, of 0 ?h] by auto
  have "dma_live ?h = dma_live (shist s)"
    by (simp add: release_irq_def mask_irq_def env_simps)
  then have "dma_live h' = leaked (shist s)" using f(2) l by (simp add: ledger_ok_def)
  then show ?thesis
    using f(1) assms(2)
    by (simp add: aclsoc_exit_def aclsoc_remove_def free_contiguous_memory_def kfree_def iounmap_def
        unregister_chrdev_region_def cdev_del_def class_destroy_def device_destroy_def)
qed

end
