(* ===== verification/Acl_Request.thy ===== *)
theory Acl_Request
  imports Acl_Lock
begin

section \<open>Whole requests\<close>

text \<open>
  \<open>read()\<close> and \<open>write()\<close> from the system call to the registers: a request is fetched
  under the lock, refused or carried out at the address its target gives, and its register
  accesses stay inside the mapped region.
\<close>

definition region_of :: "aclsoc_dev \<Rightarrow> target \<Rightarrow> ptr" where
  "region_of d t = (case t of GlobalMem \<Rightarrow> mapped_region d 0 | _ \<Rightarrow> mapped_region d 2)"

definition region_len :: "target \<Rightarrow> nat" where
  "region_len t = (case t of GlobalMem \<Rightarrow> 0x20000 | _ \<Rightarrow> 0x40000)"

text \<open>The request \<open>c\<close> arrives: the lock is free and the command is fetched completely.\<close>

definition arrives :: "kernel \<Rightarrow> ptr \<Rightarrow> hist \<Rightarrow> acl_cmd \<Rightarrow> bool" where
  "arrives K buf h c \<longleftrightarrow>
     ans_down K h = 0 \<and>
     fst (copy_from_user K buf (uninit K sizeof_acl_cmd (Down 0 # h)) (Down 0 # h)) = 0 \<and>
     fst (snd (copy_from_user K buf (uninit K sizeof_acl_cmd (Down 0 # h)) (Down 0 # h))) = encode_cmd c"

text \<open>What the calls of a request look like around its body.\<close>

definition request_trace :: "ptr \<Rightarrow> acl_cmd \<Rightarrow> kevent list \<Rightarrow> kevent list" where
  "request_trace buf c body = Down 0 # Copy_from_user buf (encode_cmd c) 0 # body @ [Up]"

lemma aclsoc_rw_arrives:
  assumes "arrives K buf h c" "bar_id c \<noteq> ACLPCI_CMD_BAR"
  shows "aclsoc_rw K buf reading d h =
    (case rw_request K reading c d (Copy_from_user buf (encode_cmd c) 0 # Down 0 # h) of
       None \<Rightarrow> None | Some (r, d, h) \<Rightarrow> Some (r, d, Up # h))"
proof -
  obtain left bs h1 where f: "copy_from_user K buf (uninit K sizeof_acl_cmd (Down 0 # h)) (Down 0 # h) = (left, bs, h1)"
    by (metis prod_cases3)
  then have "left = 0" "bs = encode_cmd c" "h1 = Copy_from_user buf (encode_cmd c) 0 # Down 0 # h"
    using assms(1) copy_from_user_length [OF f] by (simp_all add: arrives_def)
  with f assms show ?thesis
    by (simp add: aclsoc_rw_def down_interruptible_def up_def arrives_def Let_def split: option.split)
qed

lemma exec_cmd_arrives:
  assumes "arrives K buf h c" "bar_id c = ACLPCI_CMD_BAR"
  shows "aclsoc_rw K buf reading d h =
    (case aclsoc_exec_cmd K c (cmd_size c) d (Copy_from_user buf (encode_cmd c) 0 # Down 0 # h) of
       None \<Rightarrow> None | Some (r, d, h) \<Rightarrow> Some (r, d, Up # h))"
proof -
  obtain left bs h1 where f: "copy_from_user K buf (uninit K sizeof_acl_cmd (Down 0 # h)) (Down 0 # h) = (left, bs, h1)"
    by (metis prod_cases3)
  then have "left = 0" "bs = encode_cmd c" "h1 = Copy_from_user buf (encode_cmd c) 0 # Down 0 # h"
    using assms(1) copy_from_user_length [OF f] by (simp_all add: arrives_def)
  with f assms show ?thesis
    by (simp add: aclsoc_rw_def down_interruptible_def up_def arrives_def Let_def split: option.split)
qed

lemma rw_refused:
  assumes "dev_wf d" "no_wrap c" "rw_target c = Refused"
  shows "rw_request K reading c d h = Some (- EFAULT, d, h)"
  using request_addr_target [OF assms(2,1)] assms(3) by (simp add: rw_request_eq hw_consts)

lemma rw_accepted:
  assumes "dev_wf d" "no_wrap c" "rw_target c \<noteq> Refused"
  shows "rw_request K reading c d h =
    rw_move K reading False (region_of d (rw_target c) + device_addr c) (user_addr c) (cmd_size c) d h"
  using request_addr_target [OF assms(2,1)] assms(3)
  by (simp add: rw_request_eq region_of_def split: target.splits)

lemma read_request:
  assumes "dev_wf d" "arrives K buf h c" "bar_id c \<noteq> ACLPCI_CMD_BAR" "no_wrap c"
  shows "\<exists>r d' body. aclsoc_read K buf d h = Some (r, d', rev (request_trace buf c body) @ h) \<and> keeps d d' \<and>
    (if rw_target c = Refused then r = - EFAULT \<and> body = []
     else transfers_to_user (region_of d (rw_target c) + device_addr c) (user_addr c) (unat (cmd_size c)) r body)"
proof (cases "rw_target c = Refused")
  case True
  then show ?thesis
    using rw_refused [OF assms(1,4) True] aclsoc_rw_arrives [OF assms(2,3), of True d]
    by (intro exI [of _ "- EFAULT"] exI [of _ d] exI [of _ "[]"])
      (simp add: aclsoc_read_def request_trace_def)
next
  case False
  let ?h = "Copy_from_user buf (encode_cmd c) 0 # Down 0 # h"
  obtain r b tr where m: "rw_move K True False (region_of d (rw_target c) + device_addr c) (user_addr c)
      (cmd_size c) d ?h = Some (r, d\<lparr>buffer_mem := b\<rparr>, rev tr @ ?h)" "length b = BUF_SIZE"
    "transfers_to_user (region_of d (rw_target c) + device_addr c) (user_addr c) (unat (cmd_size c)) r tr"
    using rw_move_read [OF assms(1)] by blast
  have "aclsoc_read K buf d h = Some (r, d\<lparr>buffer_mem := b\<rparr>, rev (request_trace buf c tr) @ h)"
    using rw_accepted [OF assms(1,4) False, of K True] m(1) aclsoc_rw_arrives [OF assms(2,3), of True d]
    by (simp add: aclsoc_read_def request_trace_def)
  with m(2,3) False show ?thesis using buffer_mem_keeps by fastforce
qed

lemma write_request:
  assumes "dev_wf d" "arrives K buf h c" "bar_id c \<noteq> ACLPCI_CMD_BAR" "no_wrap c" "4 < cmd_size c \<or> cmd_size c = 3"
  shows "\<exists>r d' body. aclsoc_write K buf d h = Some (r, d', rev (request_trace buf c body) @ h) \<and> keeps d d' \<and>
    (if rw_target c = Refused then r = - EFAULT \<and> body = []
     else transfers_to_device (region_of d (rw_target c) + device_addr c) (user_addr c) (unat (cmd_size c)) r body)"
proof (cases "rw_target c = Refused")
  case True
  then show ?thesis
    using rw_refused [OF assms(1,4) True] aclsoc_rw_arrives [OF assms(2,3), of False d]
    by (intro exI [of _ "- EFAULT"] exI [of _ d] exI [of _ "[]"])
      (simp add: aclsoc_write_def request_trace_def)
next
  case False
  let ?h = "Copy_from_user buf (encode_cmd c) 0 # Down 0 # h"
  have sz: "cmd_size c \<noteq> 1" "cmd_size c \<noteq> 2" "cmd_size c \<noteq> 4" using assms(5) by auto
  obtain r b tr where m: "rw_move K False False (region_of d (rw_target c) + device_addr c) (user_addr c)
      (cmd_size c) d ?h = Some (r, d\<lparr>buffer_mem := b\<rparr>, rev tr @ ?h)" "length b = BUF_SIZE"
    "transfers_to_device (region_of d (rw_target c) + device_addr c) (user_addr c) (unat (cmd_size c)) r tr"
    using rw_move_write_large [OF assms(1) sz] by blast
  have "aclsoc_write K buf d h = Some (r, d\<lparr>buffer_mem := b\<rparr>, rev (request_trace buf c tr) @ h)"
    using rw_accepted [OF assms(1,4) False, of K False] m(1) aclsoc_rw_arrives [OF assms(2,3), of False d]
    by (simp add: aclsoc_write_def request_trace_def)
  with m(2,3) False show ?thesis using buffer_mem_keeps by fastforce
qed

subsection \<open>The registers stay in their region\<close>

definition touched :: "kevent list \<Rightarrow> ptr set" where
  "touched tr = fst ` set (moved dev_reads tr) \<union> fst ` set (moved dev_writes tr)"

lemma target_room:
  assumes "rw_target c \<noteq> Refused"
  shows "unat (device_addr c) + unat (cmd_size c) \<le> region_len (rw_target c)"
  using assms by (auto simp: rw_target_def region_len_def Let_def split: if_split_asm)

lemma region_len_lt: "region_len t < 2 ^ 32"
  by (simp add: region_len_def split: target.splits)

lemma placed_in_region:
  assumes "rw_target c \<noteq> Refused" "length bs \<le> unat (cmd_size c)"
    "x \<in> fst ` set (place (b + device_addr c) bs)"
  shows "in_region b (region_len (rw_target c)) x"
  using target_room [OF assms(1)] assms(2,3) region_len_lt
  by (intro place_in_region [of "device_addr c" bs]) auto

lemma transfers_touched:
  assumes "rw_target c \<noteq> Refused"
    "transfers reading (b + device_addr c) u (unat (cmd_size c)) r tr" "x \<in> touched tr"
  shows "in_region b (region_len (rw_target c)) x"
proof (cases reading)
  case True
  with assms(2) obtain ds rest where "moved dev_reads tr = place (b + device_addr c) (ds @ rest)"
    "moved dev_writes tr = []" and l: "rest = [] \<and> length ds = unat (cmd_size c) \<or>
      length (ds @ rest) \<le> unat (cmd_size c)"
    unfolding transfers_def transfers_to_user_def by auto
  moreover have "length (ds @ rest) \<le> unat (cmd_size c)" using l by auto
  ultimately have "\<exists>bs. moved dev_reads tr = place (b + device_addr c) bs \<and> moved dev_writes tr = [] \<and>
      length bs \<le> unat (cmd_size c)" by blast
  then obtain bs where "moved dev_reads tr = place (b + device_addr c) bs" "moved dev_writes tr = []"
    "length bs \<le> unat (cmd_size c)" by blast
  with assms(1,3) placed_in_region show ?thesis by (simp add: touched_def)
next
  case False
  with assms(2) obtain bs where "moved dev_writes tr = place (b + device_addr c) bs"
    "moved dev_reads tr = []" "length bs \<le> unat (cmd_size c)"
    unfolding transfers_def transfers_to_device_def by force
  with assms(1,3) placed_in_region show ?thesis by (simp add: touched_def)
qed

lemma move_touched:
  assumes "dev_wf d" "rw_target c \<noteq> Refused" "reading \<or> cmd_size c \<noteq> 2"
  shows "\<exists>r d' tr. rw_move K reading False (b + device_addr c) u (cmd_size c) d h = Some (r, d', rev tr @ h) \<and>
    (\<forall>x \<in> touched tr. in_region b (region_len (rw_target c)) x)"
proof (cases reading)
  case True
  with rw_move_read [OF assms(1), of K "b + device_addr c" u "cmd_size c" h] show ?thesis
    using transfers_touched [OF assms(2), where reading = True] by (auto simp: transfers_def)
next
  case reading: False
  show ?thesis
  proof (cases "cmd_size c = 1 \<or> cmd_size c = 4")
    case True
    obtain bs left e where w: "aclsoc_write_small K (b + device_addr c) u (cmd_size c) h =
        (if left \<noteq> 0 then - EFAULT else 0, rev [Copy_from_user u bs left, e] @ h)"
      "length bs = unat (cmd_size c)" "mmio_write e" "dev_writes e = place (b + device_addr c) bs"
      using write_small_trace [OF True] by blast
    have "touched [Copy_from_user u bs left, e] = fst ` set (place (b + device_addr c) bs)"
      using w(3,4) mmio_write_moves [OF w(3)] by (simp add: touched_def moved_def)
    moreover have "rw_move K reading False (b + device_addr c) u (cmd_size c) d h =
        Some (if left \<noteq> 0 then - EFAULT else 0, d, rev [Copy_from_user u bs left, e] @ h)"
      using w(1) True reading by (auto simp: rw_move_def)
    moreover have "\<forall>x \<in> touched [Copy_from_user u bs left, e]. in_region b (region_len (rw_target c)) x"
      using placed_in_region [OF assms(2), of bs _ b] w(2) calculation(1) by simp
    ultimately show ?thesis by blast
  next
    case False
    with reading assms(3) rw_move_write_large [OF assms(1), of "cmd_size c" K "b + device_addr c" u h]
    show ?thesis
      using transfers_touched [OF assms(2), where reading = False] by (auto simp: transfers_def)
  qed
qed

lemma request_touched:
  assumes "dev_wf d" "arrives K buf h c" "bar_id c \<noteq> ACLPCI_CMD_BAR" "no_wrap c" "reading \<or> cmd_size c \<noteq> 2"
  shows "\<exists>r d' tr. aclsoc_rw K buf reading d h = Some (r, d', rev tr @ h) \<and>
    (\<forall>x \<in> touched tr. in_region (region_of d (rw_target c)) (region_len (rw_target c)) x)"
proof (cases "rw_target c = Refused")
  case True
  then show ?thesis
    using rw_refused [OF assms(1,4) True] aclsoc_rw_arrives [OF assms(2,3), of reading d]
    by (intro exI [of _ "- EFAULT"] exI [of _ d] exI [of _ "request_trace buf c []"])
      (simp add: request_trace_def touched_def moved_def)
next
  case False
  let ?h = "Copy_from_user buf (encode_cmd c) 0 # Down 0 # h"
  obtain r d' tr where m: "rw_move K reading False (region_of d (rw_target c) + device_addr c) (user_addr c)
      (cmd_size c) d ?h = Some (r, d', rev tr @ ?h)"
    "\<forall>x \<in> touched tr. in_region (region_of d (rw_target c)) (region_len (rw_target c)) x"
    using move_touched [OF assms(1) False assms(5)] by blast
  have "aclsoc_rw K buf reading d h = Some (r, d', rev (request_trace buf c tr) @ h)"
    using rw_accepted [OF assms(1,4) False, of K reading] m(1) aclsoc_rw_arrives [OF assms(2,3), of reading d]
    by (simp add: request_trace_def)
  moreover have "touched (request_trace buf c tr) = touched tr"
    by (simp add: touched_def request_trace_def moved_def)
  ultimately show ?thesis using m(2) by metis
qed

text \<open>A request for a command the driver does not have.\<close>

lemma refused_command:
  assumes "arrives K buf h c" "bar_id c = ACLPCI_CMD_BAR" "command c \<notin> set supported_commands"
  shows "aclsoc_rw K buf reading d h = Some (- EFAULT, d, rev (request_trace buf c []) @ h)"
  by (simp add: exec_cmd_arrives [OF assms(1,2)] unsupported_command [OF assms(3)] request_trace_def)

end
