(* ===== verification/Driver_Ops.thy ===== *)
theory Driver_Ops
  imports Acl_Rw
begin

section \<open>The tables of operations\<close>

text \<open>
  What the driver registers with the kernel: the operations of the device file, which
  \<open>init_chrdev\<close> gives to the character device, and those of a mapping, which \<open>mmap()\<close> gives to
  the area. The kernel reaches the driver through these tables. An operation that faults has
  no result.
\<close>

type_synonym op_result = "(int \<times> aclsoc_dev \<times> hist) option"

record file_operations =
  op_read :: "kernel \<Rightarrow> ptr \<Rightarrow> aclsoc_dev \<Rightarrow> hist \<Rightarrow> op_result"
  op_write :: "kernel \<Rightarrow> ptr \<Rightarrow> aclsoc_dev \<Rightarrow> hist \<Rightarrow> op_result"
  op_open :: "kernel \<Rightarrow> int \<Rightarrow> ptr \<Rightarrow> aclsoc_dev \<Rightarrow> hist \<Rightarrow> op_result"
  op_release :: "kernel \<Rightarrow> aclsoc_dev \<Rightarrow> hist \<Rightarrow> op_result"
  op_mmap :: "kernel \<Rightarrow> vma \<Rightarrow> aclsoc_dev \<Rightarrow> hist \<Rightarrow> (int \<times> vma \<times> aclsoc_dev \<times> hist) option"

record vm_operations =
  vm_open :: "kernel \<Rightarrow> vma \<Rightarrow> aclsoc_dev \<Rightarrow> hist \<Rightarrow> (aclsoc_dev \<times> hist) option"
  vm_close :: "kernel \<Rightarrow> vma \<Rightarrow> aclsoc_dev \<Rightarrow> hist \<Rightarrow> (aclsoc_dev \<times> hist) option"

definition aclsoc_fileops :: file_operations where
  "aclsoc_fileops =
     \<lparr>op_read = aclsoc_read, op_write = aclsoc_write,
      op_open = (\<lambda>K pid current d h. Some (aclsoc_open K pid current d h)),
      op_release = (\<lambda>K d h. Some (aclsoc_close K d h)), op_mmap = aclsoc_mmap\<rparr>"

definition aclsoc_vm_ops :: vm_operations where
  "aclsoc_vm_ops =
     \<lparr>vm_open = (\<lambda>K v d h. map_option (\<lambda>d. (d, h)) (aclsoc_vma_open K v d)),
      vm_close = aclsoc_vma_close\<rparr>"

lemma aclsoc_ops [simp]:
  "op_read aclsoc_fileops = aclsoc_read" "op_write aclsoc_fileops = aclsoc_write"
  "op_open aclsoc_fileops K pid cur d h = Some (aclsoc_open K pid cur d h)"
  "op_release aclsoc_fileops K d h = Some (aclsoc_close K d h)" "op_mmap aclsoc_fileops = aclsoc_mmap"
  "vm_close aclsoc_vm_ops = aclsoc_vma_close"
  by (simp_all add: aclsoc_fileops_def aclsoc_vm_ops_def)

end
