(* ===== verification/User_Machine.thy ===== *)
theory User_Machine
  imports User_Test Acl_System Acl_Request Driver_Ops
begin

section \<open>A machine running the driver and one process\<close>

text \<open>
  The machine the programs of the repository run on: the private memory of a process, the
  physical memory of the processor, the memory behind the bridges, the driver's device, the
  mappings of the process and its open files. A system call on the device file runs the operation
  of the driver in the environment of \<^const>\<open>ram_kernel\<close>, where user memory is what the process sees: its
  private memory, or the physical memory behind a mapping. The machine is an instance of
  \<open>memory_board\<close>. Mappings are whole areas; they are not split.

  The tables of operations are a parameter; \<open>driver_io\<close> and its companions are the machine with
  the tables of the modelled driver. What the kernel decides (the addresses of new mappings, the
  descriptors of opened files, the answers to the driver) is a parameter, the record \<open>system\<close>.
\<close>

record mapping =
  area :: vma
  phys :: ptr

record machine =
  pmem :: mem
  ram :: mem
  bmem :: mem
  mdev :: aclsoc_dev
  pages :: "mapping list"
  files :: "int \<Rightarrow> string option"
  shell :: "string list"

record system =
  sy_kernel :: kernel
  sy_map_addr :: "mapping list \<Rightarrow> u32 \<Rightarrow> ptr"
  sy_map_prot :: u32
  sy_open :: "string \<Rightarrow> int"
  sy_pid :: int
  sy_task :: ptr

definition board_file :: string where "board_file = ''/dev/acl''"
definition mem_file :: string where "mem_file = ''/dev/mem''"

subsection \<open>The memory a process sees\<close>

definition covers :: "ptr \<Rightarrow> mapping \<Rightarrow> bool" where
  "covers a p \<longleftrightarrow> a - vma_start (area p) < vma_end (area p) - vma_start (area p)"

definition phys_of :: "mapping \<Rightarrow> ptr \<Rightarrow> ptr" where
  "phys_of p a = phys p + (a - vma_start (area p))"

definition view :: "machine \<Rightarrow> mem" where
  "view m = (\<lambda>a. case find (covers a) (pages m) of
     None \<Rightarrow> pmem m a | Some p \<Rightarrow> ram m (phys_of p a))"

definition poke_byte :: "ptr \<times> u8 \<Rightarrow> machine \<Rightarrow> machine" where
  "poke_byte w m = (case find (covers (fst w)) (pages m) of
     None \<Rightarrow> m\<lparr>pmem := (pmem m)(fst w := snd w)\<rparr>
   | Some p \<Rightarrow> m\<lparr>ram := (ram m)(phys_of p (fst w) := snd w)\<rparr>)"

definition poke_bytes :: "(ptr \<times> u8) list \<Rightarrow> machine \<Rightarrow> machine" where
  "poke_bytes ws m = fold poke_byte ws m"

lemma poke_byte_fields [simp]:
  "bmem (poke_byte w m) = bmem m" "mdev (poke_byte w m) = mdev m" "pages (poke_byte w m) = pages m"
  "files (poke_byte w m) = files m" "shell (poke_byte w m) = shell m"
  by (simp_all add: poke_byte_def split: option.split)

lemma poke_bytes_fields [simp]:
  "bmem (poke_bytes ws m) = bmem m" "mdev (poke_bytes ws m) = mdev m" "pages (poke_bytes ws m) = pages m"
  "files (poke_bytes ws m) = files m" "shell (poke_bytes ws m) = shell m"
  unfolding poke_bytes_def by (induction ws arbitrary: m) simp_all

text \<open>With one mapping at most, no two addresses of the process are the same byte.\<close>

lemma view_poke_byte:
  assumes "length (pages m) \<le> 1"
  shows "view (poke_byte w m) = (view m)(fst w := snd w)"
proof -
  consider "pages m = []" | p where "pages m = [p]"
    using assms by (cases "pages m") auto
  then show ?thesis
    by cases (auto simp: view_def poke_byte_def phys_of_def fun_eq_iff)
qed

lemma view_poke_bytes:
  "length (pages m) \<le> 1 \<Longrightarrow> view (poke_bytes ws m) = apply_writes ws (view m)"
  unfolding poke_bytes_def
proof (induction ws arbitrary: m)
  case (Cons w ws)
  then show ?case by (simp add: view_poke_byte apply_writes_def split_beta)
qed simp

subsection \<open>System calls\<close>

text \<open>After a call of the driver the process sees what it copied out.\<close>

definition after_call :: "machine \<Rightarrow> (int \<times> aclsoc_dev \<times> hist) option \<Rightarrow> (int \<times> machine) option" where
  "after_call m res =
     map_option (\<lambda>(r, d, h).
       (r, (poke_bytes (moved user_writes (rev h)) m)\<lparr>bmem := dev_view (bmem m) h, mdev := d\<rparr>)) res"

definition kernel_of :: "kernel \<Rightarrow> machine \<Rightarrow> kernel" where
  "kernel_of K m = ram_kernel K (view m) (bmem m)"

definition dev_io :: "file_operations \<Rightarrow> kernel \<Rightarrow> machine io" where
  "dev_io F K =
     \<lparr>sys_read = (\<lambda>fd buf n m.
        if files m fd = Some board_file then after_call m (op_read F (kernel_of K m) buf (mdev m) [])
        else Some (- 1, m)),
      sys_write = (\<lambda>fd buf n m.
        if files m fd = Some board_file then after_call m (op_write F (kernel_of K m) buf (mdev m) [])
        else Some (- 1, m)),
      peek = view, poke = (\<lambda>p bs. poke_bytes (place p bs))\<rparr>"

text \<open>The mappings that calls of \<open>remap_pfn_range()\<close> establish.\<close>

definition remapped :: "vma \<Rightarrow> hist \<Rightarrow> mapping list" where
  "remapped v h = concat (map (\<lambda>e. case e of
     Remap_pfn_range a pfn n prot r \<Rightarrow>
       (if r < 0 then [] else [\<lparr>area = v, phys = push_bit PAGE_SHIFT pfn\<rparr>])
   | _ \<Rightarrow> []) h)"

definition MAP_FAILED :: ptr where "MAP_FAILED = - 1"

definition dev_map_file ::
  "file_operations \<Rightarrow> system \<Rightarrow> int \<Rightarrow> u32 \<Rightarrow> u32 \<Rightarrow> machine \<Rightarrow> (ptr \<times> machine) option" where
  "dev_map_file F S fd n off m =
     (let a = sy_map_addr S (pages m) n;
          v = \<lparr>vma_start = a, vma_end = a + n, vma_page_prot = sy_map_prot S, vma_ops = False,
               vma_private = None\<rparr>
      in if files m fd = Some board_file then
           map_option (\<lambda>(r, v, d, h).
             if r < 0 then (MAP_FAILED, m\<lparr>mdev := d\<rparr>)
             else (a, m\<lparr>mdev := d, pages := remapped v h @ pages m\<rparr>))
             (op_mmap F (kernel_of (sy_kernel S) m) v (mdev m) [])
         else if files m fd = Some mem_file then
           Some (a, m\<lparr>pages := \<lparr>area = v, phys = off\<rparr> # pages m\<rparr>)
         else Some (MAP_FAILED, m))"

definition dev_unmap :: "vm_operations \<Rightarrow> system \<Rightarrow> ptr \<Rightarrow> u32 \<Rightarrow> machine \<Rightarrow> machine option" where
  "dev_unmap V S a n m =
     (case find (\<lambda>p. vma_start (area p) = a) (pages m) of
        None \<Rightarrow> Some m
      | Some p \<Rightarrow>
          if vma_ops (area p) then
            map_option (\<lambda>(d, h). m\<lparr>mdev := d, pages := remove1 p (pages m)\<rparr>)
              (vm_close V (kernel_of (sy_kernel S) m) (area p) (mdev m) [])
          else Some (m\<lparr>pages := remove1 p (pages m)\<rparr>))"

text \<open>\<open>open()\<close> and \<open>close()\<close> of the driver always have a result, as is shown below.\<close>

definition dev_open_file :: "file_operations \<Rightarrow> system \<Rightarrow> string \<Rightarrow> machine \<Rightarrow> int \<times> machine" where
  "dev_open_file F S name m =
     (let fd = sy_open S name
      in if fd < 0 then (- 1, m)
         else if name = board_file then
           case op_open F (kernel_of (sy_kernel S) m) (sy_pid S) (sy_task S) (mdev m) [] of
             None \<Rightarrow> (- 1, m)
           | Some (r, d, h) \<Rightarrow>
               if r < 0 then (- 1, m\<lparr>mdev := d\<rparr>)
               else (fd, m\<lparr>mdev := d, files := (files m)(fd := Some name)\<rparr>)
         else (fd, m\<lparr>files := (files m)(fd := Some name)\<rparr>))"

text \<open>A mapping keeps its file open.\<close>

definition dev_close_file :: "file_operations \<Rightarrow> system \<Rightarrow> int \<Rightarrow> machine \<Rightarrow> machine" where
  "dev_close_file F S fd m =
     (let m' = m\<lparr>files := (files m)(fd := None)\<rparr>
      in if files m fd = Some board_file \<and> \<not> list_ex (\<lambda>p. vma_ops (area p)) (pages m)
         then case op_release F (kernel_of (sy_kernel S) m) (mdev m) [] of
             None \<Rightarrow> m' | Some (r, d, h) \<Rightarrow> m'\<lparr>mdev := d\<rparr>
         else m')"

text \<open>The machine with the modelled driver in its kernel.\<close>

abbreviation driver_io where "driver_io \<equiv> dev_io aclsoc_fileops"
abbreviation map_file where "map_file \<equiv> dev_map_file aclsoc_fileops"
abbreviation unmap where "unmap \<equiv> dev_unmap aclsoc_vm_ops"
abbreviation open_file where "open_file \<equiv> dev_open_file aclsoc_fileops"
abbreviation close_file where "close_file \<equiv> dev_close_file aclsoc_fileops"

definition shell_command :: "string \<Rightarrow> machine \<Rightarrow> machine" where
  "shell_command c m = m\<lparr>shell := c # shell m\<rparr>"

subsection \<open>The driver is a board with memory\<close>

definition global_mem :: "machine \<Rightarrow> mem" where
  "global_mem m = (\<lambda>a. bmem m (mapped_region (mdev m) 0 + a))"

definition board_open :: "int \<Rightarrow> machine \<Rightarrow> bool" where
  "board_open fd m \<longleftrightarrow> dev_wf (mdev m) \<and> length (pages m) \<le> 1 \<and> files m fd = Some board_file"

lemma target_fits:
  assumes "rw_target c = GlobalMem"
  shows "no_wrap c" "bar_id c \<noteq> ACLPCI_CMD_BAR"
  using assms by (auto simp: rw_target_def no_wrap_def Let_def hw_consts split: if_split_asm)

lemma after_call_view:
  assumes "length (pages m) \<le> 1"
  shows "\<exists>m'. after_call m (Some (r, d, h)) = Some (r, m') \<and> view m' = user_view (view m) h \<and>
    bmem m' = dev_view (bmem m) h \<and> mdev m' = d \<and> pages m' = pages m \<and> files m' = files m \<and>
    shell m' = shell m"
proof -
  have "view (m\<lparr>bmem := b, mdev := d\<rparr>) = view m" for m b d by (simp add: view_def cong: option.case_cong)
  with view_poke_bytes [OF assms] show ?thesis
    by (simp add: after_call_def user_view_def)
qed

text \<open>What the calls on the device file keep.\<close>

definition board_state ::
  "int \<Rightarrow> mapping list \<Rightarrow> addr_map_elem list \<Rightarrow> string list \<Rightarrow> machine \<Rightarrow> bool" where
  "board_state fd ps es sh m \<longleftrightarrow>
     board_open fd m \<and> pages m = ps \<and> addr_map_mem (mdev m) = es \<and> shell m = sh"

lemma board_stateI:
  "board_open fd m \<Longrightarrow> board_state fd (pages m) (addr_map_mem (mdev m)) (shell m) m"
  by (simp add: board_state_def)

lemma board_write:
  assumes "board_state fd ps es sh m" "load (view m) buf sizeof_acl_cmd = encode_cmd c"
    "bar_id c \<noteq> ACLPCI_CMD_BAR" "no_wrap c" "rw_target c \<noteq> Refused"
  shows "\<exists>m'. sys_write (driver_io K) fd buf n m = Some (0, m') \<and> board_state fd ps es sh m' \<and>
    view m' = view m \<and> mapped_region (mdev m') = mapped_region (mdev m) \<and>
    bmem m' = store (region_of (mdev m) (rw_target c) + device_addr c)
      (load (view m) (user_addr c) (stored_bytes (cmd_size c))) (bmem m)"
proof -
  have wf: "dev_wf (mdev m)" and n: "length (pages m) \<le> 1" and f: "files m fd = Some board_file"
    using assms(1) by (auto simp: board_open_def board_state_def)
  have b: "backed (kernel_of K m) (view m) (bmem m)" unfolding kernel_of_def by (rule backed_ram)
  have a: "request_addr c (mdev m) = (region_of (mdev m) (rw_target c) + device_addr c, 0)"
    using request_addr_target [OF assms(4) wf] assms(5) by (simp add: region_of_def split: target.splits)
  obtain d h where "aclsoc_write (kernel_of K m) buf (mdev m) [] = Some (0, d, h)" "keeps (mdev m) d"
    "user_view (view m) h = view m"
    "dev_view (bmem m) h = store (region_of (mdev m) (rw_target c) + device_addr c)
       (load (view m) (user_addr c) (stored_bytes (cmd_size c))) (bmem m)"
    using aclsoc_write_backed [OF wf b _ _ assms(3) a, of "[]" buf] assms(2) by auto
  with after_call_view [OF n, of 0 d h] show ?thesis
    using assms(1) f by (auto simp: dev_io_def board_state_def board_open_def keeps_def)
qed

interpretation board: memory_board "driver_io K" fd "board_state fd ps es sh" global_mem
  for K fd ps es sh
proof
  fix w :: machine and p bs
  assume o: "board_state fd ps es sh w"
  then show "board_state fd ps es sh (poke (driver_io K) p bs w)"
    "global_mem (poke (driver_io K) p bs w) = global_mem w"
    "peek (driver_io K) (poke (driver_io K) p bs w) = store p bs (peek (driver_io K) w)"
    by (auto simp: dev_io_def global_mem_def board_open_def board_state_def view_poke_bytes store_def)
next
  fix w :: machine and buf c
  let ?K = "kernel_of K w"
  assume o: "board_state fd ps es sh w" and "load (peek (driver_io K) w) buf sizeof_acl_cmd = encode_cmd c"
    and t: "rw_target c = GlobalMem"
  then have c: "load (user_view (view w) []) buf sizeof_acl_cmd = encode_cmd c"
    and wf: "dev_wf (mdev w)" and n: "length (pages w) \<le> 1" and f: "files w fd = Some board_file"
    by (auto simp: dev_io_def board_open_def board_state_def)
  have a: "request_addr c (mdev w) = (mapped_region (mdev w) 0 + device_addr c, 0)"
    using request_addr_target [OF target_fits(1) [OF t] wf] t by simp
  have b: "backed ?K (view w) (bmem w)" unfolding kernel_of_def by (rule backed_ram)
  note k = wf b answered.simps(1) [THEN iffD2, OF TrueI] c target_fits(2) [OF t] a
  from aclsoc_read_backed [OF k] obtain d h where r: "aclsoc_read ?K buf (mdev w) [] = Some (0, d, h)"
    "keeps (mdev w) d" "dev_view (bmem w) h = bmem w"
    "user_view (view w) h = store (user_addr c)
       (load (bmem w) (mapped_region (mdev w) 0 + device_addr c) (unat (cmd_size c))) (view w)"
    by auto
  with after_call_view [OF n, of 0 d h]
  show "\<exists>w'. sys_read (driver_io K) fd buf (of_nat sizeof_acl_cmd) w = Some (0, w') \<and>
      board_state fd ps es sh w' \<and> global_mem w' = global_mem w \<and>
      peek (driver_io K) w' = store (user_addr c)
        (load (global_mem w) (device_addr c) (unat (cmd_size c))) (peek (driver_io K) w)"
    using o by (auto simp: dev_io_def board_open_def board_state_def global_mem_def load_shift keeps_def)
  have "rw_target c \<noteq> Refused" using t by simp
  from board_write [OF o _ target_fits(2,1) [OF t] this, of buf K "of_nat sizeof_acl_cmd"]
  show "\<exists>w'. sys_write (driver_io K) fd buf (of_nat sizeof_acl_cmd) w = Some (0, w') \<and>
      board_state fd ps es sh w' \<and> peek (driver_io K) w' = peek (driver_io K) w \<and>
      global_mem w' = store (device_addr c)
        (load (peek (driver_io K) w) (user_addr c) (stored_bytes (cmd_size c))) (global_mem w)"
    using c t f by (auto simp: dev_io_def global_mem_def store_shift region_of_def)
qed

interpretation regs: register_board "driver_io K" fd "board_state fd ps es sh" global_mem
  for K fd ps es sh
proof
  fix w :: machine and buf c
  assume o: "board_state fd ps es sh w" and l: "load (peek (driver_io K) w) buf sizeof_acl_cmd = encode_cmd c"
    and bar: "bar_id c \<noteq> ACLPCI_CMD_BAR" and t: "rw_target c = Control"
  have "no_wrap c" "rw_target c \<noteq> Refused"
    using t by (auto simp: rw_target_def no_wrap_def Let_def hw_consts split: if_split_asm)
  have "files w fd = Some board_file" using o by (simp add: board_state_def board_open_def)
  with \<open>no_wrap c\<close> \<open>rw_target c \<noteq> Refused\<close> board_write [OF o _ bar, of buf K "of_nat sizeof_acl_cmd"] l
  show "\<exists>w'. sys_write (driver_io K) fd buf (of_nat sizeof_acl_cmd) w = Some (0, w') \<and>
      board_state fd ps es sh w' \<and> peek (driver_io K) w' = peek (driver_io K) w"
    by (auto simp: dev_io_def)
qed

end
