(* ===== verification/User_Main.thy ===== *)
theory User_Main
  imports User_Machine
begin

section \<open>The tester's mapped buffer, its dump and its main program (user.c)\<close>

text \<open>
  The rest of \<open>user.c\<close>: \<open>test_mmap\<close>, which maps a buffer of seven megabytes, fills it, asks the
  driver for its bus address and reads it again through \<^verbatim>\<open>/dev/mem\<close>; \<open>dump_ddr\<close>; and
  \<open>main\<close>. The other system calls a process makes are the record \<open>proc\<close>. An access through
  \<open>MAP_FAILED\<close> is a fault, \<^const>\<open>None\<close>. The pointer \<open>mem\<close> of \<open>test_mmap\<close>, whose address the
  command takes, is stored at its place in memory and used from there by the driver; the test
  itself uses the value it stored. The text they print is not modelled, except for the
  words of the dump.
\<close>

record 'w proc =
  base :: "'w io"
  sys_open :: "string \<Rightarrow> 'w \<Rightarrow> int \<times> 'w"
  sys_close :: "int \<Rightarrow> 'w \<Rightarrow> 'w"
  sys_mmap :: "int \<Rightarrow> u32 \<Rightarrow> u32 \<Rightarrow> 'w \<Rightarrow> (ptr \<times> 'w) option"
  sys_munmap :: "ptr \<Rightarrow> u32 \<Rightarrow> 'w \<Rightarrow> 'w option"
  run_shell :: "string \<Rightarrow> 'w \<Rightarrow> 'w"

record mframe =
  mcmd_at :: ptr
  mem_at :: ptr
  phys_at :: ptr
  seg_at :: ptr

subsection \<open>The mapped buffer\<close>

primrec fill_bytes :: "'w io \<Rightarrow> ptr \<Rightarrow> nat \<Rightarrow> 'w \<Rightarrow> 'w" where
  "fill_bytes io a 0 w = w"
| "fill_bytes io a (Suc n) w = poke io (a + of_nat n) [of_nat n] (fill_bytes io a n w)"

definition bytes_match :: "'w io \<Rightarrow> ptr \<Rightarrow> nat \<Rightarrow> 'w \<Rightarrow> bool" where
  "bytes_match io a n w = list_all (\<lambda>i. peek io w (a + of_nat i) = of_nat i) [0..<n]"

definition buffer_size :: nat where "buffer_size = 7 * 1024 * 1024"

definition phys_cmd :: "mframe \<Rightarrow> acl_cmd" where
  "phys_cmd fr =
     \<lparr>bar_id = ACLPCI_CMD_BAR, command = ACLPCI_CMD_GET_PHYS_PTR_FROM_VIRT,
      device_addr = phys_at fr, user_addr = mem_at fr, cmd_size = 0, is_diff_endian = 0\<rparr>"

definition test_mmap :: "'w proc \<Rightarrow> mframe \<Rightarrow> int \<Rightarrow> 'w \<Rightarrow> 'w option" where
  "test_mmap P fr f w = do {
     let io = base P;
     let size = of_nat buffer_size;
     let w = poke io (phys_at fr) (bytes_u32 0) w;
     (buf, w) \<leftarrow> sys_mmap P f size 0 w;
     let w = poke io (mem_at fr) (bytes_u32 buf) w;
     if buf = MAP_FAILED then None else do {
     let w = fill_bytes io buf buffer_size w;
     if \<not> bytes_match io buf buffer_size w then None else do {
     let w = poke io (mcmd_at fr) (encode_cmd (phys_cmd fr)) w;
     (r, w) \<leftarrow> sys_write io f (mcmd_at fr) (of_nat sizeof_acl_cmd) w;
     let phys_addr = u32_bytes (load (peek io w) (phys_at fr) 4);
     let (mem_fd, w) = sys_open P mem_file w;
     (p, w) \<leftarrow> sys_mmap P mem_fd size phys_addr w;
     if p = MAP_FAILED then None else do {
     let ok = bytes_match io p buffer_size w;
     w \<leftarrow> sys_munmap P p size w;
     let w = sys_close P mem_fd w;
     if \<not> ok then None else sys_munmap P buf size w
     }}}
   }"

subsection \<open>The dump\<close>

primrec dump_words :: "'w io \<Rightarrow> frame \<Rightarrow> int \<Rightarrow> ptr \<Rightarrow> nat \<Rightarrow> 'w \<Rightarrow> (u32 list \<times> 'w) option" where
  "dump_words io fr f a 0 w = Some ([], w)"
| "dump_words io fr f a (Suc n) w = do {
     (r, w) \<leftarrow> read_uint io fr f 0 a w;
     (rs, w) \<leftarrow> dump_words io fr f (a + 1) n w;
     Some (r # rs, w)
   }"

definition dump_ddr :: "'w io \<Rightarrow> frame \<Rightarrow> mframe \<Rightarrow> int \<Rightarrow> 'w \<Rightarrow> (u32 list \<times> 'w) option" where
  "dump_ddr io fr mf f w = do {
     let addr_start = 0;
     let len = 0x0120;
     let w = poke io (seg_at mf) (bytes_u32 0x10000 @ bytes_u32 0) w;
     (r, w) \<leftarrow> write_mem io fr f 2 0xc870 (seg_at mf) 8 w;
     dump_words io fr f (0x10000 + of_nat addr_start) (len - addr_start - addr_start) w
   }"

subsection \<open>The main program\<close>

definition user_main :: "'w proc \<Rightarrow> frame \<Rightarrow> frame \<Rightarrow> mframe \<Rightarrow> 'w \<Rightarrow> (int \<times> 'w) option" where
  "user_main P fr fr' mf w = do {
     let (f, w) = sys_open P board_file w;
     if f = - 1 then Some (0, w) else do {
     let w = run_shell P ''echo 1 > /sys/class/fpga-bridge/fpga2hps/enable'' w;
     let w = run_shell P ''echo 1 > /sys/class/fpga-bridge/hps2fpga/enable'' w;
     let w = run_shell P ''echo 1 > /sys/class/fpga-bridge/lwhps2fpga/enable'' w;
     w \<leftarrow> test_small_writes (base P) fr f w;
     (differing, w) \<leftarrow> test_page_write (base P) fr' f w;
     w \<leftarrow> test_mmap P mf f w;
     Some (0, sys_close P f w)
     }
   }"

subsection \<open>On any board\<close>

context memory_board
begin

lemma fill_bytes_ok: "ok w \<Longrightarrow> ok (fill_bytes io a n w)"
  by (induction n) (simp_all add: ok_poke)

text \<open>Filling is one store.\<close>

lemma peek_fill_bytes:
  "ok w \<Longrightarrow> peek io (fill_bytes io a n w) = store a (map of_nat [0..<n]) (peek io w)"
proof (induction n)
  case (Suc n)
  then show ?case
    by (simp add: peek_poke fill_bytes_ok store_def apply_writes_def place_append)
qed (simp add: store_def)

lemma fill_bytes_matches:
  assumes "ok w" "n \<le> 2 ^ 31"
  shows "bytes_match io a n (fill_bytes io a n w)"
proof -
  have "load (peek io (fill_bytes io a n w)) a n = map of_nat [0..<n]"
    using load_store [of "map of_nat [0..<n]" a "peek io w"] assms by (simp add: peek_fill_bytes)
  then show ?thesis by (simp add: bytes_match_def load_def list_all_iff)
qed

text \<open>The dump reads the words at consecutive addresses and changes nothing on the board.\<close>

lemma dump_words_reads:
  assumes "ok w" "0x10000 \<le> unat a" "unat a + n + 4 \<le> 0x20000"
  shows "\<exists>w'. dump_words io fr fd a n w =
      Some (map (\<lambda>i. u32_bytes (load (gmem w) (a + of_nat i) 4)) [0..<n], w') \<and> ok w' \<and> gmem w' = gmem w"
  using assms
proof (induction n arbitrary: a w)
  case (Suc n)
  have a1: "unat (a + 1) = unat a + 1"
    using unat_offset [of a 1] Suc.prems(3) by simp
  have t: "rw_target (mk_cmd 0 a (val_at fr) 4) = GlobalMem"
    using Suc.prems(2,3) by (simp add: rw_target_def mk_cmd_def)
  obtain w1 where w1: "sys_read io fd (cmd_at fr) (of_nat sizeof_acl_cmd)
      (poke io (cmd_at fr) (encode_cmd (mk_cmd 0 a (val_at fr) 4)) w) = Some (0, w1)"
    "ok w1" "gmem w1 = gmem w" "load (peek io w1) (val_at fr) 4 = load (gmem w) a 4"
    using read_val [OF Suc.prems(1) t] by auto
  from Suc.IH [of w1 "a + 1"] w1(2) Suc.prems(2,3) a1 obtain w2 where w2:
    "dump_words io fr fd (a + 1) n w1 =
      Some (map (\<lambda>i. u32_bytes (load (gmem w1) (a + 1 + of_nat i) 4)) [0..<n], w2)"
    "ok w2" "gmem w2 = gmem w1" by auto
  have "[0..<Suc n] = 0 # map Suc [0..<n]" by (simp add: map_Suc_upt upt_conv_Cons del: upt_Suc)
  then show ?case using w1 w2 by (simp add: read_uint_def add_ac del: upt_Suc)
qed simp

end


context register_board
begin

lemma dump_ddr_reads:
  assumes "ok w"
  shows "\<exists>w1 w2. write_mem io fr fd 2 0xc870 (seg_at mf) 8
        (poke io (seg_at mf) (bytes_u32 0x10000 @ bytes_u32 0) w) = Some (0, w1) \<and>
    dump_ddr io fr mf fd w =
      Some (map (\<lambda>i. u32_bytes (load (gmem w1) (0x10000 + of_nat i) 4)) [0..<0x120], w2) \<and>
    ok w2 \<and> gmem w2 = gmem w1"
proof -
  have "rw_target (mk_cmd 2 0xc870 (seg_at mf) 8) = Control" by (simp add: rw_target_def mk_cmd_def)
  from write_reg [OF ok_poke [OF assms] this, of fr] obtain w1 where
    "write_mem io fr fd 2 0xc870 (seg_at mf) 8
        (poke io (seg_at mf) (bytes_u32 0x10000 @ bytes_u32 0) w) = Some (0, w1)" "ok w1" by (auto simp: hw_consts)
  with dump_words_reads [of w1 "0x10000" "0x120" fr] show ?thesis by (auto simp: dump_ddr_def Let_def)
qed

end

subsection \<open>The same on the machine\<close>

definition dev_proc :: "file_operations \<Rightarrow> vm_operations \<Rightarrow> system \<Rightarrow> machine proc" where
  "dev_proc F V S =
     \<lparr>base = dev_io F (sy_kernel S), sys_open = dev_open_file F S, sys_close = dev_close_file F S,
      sys_mmap = dev_map_file F S, sys_munmap = dev_unmap V S, run_shell = shell_command\<rparr>"

abbreviation board_proc where "board_proc \<equiv> dev_proc aclsoc_fileops aclsoc_vm_ops"

text \<open>The command that asks for a bus address, on memory that keeps what is stored.\<close>

lemma phys_query_backed:
  assumes "dev_wf d" "backed K um dm" "load um buf sizeof_acl_cmd = encode_cmd c"
    "bar_id c = ACLPCI_CMD_BAR" "command c = ACLPCI_CMD_GET_PHYS_PTR_FROM_VIRT"
    "table_lookup (addr_map_mem d) (u32_bytes (load um (user_addr c) 4)) = Some e"
  shows "\<exists>h. aclsoc_write K buf d [] = Some (0, d, h) \<and> dev_view dm h = dm \<and>
    user_view um h = store (device_addr c) (bytes_u32 (dma_handle e)) um"
proof -
  let ?h1 = "[Copy_from_user buf (encode_cmd c) 0, Down 0]"
  let ?v = "load um (user_addr c) 4"
  let ?h2 = "Copy_from_user (user_addr c) ?v 0 # ?h1"
  note k = assms(2) [unfolded backed_def, rule_format]
  have v: "user_view um [Down 0] = um" "user_view um ?h1 = um" by (simp_all add: view_Cons)
  have f: "copy_from_user K buf (uninit K sizeof_acl_cmd [Down 0]) [Down 0] = (0, encode_cmd c, ?h1)"
    "copy_from_user K (user_addr c) (uninit K 4 ?h1) ?h1 = (0, ?v, ?h2)"
    using k v assms(3) by (simp_all add: copy_from_user_def load_def Let_def)
  have l: "phys_loop K d (u32_bytes ?v) (device_addr c) 0 0 ?h2 =
      Some (0, Copy_to_user (device_addr c) (bytes_u32 (dma_handle e)) 0 # ?h2)"
    using k by (simp add: phys_loop_table [OF assms(1)] assms(6) Let_def)
  have "aclsoc_write K buf d [] =
      Some (0, d, Up # Copy_to_user (device_addr c) (bytes_u32 (dma_handle e)) 0 # ?h2)"
    using k f l assms(4,5)
    by (simp add: aclsoc_write_def aclsoc_rw_def down_interruptible_def up_def decode_encode_cmd
        aclsoc_exec_cmd_def hw_consts Let_def)
  then show ?thesis by (simp add: view_Cons store_def)
qed

text \<open>
  What a mapping relies on: the allocator grants a buffer at a page-aligned bus address and the
  kernel maps it, at an address that is not null and away from the variables of the test.
\<close>

definition mmap_granted :: "system \<Rightarrow> bool" where
  "mmap_granted S \<longleftrightarrow>
     (let (p, dm) = ans_dma_alloc_coherent (sy_kernel S) [] (of_nat buffer_size)
      in p \<noteq> 0 \<and> push_bit PAGE_SHIFT (drop_bit PAGE_SHIFT dm) = dm) \<and>
     (\<forall>h v pfn n prot. 0 \<le> ans_remap_pfn_range (sy_kernel S) h v pfn n prot) \<and> kref_ok (sy_kernel S)"

definition mframe_ok :: "mframe \<Rightarrow> ptr \<Rightarrow> bool" where
  "mframe_ok fr a \<longleftrightarrow>
     apart (mcmd_at fr) sizeof_acl_cmd (mem_at fr) 4 \<and>
     apart (mcmd_at fr) sizeof_acl_cmd a buffer_size \<and>
     apart (phys_at fr) 4 a buffer_size \<and> apart a buffer_size (mem_at fr) 4"

definition is_buffer_mapping :: "ptr \<Rightarrow> ptr \<Rightarrow> mapping \<Rightarrow> bool" where
  "is_buffer_mapping a dm p \<longleftrightarrow>
     vma_start (area p) = a \<and> vma_end (area p) = a + of_nat buffer_size \<and> vma_ops (area p) \<and>
     vma_private (area p) = Some 0 \<and> phys p = dm"

lemma kernel_of_answers [simp]:
  "ans_dma_alloc_coherent (kernel_of K m) = ans_dma_alloc_coherent K"
  "ans_remap_pfn_range (kernel_of K m) = ans_remap_pfn_range K"
  "kr_init (kernel_of K m) = kr_init K" "kr_put (kernel_of K m) = kr_put K"
  "pgprot_noncached (kernel_of K m) = pgprot_noncached K"
  by (simp_all add: kernel_of_def ram_kernel_def)

lemma map_buffer:
  assumes "board_open f m" "pages m = []" "addr_map_mem (mdev m) = zero_elem # es" "mmap_granted S"
  defines "a \<equiv> sy_map_addr S [] (of_nat buffer_size)"
  shows "\<exists>p e. map_file S f (of_nat buffer_size) 0 m =
      Some (a, m\<lparr>mdev := (mdev m)\<lparr>addr_map_mem := e # es\<rparr>, pages := [p]\<rparr>) \<and>
    is_buffer_mapping a (dma_handle e) p \<and> vm_start e = a \<and> ref e = 1"
proof -
  obtain q dm where q: "ans_dma_alloc_coherent (sy_kernel S) [] (of_nat buffer_size) = (q, dm)" by force
  have wf: "dev_wf (mdev m)" and f: "files m f = Some board_file"
    using assms(1) by (simp_all add: board_open_def)
  have r: "\<not> ans_remap_pfn_range (sy_kernel S) h v pfn n prot < 0" for h v pfn n prot
    using assms(4) by (simp add: mmap_granted_def not_less)
  have g: "q \<noteq> 0" "push_bit PAGE_SHIFT (drop_bit PAGE_SHIFT dm) = dm" "kr_init (sy_kernel S) = 1"
    using assms(4) q by (simp_all add: mmap_granted_def kref_ok_def)
  have u: "used_prefix (zero_elem # es) = []" by (simp add: used_prefix_def)
  show ?thesis
    unfolding dev_map_file_def aclsoc_ops aclsoc_mmap_eq [OF wf] assms(3) u a_def
    using f q g r assms(2)
    by (simp add: Let_def hw_consts remapped_def table_insert_def u is_buffer_mapping_def)
      (intro exI conjI, rule refl, simp_all)
qed

lemma unmap_buffer:
  assumes "dev_wf (mdev m)" "pages m = [p]" "is_buffer_mapping a dm p" "addr_map_mem (mdev m) = e # es"
    "ref e = 1" "vm_start e \<noteq> 0" "kref_ok (sy_kernel S)"
  shows "unmap S a n m = Some (m\<lparr>mdev := (mdev m)\<lparr>addr_map_mem := zero_elem # es\<rparr>, pages := []\<rparr>)"
proof -
  have s: "slot (mdev m) 0 = Some e" using assms(1,4) by (simp add: slot_def dev_wf_def)
  have k: "kr_put (sy_kernel S) 1 = (0, True)" using assms(7) by (simp add: kref_ok_def)
  show ?thesis
    using assms(2-6) s k
    by (simp add: dev_unmap_def is_buffer_mapping_def aclsoc_vma_close_def aclsoc_release_mmap_memory_def
        free_map_info_def dma_free_coherent_def set_slot_def)
qed

lemma fill_bytes_fields [simp]:
  "mdev (fill_bytes (driver_io K) a n m) = mdev m" "pages (fill_bytes (driver_io K) a n m) = pages m"
  "files (fill_bytes (driver_io K) a n m) = files m" "shell (fill_bytes (driver_io K) a n m) = shell m"
  by (induction n) (simp_all add: dev_io_def)

lemma driver_io_simps [simp]:
  "peek (dev_io F K) = view" "poke (dev_io F K) p bs = poke_bytes (place p bs)"
  by (simp_all add: dev_io_def)

lemma poke_board_open [simp]: "board_open f (poke_bytes ws m) = board_open f m"
  by (simp add: board_open_def)

lemma mapped_byte:
  assumes "vma_start (area p) = a" "vma_end (area p) = a + of_nat buffer_size" "i < buffer_size"
    "pages m = p # ps"
  shows "view m (a + of_nat i) = ram m (phys p + of_nat i)"
proof -
  have "unat (of_nat i :: u32) = i" "unat (of_nat buffer_size :: u32) = buffer_size"
    using assms(3) by (simp_all add: unat_of_nat buffer_size_def)
  then have "covers (a + of_nat i) p"
    using assms by (simp add: covers_def word_less_nat_alt)
  then show ?thesis using assms(1,4) by (simp add: view_def phys_of_def)
qed

text \<open>Fill the mapped buffer and ask for its bus address: the bytes are at that address.\<close>

lemma fill_and_query:
  fixes K :: kernel
  assumes "board_open f m" "pages m = [p]" "is_buffer_mapping a (dma_handle e) p" "mframe_ok fr a"
    "load (view m) (mem_at fr) 4 = bytes_u32 a" "table_lookup (addr_map_mem (mdev m)) a = Some e"
  defines "w1 \<equiv> fill_bytes (driver_io K) a buffer_size m"
  shows "bytes_match (driver_io K) a buffer_size w1 \<and>
    (\<exists>w3. sys_write (driver_io K) f (mcmd_at fr) (of_nat sizeof_acl_cmd)
        (poke_bytes (place (mcmd_at fr) (encode_cmd (phys_cmd fr))) w1) = Some (0, w3) \<and>
      u32_bytes (load (view w3) (phys_at fr) 4) = dma_handle e \<and>
      (\<forall>i < buffer_size. ram w3 (dma_handle e + of_nat i) = of_nat i) \<and>
      mdev w3 = mdev m \<and> pages w3 = [p] \<and> files w3 = files m \<and> shell w3 = shell m)"
proof -
  let ?bs = "map of_nat [0..<buffer_size] :: u8 list" and ?c = "encode_cmd (phys_cmd fr)"
  let ?w2 = "poke_bytes (place (mcmd_at fr) ?c) w1"
  have N: "length ?bs \<le> 2 ^ 31" by (simp add: buffer_size_def)
  have match: "bytes_match (driver_io K) a buffer_size w1"
    using board.fill_bytes_matches [OF board_stateI [OF assms(1)]] N by (simp add: w1_def)
  have v1: "view w1 = store a ?bs (view m)"
    using board.peek_fill_bytes [OF board_stateI [OF assms(1)], of K] by (simp add: w1_def)
  have p2: "pages ?w2 = [p]" "mdev ?w2 = mdev m" "files ?w2 = files m" "shell ?w2 = shell m"
    using assms(2) by (simp_all add: w1_def)
  have v2: "view ?w2 = store (mcmd_at fr) ?c (view w1)"
    using assms(2) by (simp add: view_poke_bytes store_def w1_def)
  have wf: "dev_wf (mdev ?w2)" and fd: "files ?w2 f = Some board_file"
    using assms(1) p2 by (simp_all add: board_open_def)
  have c: "load (view ?w2) (mcmd_at fr) sizeof_acl_cmd = ?c"
    using load_store [of ?c "mcmd_at fr" "view w1"] by (simp add: v2 sizeof_acl_cmd_def)
  have l: "load (view ?w2) (mem_at fr) 4 = bytes_u32 a"
    using assms(4,5) by (simp add: v2 v1 mframe_ok_def load_store_apart)
  have b: "backed (kernel_of K ?w2) (view ?w2) (bmem ?w2)" unfolding kernel_of_def by (rule backed_ram)
  obtain h where h: "aclsoc_write (kernel_of K ?w2) (mcmd_at fr) (mdev ?w2) [] = Some (0, mdev ?w2, h)"
    "user_view (view ?w2) h = store (phys_at fr) (bytes_u32 (dma_handle e)) (view ?w2)"
    using phys_query_backed [OF wf b c, of e] l assms(6) p2(2) by (auto simp: phys_cmd_def)
  have p1: "length (pages ?w2) \<le> 1" using p2(1) by simp
  obtain w3 where w3: "after_call ?w2 (Some (0, mdev ?w2, h)) = Some (0, w3)"
    "view w3 = user_view (view ?w2) h" "mdev w3 = mdev ?w2" "pages w3 = pages ?w2"
    "files w3 = files ?w2" "shell w3 = shell ?w2"
    using after_call_view [OF p1, of 0 "mdev ?w2" h] by blast
  have v3: "view w3 = store (phys_at fr) (bytes_u32 (dma_handle e)) (store (mcmd_at fr) ?c (store a ?bs (view m)))"
    unfolding w3(2) h(2) by (simp add: v2 v1)
  have "load (view w3) a buffer_size = load (store a ?bs (view m)) a buffer_size"
    using assms(4) by (simp add: v3 mframe_ok_def load_store_apart)
  then have "load (view w3) a buffer_size = ?bs" using load_store [OF N, of a "view m"] by simp
  then have "view w3 (a + of_nat i) = of_nat i" if "i < buffer_size" for i
    using that by (auto simp: load_def)
  then have r: "ram w3 (dma_handle e + of_nat i) = of_nat i" if "i < buffer_size" for i
    using mapped_byte [of p a i w3 "[]"] assms(3) p2(1) w3(4) that by (simp add: is_buffer_mapping_def)
  have "load (view w3) (phys_at fr) 4 = bytes_u32 (dma_handle e)"
    using load_store [of "bytes_u32 (dma_handle e)" "phys_at fr"] by (simp add: v3)
  moreover have "sys_write (driver_io K) f (mcmd_at fr) (of_nat sizeof_acl_cmd) ?w2 = Some (0, w3)"
    using fd h(1) w3(1) by (simp add: dev_io_def)
  ultimately show ?thesis using match r w3(3-6) p2 by simp
qed

definition mmap_placed :: "system \<Rightarrow> mframe \<Rightarrow> int \<Rightarrow> bool" where
  "mmap_placed S fr f \<longleftrightarrow>
     (let a = sy_map_addr S [] (of_nat buffer_size)
      in a \<noteq> 0 \<and> a \<noteq> MAP_FAILED \<and> mframe_ok fr a \<and>
         (\<forall>p. vma_start (area p) = a \<longrightarrow> sy_map_addr S [p] (of_nat buffer_size) \<noteq> MAP_FAILED)) \<and>
     0 \<le> sy_open S mem_file \<and> sy_open S mem_file \<noteq> f"

text \<open>Reading the physical memory through the second mapping.\<close>

lemma map_phys:
  fixes S :: system
  assumes "pages m = [p]" "files m f = Some mem_file" "\<forall>i < buffer_size. ram m (dm + of_nat i) = of_nat i"
  defines "b \<equiv> sy_map_addr S [p] (of_nat buffer_size)"
  shows "\<exists>m'. map_file S f (of_nat buffer_size) dm m = Some (b, m') \<and>
    bytes_match (driver_io K) b buffer_size m' \<and> unmap S b n m' = Some m"
proof -
  define q where "q = \<lparr>area = \<lparr>vma_start = b, vma_end = b + of_nat buffer_size, vma_page_prot = sy_map_prot S,
      vma_ops = False, vma_private = None\<rparr>, phys = dm\<rparr>"
  let ?m = "m\<lparr>pages := [q, p]\<rparr>"
  have "map_file S f (of_nat buffer_size) dm m = Some (b, ?m)"
    using assms(1,2) by (simp add: dev_map_file_def Let_def mem_file_def board_file_def q_def b_def)
  moreover have "view ?m (b + of_nat i) = of_nat i" if "i < buffer_size" for i
    using mapped_byte [of q b i ?m "[p]"] assms(3) that by (simp add: q_def)
  then have "bytes_match (driver_io K) b buffer_size ?m"
    by (simp add: bytes_match_def list_all_iff)
  moreover have "unmap S b n ?m = Some m"
    using assms(1) by (cases m) (simp add: dev_unmap_def q_def)
  ultimately show ?thesis by blast
qed

lemma test_mmap_run:
  assumes "board_open f m" "pages m = []" "addr_map_mem (mdev m) = zero_elem # es"
    "mmap_granted S" "mmap_placed S fr f"
  shows "\<exists>m'. test_mmap (board_proc S) fr f m = Some m' \<and> board_open f m' \<and> mdev m' = mdev m \<and>
    pages m' = [] \<and> shell m' = shell m"
proof -
  let ?N = "of_nat buffer_size :: u32" and ?K = "sy_kernel S"
  define a where "a = sy_map_addr S [] ?N"
  have pl: "a \<noteq> 0" "a \<noteq> MAP_FAILED" "mframe_ok fr a"
    "\<forall>p. vma_start (area p) = a \<longrightarrow> sy_map_addr S [p] ?N \<noteq> MAP_FAILED"
    "0 \<le> sy_open S mem_file" "sy_open S mem_file \<noteq> f"
    using assms(5) by (simp_all add: mmap_placed_def a_def Let_def)
  have kr: "kref_ok ?K" using assms(4) by (simp add: mmap_granted_def)
  have len: "length (zero_elem # es) = MAX_ADDR_MAP_ENTRIES"
    using assms(1,3) by (simp add: board_open_def dev_wf_def)
  let ?m1 = "poke_bytes (place (phys_at fr) (bytes_u32 0)) m"
  have o1: "board_open f ?m1" "pages ?m1 = []" "addr_map_mem (mdev ?m1) = zero_elem # es"
    using assms(1-3) by simp_all
  obtain p e where mp: "map_file S f ?N 0 ?m1 =
      Some (a, ?m1\<lparr>mdev := (mdev m)\<lparr>addr_map_mem := e # es\<rparr>, pages := [p]\<rparr>)"
    "is_buffer_mapping a (dma_handle e) p" "vm_start e = a" "ref e = 1"
    using map_buffer [OF o1 assms(4)] by (auto simp: a_def)
  define m2 where "m2 = ?m1\<lparr>mdev := (mdev m)\<lparr>addr_map_mem := e # es\<rparr>, pages := [p]\<rparr>"
  let ?m3 = "poke_bytes (place (mem_at fr) (bytes_u32 a)) m2"
  have p2: "pages m2 = [p]" "mdev m2 = (mdev m)\<lparr>addr_map_mem := e # es\<rparr>" "files m2 = files m"
    "shell m2 = shell m" by (simp_all add: m2_def)
  have o3: "board_open f ?m3" "pages ?m3 = [p]"
    using assms(1) len p2 by (simp_all add: board_open_def dev_wf_def)
  have l3: "load (view ?m3) (mem_at fr) 4 = bytes_u32 a"
    using load_store [of "bytes_u32 a" "mem_at fr"] p2(1) by (simp add: view_poke_bytes store_def)
  have t3: "table_lookup (addr_map_mem (mdev ?m3)) a = Some e"
    using mp(3) pl(1) by (simp add: p2 table_lookup_def used_prefix_def)
  let ?w1 = "fill_bytes (driver_io ?K) a buffer_size ?m3"
  obtain w3 where w3: "bytes_match (driver_io ?K) a buffer_size ?w1"
    "sys_write (driver_io ?K) f (mcmd_at fr) (of_nat sizeof_acl_cmd)
        (poke_bytes (place (mcmd_at fr) (encode_cmd (phys_cmd fr))) ?w1) = Some (0, w3)"
    "u32_bytes (load (view w3) (phys_at fr) 4) = dma_handle e"
    "\<forall>i < buffer_size. ram w3 (dma_handle e + of_nat i) = of_nat i"
    "mdev w3 = (mdev m)\<lparr>addr_map_mem := e # es\<rparr>" "pages w3 = [p]" "files w3 = files m" "shell w3 = shell m"
    using fill_and_query [OF o3 mp(2) pl(3) l3 t3, of ?K] p2 by auto
  define w4 where "w4 = w3\<lparr>files := (files w3)(sy_open S mem_file := Some mem_file)\<rparr>"
  have w4: "pages w4 = [p]" "files w4 (sy_open S mem_file) = Some mem_file"
    "\<forall>i < buffer_size. ram w4 (dma_handle e + of_nat i) = of_nat i"
    using w3 by (simp_all add: w4_def)
  have op: "open_file S mem_file w3 = (sy_open S mem_file, w4)"
    using pl(5) by (simp add: dev_open_file_def Let_def w4_def mem_file_def board_file_def)
  define b where "b = sy_map_addr S [p] ?N"
  have b: "b \<noteq> MAP_FAILED" using pl(4) mp(2) by (simp add: b_def is_buffer_mapping_def)
  obtain w5 where w5: "map_file S (sy_open S mem_file) ?N (dma_handle e) w4 = Some (b, w5)"
    "bytes_match (driver_io ?K) b buffer_size w5" "unmap S b ?N w5 = Some w4"
    using map_phys [OF w4, of S ?K ?N] by (auto simp: b_def)
  define w6 where "w6 = close_file S (sy_open S mem_file) w4"
  have w6: "pages w6 = [p]" "mdev w6 = (mdev m)\<lparr>addr_map_mem := e # es\<rparr>" "shell w6 = shell m"
    "files w6 f = files m f"
    using w3 w4(2) pl(6) by (simp_all add: w6_def dev_close_file_def w4_def mem_file_def board_file_def Let_def)
  have wf6: "dev_wf (mdev w6)" using o3(1) by (simp add: w6(2) board_open_def p2)
  let ?m' = "w6\<lparr>mdev := (mdev w6)\<lparr>addr_map_mem := zero_elem # es\<rparr>, pages := []\<rparr>"
  have un: "unmap S a ?N w6 = Some ?m'"
    by (rule unmap_buffer [OF wf6 w6(1) mp(2) _ mp(4) _ kr]) (use mp(3) pl(1) in \<open>simp_all add: w6\<close>)
  have md: "mdev ?m' = mdev m" using assms(3) by (cases "mdev m") (simp add: w6)
  have "test_mmap (board_proc S) fr f m = Some ?m'"
    using mp(1) pl(2) w3(1-3) op b w5 un
    by (simp add: test_mmap_def dev_proc_def Let_def m2_def [symmetric] w6_def [symmetric])
  moreover have "board_open f ?m'" using assms(1) md w6(4) by (simp add: board_open_def)
  ultimately show ?thesis using md w6(3) by (intro exI [of _ ?m']) simp
qed

subsection \<open>The main program runs through\<close>

text \<open>What the program relies on: its files open and the variables of its tests do not overlap.\<close>

definition main_env :: "system \<Rightarrow> frame \<Rightarrow> frame \<Rightarrow> mframe \<Rightarrow> bool" where
  "main_env S fr fr' mf \<longleftrightarrow>
     0 \<le> sy_open S board_file \<and> sy_task S \<noteq> 0 \<and> mmap_granted S \<and>
     mmap_placed S mf (sy_open S board_file) \<and> frame_ok fr 10 \<and> frame_ok fr' 3072"

lemma open_board:
  assumes "0 \<le> sy_open S board_file" "sy_task S \<noteq> 0" "dev_wf (mdev m)"
  shows "\<exists>d. open_file S board_file m = (sy_open S board_file,
      m\<lparr>mdev := d, files := (files m)(sy_open S board_file := Some board_file)\<rparr>) \<and> keeps (mdev m) d"
  using assms
  by (simp add: dev_open_file_def aclsoc_open_def kernel_of_def ram_kernel_def env_simps Let_def
      load_signal_info_def keeps_def dev_wf_def) (intro exI conjI, rule refl, simp_all)

lemma close_board:
  "mdev (close_file S fd m) = mdev m" "pages (close_file S fd m) = pages m"
  "shell (close_file S fd m) = shell m"
  by (simp_all add: dev_close_file_def aclsoc_close_def kernel_of_def ram_kernel_def env_simps Let_def)

definition bridge_commands :: "string list" where
  "bridge_commands =
     [''echo 1 > /sys/class/fpga-bridge/lwhps2fpga/enable'',
      ''echo 1 > /sys/class/fpga-bridge/hps2fpga/enable'',
      ''echo 1 > /sys/class/fpga-bridge/fpga2hps/enable'']"

text \<open>A run of the program that passes every test, with the state it leaves.\<close>

definition passes_tests :: "'w proc \<Rightarrow> frame \<Rightarrow> frame \<Rightarrow> mframe \<Rightarrow> 'w \<Rightarrow> 'w \<Rightarrow> bool" where
  "passes_tests P fr fr' mf w w' \<longleftrightarrow>
     (\<exists>f w1 w2 w3 w4. sys_open P board_file w = (f, w1) \<and> f \<noteq> - 1 \<and>
        test_small_writes (base P) fr f (fold (run_shell P) (rev bridge_commands) w1) = Some w2 \<and>
        test_page_write (base P) fr' f w2 = Some ([], w3) \<and> test_mmap P mf f w3 = Some w4 \<and>
        w' = sys_close P f w4)"

lemma passes_user_main: "passes_tests P fr fr' mf w w' \<Longrightarrow> user_main P fr fr' mf w = Some (0, w')"
  by (auto simp: passes_tests_def user_main_def bridge_commands_def Let_def)

text \<open>
  The machine passes them whichever copy of the driver it runs, as long as the copy opens, closes
  and serves the memory of the board as this one does and the mmap test passes on it.
\<close>

lemma machine_passes:
  fixes P :: "machine proc"
  defines "f \<equiv> \<lambda>S. sy_open S board_file"
  assumes "main_env S fr fr' mf" "dev_wf (mdev m)" "pages m = []" "addr_map_mem (mdev m) = zero_elem # es"
    and proc: "sys_open P = open_file S" "sys_close P = close_file S" "run_shell P = shell_command"
    and mem: "\<And>es sh. memory_board (base P) (f S) (board_state (f S) [] es sh) global_mem"
    and mmap: "\<And>m. board_open (f S) m \<Longrightarrow> pages m = [] \<Longrightarrow> addr_map_mem (mdev m) = zero_elem # es \<Longrightarrow>
      \<exists>m'. test_mmap P mf (f S) m = Some m' \<and> board_open (f S) m' \<and> mdev m' = mdev m \<and>
        pages m' = [] \<and> shell m' = shell m"
  shows "\<exists>m'. passes_tests P fr fr' mf m m' \<and> dev_wf (mdev m') \<and>
    addr_map_mem (mdev m') = addr_map_mem (mdev m) \<and> pages m' = [] \<and>
    shell m' = bridge_commands @ shell m"
proof -
  let ?f = "f S" and ?sh = "bridge_commands @ shell m"
  have env: "0 \<le> ?f" "sy_task S \<noteq> 0" "frame_ok fr 10" "frame_ok fr' 3072"
    using assms(2) by (simp_all add: main_env_def f_def)
  obtain d where op: "open_file S board_file m = (?f, m\<lparr>mdev := d, files := (files m)(?f := Some board_file)\<rparr>)"
    "keeps (mdev m) d" using open_board [OF _ env(2) assms(3)] env(1) unfolding f_def by blast
  define m1 where "m1 = fold shell_command (rev bridge_commands)
    (m\<lparr>mdev := d, files := (files m)(?f := Some board_file)\<rparr>)"
  have o1: "board_state ?f [] (zero_elem # es) ?sh m1"
    using op(2) assms(3-5)
    by (simp add: board_state_def board_open_def m1_def shell_command_def bridge_commands_def keeps_def)
  obtain m2 where m2: "test_small_writes (base P) fr ?f m1 = Some m2" "board_state ?f [] (zero_elem # es) ?sh m2"
    using memory_board.small_writes_pass [OF mem o1 env(3)] by blast
  obtain m3 where m3: "test_page_write (base P) fr' ?f m2 = Some ([], m3)"
    "board_state ?f [] (zero_elem # es) ?sh m3"
    using memory_board.page_write_passes [OF mem m2(2) env(4)] by blast
  then obtain m4 where m4: "test_mmap P mf ?f m3 = Some m4" "board_open ?f m4" "mdev m4 = mdev m3"
    "pages m4 = []" "shell m4 = shell m3"
    using mmap [of m3] by (auto simp: board_state_def)
  have "passes_tests P fr fr' mf m (close_file S ?f m4)"
    using op(1) m2(1) m3(1) m4(1) env(1) proc by (auto simp: passes_tests_def m1_def)
  moreover have "dev_wf (mdev m4)" using m4(2) by (simp add: board_open_def)
  ultimately show ?thesis
    using m4(3-5) m3(2) assms(5)
    by (intro exI [of _ "close_file S ?f m4"]) (simp add: close_board board_state_def)
qed

lemma user_main_run:
  assumes "main_env S fr fr' mf" "dev_wf (mdev m)" "pages m = []" "addr_map_mem (mdev m) = zero_elem # es"
  shows "\<exists>m'. user_main (board_proc S) fr fr' mf m = Some (0, m') \<and> dev_wf (mdev m') \<and>
    addr_map_mem (mdev m') = addr_map_mem (mdev m) \<and> pages m' = [] \<and>
    shell m' = bridge_commands @ shell m"
proof -
  have "mmap_granted S" "mmap_placed S mf (sy_open S board_file)" using assms(1) by (simp_all add: main_env_def)
  then have "\<exists>m'. passes_tests (board_proc S) fr fr' mf m m' \<and> dev_wf (mdev m') \<and>
    addr_map_mem (mdev m') = addr_map_mem (mdev m) \<and> pages m' = [] \<and> shell m' = bridge_commands @ shell m"
    by (intro machine_passes [OF assms] test_mmap_run)
      (simp_all add: dev_proc_def board.memory_board_axioms)
  then show ?thesis by (metis passes_user_main)
qed

end
