(* ===== verification/Reprogram.thy ===== *)
theory Reprogram
  imports Acl_Lock
begin

section \<open>The reprogramming tool (reprogram.c)\<close>

text \<open>
  The process that loads a new design into the FPGA: it recognises the kind of file from its
  name, unpacks it, quiets the board, sends the design and brings the board back. Files,
  processes, heap memory and the package reader \<open>pkg_editor\<close>, which is not part of the
  repository, are a parameter \<open>host\<close> of answers, with the calls recorded in a history, newest
  first. Text for the user is not modelled. A function is \<^const>\<open>None\<close> where the C program
  leaves its buffers or follows a null pointer.
\<close>

datatype uevent =
    Fopen string bool
  | Fclose string
  | Fgets string "string option"
  | Fread string "u8 list"
  | Malloc nat ptr
  | Free ptr
  | System string
  | Request int acl_cmd
  | Tmpnam string
  | Remove string
  | Open string int
  | Close int
  | Sigaction int
  | Pkg_open "u8 list" nat
  | Pkg_to_file nat string string bool

type_synonym uhist = "uevent list"

text \<open>Package handles are numbers, 0 for none.\<close>

record host =
  h_fopen :: "uhist \<Rightarrow> string \<Rightarrow> bool"
  h_fgets :: "uhist \<Rightarrow> string \<Rightarrow> string option"
  h_ftell :: "uhist \<Rightarrow> string \<Rightarrow> nat"
  h_fread :: "uhist \<Rightarrow> string \<Rightarrow> u8 list"
  h_malloc :: "uhist \<Rightarrow> nat \<Rightarrow> ptr"
  h_tmpnam :: "uhist \<Rightarrow> string"
  h_open :: "uhist \<Rightarrow> string \<Rightarrow> int"
  h_pkg_open :: "uhist \<Rightarrow> u8 list \<Rightarrow> nat"
  h_section_exists :: "uhist \<Rightarrow> nat \<Rightarrow> string \<Rightarrow> nat option"
  h_section_to_file :: "uhist \<Rightarrow> nat \<Rightarrow> string \<Rightarrow> string \<Rightarrow> bool"
  h_section_transient :: "uhist \<Rightarrow> nat \<Rightarrow> string \<Rightarrow> u8 list option"
  h_uninit_int :: int

definition LINE_SIZE :: nat where "LINE_SIZE = 1024"

text \<open>The section names are constants of the package reader.\<close>

definition ACL_PKG_SECTION_RBF :: string where "ACL_PKG_SECTION_RBF = ''.acl.rbf''"
definition ACL_PKG_SECTION_FPGA_BIN :: string where "ACL_PKG_SECTION_FPGA_BIN = ''.acl.fpga.bin''"

subsection \<open>Files and bridges\<close>

definition file_readable :: "host \<Rightarrow> string \<Rightarrow> uhist \<Rightarrow> bool \<times> uhist" where
  "file_readable H filename h =
     (let ok = h_fopen H h filename; h = Fopen filename ok # h
      in if ok then (True, Fclose filename # h) else (False, h))"

definition disable_bridges :: "uhist \<Rightarrow> uhist" where
  "disable_bridges h =
     (let h = System ''echo 0 > /sys/class/fpga-bridge/fpga2hps/enable'' # h;
          h = System ''echo 0 > /sys/class/fpga-bridge/hps2fpga/enable'' # h
      in System ''echo 0 > /sys/class/fpga-bridge/lwhps2fpga/enable'' # h)"

definition enable_bridges :: "uhist \<Rightarrow> uhist" where
  "enable_bridges h =
     (let h = System ''echo 1 > /sys/class/fpga-bridge/fpga2hps/enable'' # h;
          h = System ''echo 1 > /sys/class/fpga-bridge/hps2fpga/enable'' # h
      in System ''echo 1 > /sys/class/fpga-bridge/lwhps2fpga/enable'' # h)"

text \<open>\<open>strstr\<close>: does the second string occur in the first.\<close>

fun strstr :: "string \<Rightarrow> string \<Rightarrow> bool" where
  "strstr [] needle = (needle = [])"
| "strstr (c # cs) needle = (prefix needle (c # cs) \<or> strstr cs needle)"

definition status_file :: string where "status_file = ''/sys/class/fpga/fpga0/status''"

definition fpga_in_user_mode :: "host \<Rightarrow> uhist \<Rightarrow> bool \<times> uhist" where
  "fpga_in_user_mode H h =
     (let ok = h_fopen H h status_file; h = Fopen status_file ok # h
      in if \<not> ok then (False, h)
         else
           let line = map_option (take (LINE_SIZE - 1)) (h_fgets H h status_file);
               h = Fclose status_file # Fgets status_file line # h
           in (case line of None \<Rightarrow> (False, h) | Some buf \<Rightarrow> (strstr buf ''user mode'', h)))"

definition board_cmd :: "u32 \<Rightarrow> acl_cmd" where
  "board_cmd c =
     \<lparr>bar_id = ACLPCI_CMD_BAR, command = c, device_addr = 0, user_addr = 0, cmd_size = 0,
      is_diff_endian = 0\<rparr>"

definition prepare_fpga_for_reprogramming :: "int \<Rightarrow> uhist \<Rightarrow> uhist" where
  "prepare_fpga_for_reprogramming f h =
     disable_bridges (Request f (board_cmd ACLPCI_CMD_SAVE_PCI_CONTROL_REGS) # h)"

definition enable_fpga_after_reprogramming :: "int \<Rightarrow> uhist \<Rightarrow> uhist" where
  "enable_fpga_after_reprogramming f h =
     Request f (board_cmd ACLPCI_CMD_LOAD_PCI_CONTROL_REGS) # enable_bridges h"

text \<open>The contents of the file and the memory they are in; \<open>None\<close> inside for a failure.\<close>

definition acl_loadFileIntoMemory ::
  "host \<Rightarrow> string \<Rightarrow> uhist \<Rightarrow> ((ptr \<times> u8 list) option \<times> uhist) option" where
  "acl_loadFileIntoMemory H in_file h =
     (let ok = h_fopen H h in_file; h = Fopen in_file ok # h
      in if \<not> ok then Some (None, h)
         else
           let file_size = h_ftell H h in_file;
               buf = h_malloc H h file_size; h = Malloc file_size buf # h
           in if buf = 0 \<and> file_size \<noteq> 0 then None
              else
                let bytes = take file_size (h_fread H h in_file);
                    h = Fclose in_file # Fread in_file bytes # h
                in if length bytes \<noteq> file_size then Some (None, h) else Some (Some (buf, bytes), h))"

subsection \<open>File names\<close>

definition filename_has_ext :: "string \<Rightarrow> string \<Rightarrow> bool" where
  "filename_has_ext filename ext =
     (let ext_len = length ext; fn_len = length filename
      in if ext_len > fn_len then False else drop (fn_len - ext_len) filename = ext)"

text \<open>The three results: \<open>aocx\<close>, \<open>rbf\<close> and \<open>fpga_bin\<close>.\<close>

definition map_filenames_to_aocx_and_rbf ::
  "string \<Rightarrow> string option \<times> string option \<times> string option" where
  "map_filenames_to_aocx_and_rbf filename =
     (let rbf = (if filename_has_ext filename ''.rbf'' \<or> filename_has_ext filename ''.RBF''
                 then Some filename else None);
          aocx = (if filename_has_ext filename ''.aocx'' \<or> filename_has_ext filename ''.AOCX''
                  then Some filename else None);
          fpga_bin = (if filename_has_ext filename ''.bin'' \<or> filename_has_ext filename ''.BIN''
                      then Some filename else None)
      in (aocx, rbf, fpga_bin))"

subsection \<open>Reprogramming\<close>

definition program_cmd :: "string \<Rightarrow> string" where
  "program_cmd rbf = ''cat '' @ rbf @ '' > /dev/fpga0''"

text \<open>\<open>sprintf\<close> into a buffer of \<^const>\<open>LINE_SIZE\<close> characters, with the terminating zero.\<close>

definition reprogram_with_rbf :: "host \<Rightarrow> int \<Rightarrow> string option \<Rightarrow> uhist \<Rightarrow> (int \<times> uhist) option" where
  "reprogram_with_rbf H f rbf h =
     (case rbf of None \<Rightarrow> Some (1, h)
      | Some name \<Rightarrow>
          let (readable, h) = file_readable H name h
          in if \<not> readable then Some (1, h)
             else if length (program_cmd name) + 1 > LINE_SIZE then None
             else
               let h = prepare_fpga_for_reprogramming f h;
                   h = System (program_cmd name) # h;
                   h = enable_fpga_after_reprogramming f h;
                   (user, h) = fpga_in_user_mode H h
               in Some (if user then 0 else 1, h))"

definition reprogram_with_fpga_bin_image :: "host \<Rightarrow> int \<Rightarrow> nat \<Rightarrow> uhist \<Rightarrow> (int \<times> uhist) option" where
  "reprogram_with_fpga_bin_image H f pkg h =
     (case h_section_exists H h pkg ACL_PKG_SECTION_RBF of None \<Rightarrow> Some (1, h)
      | Some _ \<Rightarrow>
          let tmp = h_tmpnam H h; h = Tmpnam tmp # h;
              ok = h_section_to_file H h pkg ACL_PKG_SECTION_RBF tmp;
              h = Pkg_to_file pkg ACL_PKG_SECTION_RBF tmp ok # h
          in if \<not> ok then Some (1, h)
             else
               (case reprogram_with_rbf H f (Some tmp) h of None \<Rightarrow> None
                | Some (res, h) \<Rightarrow> Some (res, Remove tmp # h)))"

definition reprogram_with_fpga_bin :: "host \<Rightarrow> int \<Rightarrow> string \<Rightarrow> uhist \<Rightarrow> (int \<times> uhist) option" where
  "reprogram_with_fpga_bin H f fpga_bin h = do {
     (image, h) \<leftarrow> acl_loadFileIntoMemory H fpga_bin h;
     case image of None \<Rightarrow> Some (1, h)
     | Some (p, bytes) \<Rightarrow> do {
         let pkg = h_pkg_open H h bytes;
         let h = Pkg_open bytes pkg # h;
         if pkg = 0 then Some (1, h)
         else do {
           (ret, h) \<leftarrow> reprogram_with_fpga_bin_image H f pkg h;
           Some (ret, Free p # h)
         }
       }
   }"

definition reprogram_with_aocx :: "host \<Rightarrow> int \<Rightarrow> string \<Rightarrow> uhist \<Rightarrow> (int \<times> uhist) option" where
  "reprogram_with_aocx H f aocx h = do {
     (image, h) \<leftarrow> acl_loadFileIntoMemory H aocx h;
     case image of None \<Rightarrow> Some (1, Free 0 # h)
     | Some (p, bytes) \<Rightarrow> do {
         let pkg = h_pkg_open H h bytes;
         let h = Pkg_open bytes pkg # h;
         if pkg = 0 then Some (1, Free p # h)
         else
           (case h_section_exists H h pkg ACL_PKG_SECTION_FPGA_BIN of None \<Rightarrow> Some (1, Free p # h)
            | Some n \<Rightarrow>
                (case h_section_transient H h pkg ACL_PKG_SECTION_FPGA_BIN of None \<Rightarrow> Some (1, Free p # h)
                 | Some sect \<Rightarrow>
                     let bin = h_pkg_open H h (take n sect); h = Pkg_open (take n sect) bin # h
                     in if bin = 0 then Some (1, Free p # h)
                        else reprogram_with_fpga_bin_image H f bin h))
       }
   }"

text \<open>\<open>ret\<close> has no initial value and is returned as it is for a file of another kind.\<close>

definition reprogram_main :: "host \<Rightarrow> string list \<Rightarrow> uhist \<Rightarrow> (int \<times> uhist) option" where
  "reprogram_main H argv h =
     (let h = Sigaction SIG_INT_NOTIFY # h
      in if length argv \<noteq> 3 then Some (1, h)
         else
           let f = h_open H h (argv ! 1); h = Open (argv ! 1) f # h
           in if f = -1 then Some (1, h)
              else
                let filename = argv ! 2;
                    (aocx, rbf, fpga_bin) = map_filenames_to_aocx_and_rbf filename
                in (case (case rbf of Some r \<Rightarrow> reprogram_with_rbf H f (Some r) h
                          | None \<Rightarrow> (case aocx of Some a \<Rightarrow> reprogram_with_aocx H f a h
                          | None \<Rightarrow> (case fpga_bin of Some b \<Rightarrow> reprogram_with_fpga_bin H f b h
                          | None \<Rightarrow> Some (h_uninit_int H, h)))) of
                      None \<Rightarrow> None
                    | Some (ret, h) \<Rightarrow> Some (ret, Close f # h)))"

subsection \<open>File names and searches\<close>

lemma filename_has_ext_suffix: "filename_has_ext f e \<longleftrightarrow> suffix e f"
proof
  assume "filename_has_ext f e"
  then have "f = take (length f - length e) f @ e"
    by (auto simp: filename_has_ext_def Let_def split: if_split_asm) (metis append_take_drop_id)
  then show "suffix e f" by (metis suffixI)
next
  assume "suffix e f"
  then show "filename_has_ext f e" by (auto simp: filename_has_ext_def suffix_def)
qed

lemma strstr_sublist: "strstr s n \<longleftrightarrow> sublist n s"
  by (induction s n rule: strstr.induct) (auto simp: sublist_Cons_right)

text \<open>A name has at most one of the extensions, since they end in different characters.\<close>

lemma suffix_last: "suffix e f \<Longrightarrow> e \<noteq> [] \<Longrightarrow> last f = last e"
  by (auto simp: suffix_def)

lemma one_kind:
  assumes "map_filenames_to_aocx_and_rbf f = (aocx, rbf, fpga_bin)"
  shows "aocx = None \<and> rbf = None \<or> aocx = None \<and> fpga_bin = None \<or> rbf = None \<and> fpga_bin = None"
  using assms
  by (auto simp: map_filenames_to_aocx_and_rbf_def filename_has_ext_suffix dest!: suffix_last split: if_split_asm)

text \<open>A file is recognised by the suffix of its name and has one kind at most.\<close>

lemma file_kind_is_decided_by_suffix:
  "(filename_has_ext f e \<longleftrightarrow> suffix e f) \<and>
   (case map_filenames_to_aocx_and_rbf f of (aocx, rbf, bin) \<Rightarrow>
      (aocx = None \<and> rbf = None \<or> aocx = None \<and> bin = None \<or> rbf = None \<and> bin = None) \<and>
      (rbf = (if suffix ''.rbf'' f \<or> suffix ''.RBF'' f then Some f else None)) \<and>
      (aocx = (if suffix ''.aocx'' f \<or> suffix ''.AOCX'' f then Some f else None)) \<and>
      (bin = (if suffix ''.bin'' f \<or> suffix ''.BIN'' f then Some f else None)))"
  using one_kind [of f]
  by (auto simp: filename_has_ext_suffix map_filenames_to_aocx_and_rbf_def)

subsection \<open>The board during reprogramming\<close>

text \<open>
  The state of the board that the calls leave, with the driver's side of a request as the
  interrupt machine of \<^theory_text>\<open>Acl_Irq\<close>: the request that saves the control registers is
  \<^const>\<open>IRelease\<close>, the one that loads them \<^const>\<open>IInit\<close>. The tool ignores the results of
  \<open>system()\<close> and \<open>read()\<close>, so whether a call did its work is not known to it. The record of
  outcomes says it: did the shell carry the command out, did the driver serve the request, and
  did the kernel then grant the interrupt line. A call that failed leaves the board as it was.
\<close>

datatype bridge = Fpga2hps | Hps2fpga | Lwhps2fpga

fun bridge_name :: "bridge \<Rightarrow> string" where
  "bridge_name Fpga2hps = ''fpga2hps''"
| "bridge_name Hps2fpga = ''hps2fpga''"
| "bridge_name Lwhps2fpga = ''lwhps2fpga''"

definition bridge_cmd :: "bool \<Rightarrow> bridge \<Rightarrow> string" where
  "bridge_cmd on b =
     ''echo '' @ (if on then ''1'' else ''0'') @ '' > /sys/class/fpga-bridge/'' @ bridge_name b @ ''/enable''"

record board_state =
  bridges :: "bridge set"
  irq :: irq_abs

record outcomes =
  ran :: "uhist \<Rightarrow> string \<Rightarrow> bool"
  served :: "uhist \<Rightarrow> acl_cmd \<Rightarrow> bool"
  granted :: "uhist \<Rightarrow> bool"

definition bridge_step :: "string \<Rightarrow> bridge set \<Rightarrow> bridge set" where
  "bridge_step c bs = {b. c = bridge_cmd True b \<or> b \<in> bs \<and> c \<noteq> bridge_cmd False b}"

definition request_step :: "bool \<Rightarrow> acl_cmd \<Rightarrow> irq_abs \<Rightarrow> irq_abs" where
  "request_step line c i =
     (if c = board_cmd ACLPCI_CMD_SAVE_PCI_CONTROL_REGS then irq_spec IRelease i
      else if c = board_cmd ACLPCI_CMD_LOAD_PCI_CONTROL_REGS then irq_spec (IInit line) i
      else i)"

definition board_step :: "outcomes \<Rightarrow> uhist \<Rightarrow> uevent \<Rightarrow> board_state \<Rightarrow> board_state" where
  "board_step W h e s =
     (case e of
        System c \<Rightarrow> if ran W h c then s\<lparr>bridges := bridge_step c (bridges s)\<rparr> else s
      | Request f c \<Rightarrow> if served W h c then s\<lparr>irq := request_step (granted W h) c (irq s)\<rparr> else s
      | _ \<Rightarrow> s)"

primrec board_after :: "outcomes \<Rightarrow> board_state \<Rightarrow> uhist \<Rightarrow> board_state" where
  "board_after W s [] = s"
| "board_after W s (e # h) = board_step W h e (board_after W s h)"

text \<open>
  Which commands and requests of a history failed, and whether all of those that concern the
  bridges and the interrupt did their work.
\<close>

primrec failed :: "outcomes \<Rightarrow> uhist \<Rightarrow> string \<Rightarrow> bool" where
  "failed W [] c \<longleftrightarrow> False"
| "failed W (e # h) c \<longleftrightarrow> e = System c \<and> \<not> ran W h c \<or> failed W h c"

primrec refused :: "outcomes \<Rightarrow> uhist \<Rightarrow> acl_cmd \<Rightarrow> bool" where
  "refused W [] c \<longleftrightarrow> False"
| "refused W (e # h) c \<longleftrightarrow> (case e of Request f k \<Rightarrow> k = c \<and> \<not> served W h k | _ \<Rightarrow> False) \<or> refused W h c"

primrec succeeded :: "outcomes \<Rightarrow> uhist \<Rightarrow> bool" where
  "succeeded W [] \<longleftrightarrow> True"
| "succeeded W (e # h) \<longleftrightarrow> succeeded W h \<and>
     (case e of System c \<Rightarrow> prefix ''cat '' c \<or> ran W h c
      | Request f c \<Rightarrow> served W h c \<and> granted W h
      | _ \<Rightarrow> True)"

text \<open>The trace of the part that touches the board: up to the design, and the whole.\<close>

definition quieting_trace :: "int \<Rightarrow> uhist" where
  "quieting_trace f =
     [System (bridge_cmd False Lwhps2fpga), System (bridge_cmd False Hps2fpga),
      System (bridge_cmd False Fpga2hps),
      Request f (board_cmd ACLPCI_CMD_SAVE_PCI_CONTROL_REGS)]"

definition program_trace :: "int \<Rightarrow> string \<Rightarrow> uhist" where
  "program_trace f name =
     [Request f (board_cmd ACLPCI_CMD_LOAD_PCI_CONTROL_REGS),
      System (bridge_cmd True Lwhps2fpga), System (bridge_cmd True Hps2fpga),
      System (bridge_cmd True Fpga2hps),
      System (program_cmd name)] @ quieting_trace f"

lemma program_trace_eq:
  "enable_fpga_after_reprogramming f (System (program_cmd name) # prepare_fpga_for_reprogramming f h) =
   program_trace f name @ h"
  by (simp add: enable_fpga_after_reprogramming_def prepare_fpga_for_reprogramming_def Let_def
      enable_bridges_def disable_bridges_def program_trace_def quieting_trace_def bridge_cmd_def)

subsection \<open>A design is sent once, between quieting and restoring the board\<close>

definition quiet :: "uevent \<Rightarrow> bool" where
  "quiet e \<longleftrightarrow> (case e of System c \<Rightarrow> False | Request f c \<Rightarrow> False | _ \<Rightarrow> True)"

lemma quiet_simps [simp]:
  "quiet (Fopen n ok)" "quiet (Fclose n)" "quiet (Fgets n l)" "quiet (Fread n bs)" "quiet (Malloc k p)"
  "quiet (Free p)" "quiet (Tmpnam n)" "quiet (Remove n)" "quiet (Open n f)" "quiet (Close f)"
  "quiet (Sigaction sg)" "quiet (Pkg_open bs k)" "quiet (Pkg_to_file k n m b)"
  by (simp_all add: quiet_def)

text \<open>
  What each function does to the board: nothing, or the one sequence of calls, with calls that
  do not touch the board around it.
\<close>

definition quietly :: "uhist \<Rightarrow> uhist \<Rightarrow> bool" where
  "quietly h h' \<longleftrightarrow> (\<exists>u. h' = u @ h \<and> list_all quiet u)"

definition programs_once :: "uhist \<Rightarrow> uhist \<Rightarrow> bool" where
  "programs_once h h' \<longleftrightarrow> quietly h h' \<or> (\<exists>f name g. quietly h g \<and> quietly (program_trace f name @ g) h')"

lemma quietly_refl [simp]: "quietly h h"
  by (simp add: quietly_def)

lemma quietly_cons [simp]: "quiet e \<Longrightarrow> quietly h h' \<Longrightarrow> quietly h (e # h')"
  unfolding quietly_def by (force intro: exI [of _ "e # u" for u])

lemma quietly_trans: "quietly h g \<Longrightarrow> quietly g h' \<Longrightarrow> quietly h h'"
  unfolding quietly_def by force

lemma programs_quietly: "quietly h h' \<Longrightarrow> programs_once h h'"
  by (simp add: programs_once_def)

lemma programs_after: "quietly h g \<Longrightarrow> programs_once g h' \<Longrightarrow> programs_once h h'"
  unfolding programs_once_def by (meson quietly_trans)

lemma programs_before: "programs_once h g \<Longrightarrow> quietly g h' \<Longrightarrow> programs_once h h'"
  unfolding programs_once_def by (meson quietly_trans)

lemma programs_trace: "quietly h g \<Longrightarrow> quietly (program_trace f name @ g) h' \<Longrightarrow> programs_once h h'"
  by (auto simp: programs_once_def)

lemma user_mode_events:
  "fpga_in_user_mode H h = (b, h') \<Longrightarrow>
   (\<exists>t. h' = t @ h \<and> (\<forall>e \<in> set t. quiet e)) \<and>
   (b \<longleftrightarrow> (\<exists>l. h_fopen H h status_file \<and> h_fgets H (Fopen status_file True # h) status_file = Some l \<and>
      sublist ''user mode'' (take (LINE_SIZE - 1) l)))"
  by (auto simp: fpga_in_user_mode_def Let_def strstr_sublist split: if_split_asm option.splits
      intro: exI [of _ "[Fopen status_file False]"]
        exI [of _ "[Fclose status_file, Fgets status_file x, Fopen status_file True]" for x])

lemma rbf_programs:
  assumes "reprogram_with_rbf H f rbf h = Some (r, h')"
  shows "programs_once h h'"
proof (cases rbf)
  case None
  with assms show ?thesis by (simp add: reprogram_with_rbf_def programs_quietly)
next
  case (Some name)
  show ?thesis
  proof (cases "h_fopen H h name")
    case False
    with assms Some show ?thesis
      by (auto simp: reprogram_with_rbf_def file_readable_def Let_def intro!: programs_quietly)
  next
    case True
    let ?g = "Fclose name # Fopen name True # h"
    obtain b h2 where m: "fpga_in_user_mode H (program_trace f name @ ?g) = (b, h2)" by force
    then have "quietly (program_trace f name @ ?g) h2"
      using user_mode_events [OF m] by (auto simp: quietly_def list_all_iff)
    moreover have "h' = h2"
      using assms Some True m by (simp add: reprogram_with_rbf_def file_readable_def program_trace_eq split: if_split_asm)
    ultimately show ?thesis using programs_trace [of h ?g f name h'] by simp
  qed
qed

lemma image_programs:
  assumes "reprogram_with_fpga_bin_image H f pkg h = Some (r, h')"
  shows "programs_once h h'"
proof (cases "h_section_exists H h pkg ACL_PKG_SECTION_RBF")
  case None
  with assms show ?thesis by (simp add: reprogram_with_fpga_bin_image_def programs_quietly)
next
  case (Some n)
  let ?tmp = "h_tmpnam H h"
  let ?ok = "h_section_to_file H (Tmpnam ?tmp # h) pkg ACL_PKG_SECTION_RBF ?tmp"
  let ?h = "Pkg_to_file pkg ACL_PKG_SECTION_RBF ?tmp ?ok # Tmpnam ?tmp # h"
  from assms Some have "h' = ?h \<or> (\<exists>r h2. reprogram_with_rbf H f (Some ?tmp) ?h = Some (r, h2) \<and> h' = Remove ?tmp # h2)"
    by (auto simp: reprogram_with_fpga_bin_image_def Let_def split: if_split_asm option.splits)
  moreover have "programs_once h (Remove ?tmp # h2)" if "reprogram_with_rbf H f (Some ?tmp) ?h = Some (r, h2)" for r h2
    using programs_after [of h ?h h2] rbf_programs [OF that] by (auto intro: programs_before)
  ultimately show ?thesis by (auto simp: programs_quietly)
qed

lemma load_quietly:
  assumes "acl_loadFileIntoMemory H fn h = Some (x, h')"
  shows "quietly h h'"
  using assms by (auto simp: acl_loadFileIntoMemory_def Let_def split: if_split_asm)

lemma fpga_bin_programs:
  assumes "reprogram_with_fpga_bin H f fn h = Some (r, h')"
  shows "programs_once h h'"
proof -
  from assms obtain x h1 where l: "acl_loadFileIntoMemory H fn h = Some (x, h1)"
    by (auto simp: reprogram_with_fpga_bin_def bind_Some_iff)
  note run = load_quietly [OF l]
  show ?thesis
  proof (cases x)
    case None
    with assms l run show ?thesis by (simp add: reprogram_with_fpga_bin_def programs_quietly)
  next
    case (Some pb)
    obtain p bs where pb: "pb = (p, bs)" by force
    let ?h2 = "Pkg_open bs (h_pkg_open H h1 bs) # h1"
    from assms l Some pb have "h' = ?h2 \<or>
        (\<exists>r h3. reprogram_with_fpga_bin_image H f (h_pkg_open H h1 bs) ?h2 = Some (r, h3) \<and> h' = Free p # h3)"
      by (auto simp: reprogram_with_fpga_bin_def bind_Some_iff Let_def split: if_split_asm)
    moreover have "programs_once h (Free p # h3)"
      if "reprogram_with_fpga_bin_image H f (h_pkg_open H h1 bs) ?h2 = Some (r, h3)" for r h3
      using programs_after [of h ?h2 h3] image_programs [OF that] run by (auto intro: programs_before)
    ultimately show ?thesis using run by (auto simp: programs_quietly)
  qed
qed

lemma aocx_programs:
  assumes "reprogram_with_aocx H f fn h = Some (r, h')"
  shows "programs_once h h'"
proof -
  from assms obtain x h1 where l: "acl_loadFileIntoMemory H fn h = Some (x, h1)"
    by (auto simp: reprogram_with_aocx_def bind_Some_iff)
  note run = load_quietly [OF l]
  show ?thesis
  proof (cases x)
    case None
    with assms l run show ?thesis by (auto simp: reprogram_with_aocx_def programs_quietly)
  next
    case (Some pb)
    obtain p bs where pb: "pb = (p, bs)" by force
    let ?h2 = "Pkg_open bs (h_pkg_open H h1 bs) # h1"
    from assms l Some pb have "h' = Free p # ?h2 \<or>
        (\<exists>bs' bin. h' = Free p # Pkg_open bs' bin # ?h2 \<or>
           reprogram_with_fpga_bin_image H f bin (Pkg_open bs' bin # ?h2) = Some (r, h'))"
      by (auto simp: reprogram_with_aocx_def Let_def split: if_split_asm option.splits)
    moreover have "programs_once h h'" if "reprogram_with_fpga_bin_image H f bin (Pkg_open bs' bin # ?h2) = Some (r, h')" for bs' bin
      using programs_after [of h "Pkg_open bs' bin # ?h2" h'] image_programs [OF that] run by simp
    ultimately show ?thesis using run by (auto simp: programs_quietly)
  qed
qed

lemma main_programs:
  assumes "reprogram_main H argv h = Some (r, h')"
  shows "programs_once h h'"
proof -
  let ?h1 = "Open (argv ! 1) (h_open H (Sigaction SIG_INT_NOTIFY # h) (argv ! 1)) # Sigaction SIG_INT_NOTIFY # h"
  have q: "quietly h ?h1" by simp
  obtain a rb b where m: "map_filenames_to_aocx_and_rbf (argv ! 2) = (a, rb, b)" by (metis prod_cases3)
  let ?f = "h_open H (Sigaction SIG_INT_NOTIFY # h) (argv ! 1)"
  from assms m have "h' = Sigaction SIG_INT_NOTIFY # h \<or> h' = ?h1 \<or> h' = Close ?f # ?h1 \<or>
      (\<exists>n h2. h' = Close ?f # h2 \<and> (reprogram_with_rbf H ?f (Some n) ?h1 = Some (r, h2) \<or>
        reprogram_with_aocx H ?f n ?h1 = Some (r, h2) \<or> reprogram_with_fpga_bin H ?f n ?h1 = Some (r, h2)))"
    by (auto simp: reprogram_main_def Let_def split: if_split_asm option.splits)
  moreover have "programs_once h (Close ?f # h2)"
    if "reprogram_with_rbf H ?f (Some n) ?h1 = Some (r, h2) \<or>
        reprogram_with_aocx H ?f n ?h1 = Some (r, h2) \<or> reprogram_with_fpga_bin H ?f n ?h1 = Some (r, h2)" for n h2
  proof -
    have "programs_once ?h1 h2"
      using that rbf_programs aocx_programs fpga_bin_programs by blast
    then show ?thesis using programs_before [of h h2 "Close ?f # h2"] programs_after [OF q] by simp
  qed
  ultimately show ?thesis by (auto simp: programs_quietly)
qed

subsection \<open>The board at the design and at the end\<close>

text \<open>Bridge commands are different commands, and none of them sends a design.\<close>

lemma bridge_cmd_eq [simp]: "bridge_cmd v b = bridge_cmd w c \<longleftrightarrow> v = w \<and> b = c"
  by (cases v; cases w; cases b; cases c) (simp_all add: bridge_cmd_def)

lemma program_cmd_other [simp]: "program_cmd n \<noteq> bridge_cmd v b" "bridge_cmd v b \<noteq> program_cmd n"
  "\<not> prefix ''cat '' (bridge_cmd v b)" "prefix ''cat '' (program_cmd n)"
  by (auto simp: bridge_cmd_def program_cmd_def)

lemma board_cmds [simp]:
  "board_cmd ACLPCI_CMD_SAVE_PCI_CONTROL_REGS \<noteq> board_cmd ACLPCI_CMD_LOAD_PCI_CONTROL_REGS"
  "board_cmd ACLPCI_CMD_LOAD_PCI_CONTROL_REGS \<noteq> board_cmd ACLPCI_CMD_SAVE_PCI_CONTROL_REGS"
  by (simp_all add: board_cmd_def hw_consts)

lemma bridge_step_cmd [simp]:
  "bridge_step (bridge_cmd True b) bs = insert b bs"
  "bridge_step (bridge_cmd False b) bs = bs - {b}"
  "bridge_step (program_cmd n) bs = bs"
  by (auto simp: bridge_step_def)

text \<open>Calls that are quiet change neither the board nor what failed.\<close>

lemma quiet_step: "quiet e \<Longrightarrow> board_step W h e s = s"
  by (cases e) (simp_all add: quiet_def board_step_def)

lemma quiet_after: "quietly h h' \<Longrightarrow> board_after W s h' = board_after W s h"
proof -
  have "list_all quiet u \<Longrightarrow> board_after W s (u @ h) = board_after W s h" for u
    by (induction u) (simp_all add: quiet_step)
  then show "quietly h h' \<Longrightarrow> ?thesis" by (auto simp: quietly_def)
qed

lemma quiet_failed:
  "list_all quiet u \<Longrightarrow> failed W (u @ h) c = failed W h c"
  "list_all quiet u \<Longrightarrow> refused W (u @ h) k = refused W h k"
  by (induction u) (auto simp: quiet_def split: uevent.splits)

lemma quiet_failed_all:
  assumes "list_all quiet u"
  shows "failed W u c = False" "refused W u k = False"
  using quiet_failed [OF assms, of W "[]"] by simp_all

text \<open>
  The board when the design is sent: a bridge is open if it was and the command that closes it
  failed, and the interrupt is released unless the request was refused. At the end a bridge is
  closed if the command that opens it failed and the one that closes it did not.
\<close>

lemma board_at_design:
  fixes f :: int and v :: uhist
  assumes "list_all quiet v"
  defines "g \<equiv> quieting_trace f @ v"
  shows "bridges (board_after W s g) = {b \<in> bridges s. failed W g (bridge_cmd False b)}"
    "irq (board_after W s g) =
       (if refused W g (board_cmd ACLPCI_CMD_SAVE_PCI_CONTROL_REGS) then irq s else irq_spec IRelease (irq s))"
proof -
  have a: "board_after W s v = s" using quiet_after [of "[]" v W s] assms(1) by (simp add: quietly_def)
  note facts = a quieting_trace_def board_step_def request_step_def quiet_failed_all [OF assms(1)]
  have "b \<in> bridges (board_after W s g) \<longleftrightarrow> b \<in> bridges s \<and> failed W g (bridge_cmd False b)" for b
    by (cases b) (auto simp: g_def facts)
  then show "bridges (board_after W s g) = {b \<in> bridges s. failed W g (bridge_cmd False b)}" by blast
  show "irq (board_after W s g) =
       (if refused W g (board_cmd ACLPCI_CMD_SAVE_PCI_CONTROL_REGS) then irq s else irq_spec IRelease (irq s))"
    by (simp add: g_def facts)
qed

lemma board_at_end:
  fixes f :: int and name :: string and u v :: uhist
  assumes "list_all quiet u" "list_all quiet v"
  defines "g \<equiv> quieting_trace f @ v"
    and "h \<equiv> u @ program_trace f name @ v"
  shows "bridges (board_after W s h) =
      {b. \<not> failed W h (bridge_cmd True b) \<or> b \<in> bridges s \<and> failed W h (bridge_cmd False b)}"
    "irq (board_after W s h) =
       (if refused W h (board_cmd ACLPCI_CMD_LOAD_PCI_CONTROL_REGS) then irq (board_after W s g)
        else irq_spec (IInit (granted W (tl (program_trace f name @ v)))) (irq (board_after W s g)))"
proof -
  let ?p = "program_trace f name @ v"
  have q: "quietly ?p h" using assms(1) by (auto simp: quietly_def h_def)
  have fl: "failed W h c = failed W ?p c" "refused W h k = refused W ?p k" for c k
    using quiet_failed [OF assms(1), of W ?p] by (simp_all add: h_def)
  have g: "failed W g (bridge_cmd True b) = False" "refused W g (board_cmd ACLPCI_CMD_LOAD_PCI_CONTROL_REGS) = False" for b
    by (simp_all add: g_def quieting_trace_def quiet_failed_all [OF assms(2)])
  have p: "?p = Request f (board_cmd ACLPCI_CMD_LOAD_PCI_CONTROL_REGS) #
      System (bridge_cmd True Lwhps2fpga) # System (bridge_cmd True Hps2fpga) #
      System (bridge_cmd True Fpga2hps) # System (program_cmd name) # g"
    by (simp add: program_trace_def g_def)
  note at = board_at_design [OF assms(2), of W s f, folded g_def]
  note facts = p board_step_def request_step_def at(1) g
  have "b \<in> bridges (board_after W s ?p) \<longleftrightarrow>
      \<not> failed W ?p (bridge_cmd True b) \<or> b \<in> bridges s \<and> failed W ?p (bridge_cmd False b)" for b
    by (cases b) (auto simp: facts)
  then show "bridges (board_after W s h) =
      {b. \<not> failed W h (bridge_cmd True b) \<or> b \<in> bridges s \<and> failed W h (bridge_cmd False b)}"
    unfolding quiet_after [OF q] fl by blast
  show "irq (board_after W s h) =
       (if refused W h (board_cmd ACLPCI_CMD_LOAD_PCI_CONTROL_REGS) then irq (board_after W s g)
        else irq_spec (IInit (granted W (tl ?p))) (irq (board_after W s g)))"
    unfolding quiet_after [OF q] fl by (simp add: facts)
qed

subsection \<open>The design is sent to a quiet board\<close>

text \<open>
  A history is safe when every request reaches the board over open bridges, and the design is
  sent only while the bridges are closed and the interrupt is masked and released.
\<close>

primrec safe :: "outcomes \<Rightarrow> board_state \<Rightarrow> uhist \<Rightarrow> bool" where
  "safe W s [] = True"
| "safe W s (e # h) =
     (safe W s h \<and>
      (case e of
         Request f c \<Rightarrow> bridges (board_after W s h) = UNIV
       | System c \<Rightarrow> (prefix ''cat '' c \<longrightarrow>
           bridges (board_after W s h) = {} \<and> irq (board_after W s h) = \<lparr>requested = False, enabled = False\<rparr>)
       | _ \<Rightarrow> True))"

lemma quiet_safe: "list_all quiet u \<Longrightarrow> safe W s (u @ h) = safe W s h"
  by (induction u) (auto simp: quiet_def split: uevent.splits)

lemma quiet_succeeded: "list_all quiet u \<Longrightarrow> succeeded W (u @ h) = succeeded W h"
  by (induction u) (auto simp: quiet_def split: uevent.splits)

lemma succeeded_if:
  "(\<And>h c. ran W h c) \<Longrightarrow> (\<And>h c. served W h c) \<Longrightarrow> (\<And>h. granted W h) \<Longrightarrow> succeeded W h"
  by (induction h) (auto split: uevent.splits)

lemma UNIV_bridge: "UNIV = {Fpga2hps, Hps2fpga, Lwhps2fpga}"
  using bridge.exhaust by blast

lemma program_safe:
  fixes f :: int and name :: string and u v :: uhist
  assumes "list_all quiet u" "list_all quiet v" "succeeded W (u @ program_trace f name @ v)" "bridges s = UNIV"
  defines "h \<equiv> u @ program_trace f name @ v"
  shows "safe W s h" "bridges (board_after W s h) = UNIV"
    "irq (board_after W s h) = \<lparr>requested = True, enabled = True\<rparr>"
proof -
  have q: "quietly (program_trace f name @ v) h" using assms(1) by (auto simp: quietly_def h_def)
  have v: "board_after W s v = s" "safe W s v"
    using quiet_after [of "[]" v W s] quiet_safe [of v W s "[]"] assms(2) by (simp_all add: quietly_def)
  have ok: "succeeded W (program_trace f name @ v)"
    using assms(3) quiet_succeeded [OF assms(1), of W] by simp
  note facts = program_trace_def quieting_trace_def board_step_def request_step_def v assms(4)
  show "safe W s h"
    using ok unfolding h_def quiet_safe [OF assms(1)] by (auto simp: facts UNIV_bridge)
  show "bridges (board_after W s h) = UNIV"
    using ok unfolding quiet_after [OF q] by (auto simp: facts UNIV_bridge)
  show "irq (board_after W s h) = \<lparr>requested = True, enabled = True\<rparr>"
    using ok unfolding quiet_after [OF q] by (simp add: facts)
qed

lemma main_splits:
  assumes "reprogram_main H argv [] = Some (r, h)"
  shows "list_all quiet h \<or>
    (\<exists>f name u v. list_all quiet u \<and> list_all quiet v \<and> h = u @ program_trace f name @ v)"
  using main_programs [OF assms] by (auto simp: programs_once_def quietly_def)

end
