(* ===== verification/Diagnostic.thy ===== *)
theory Diagnostic
  imports Acl_Prelude
begin

section \<open>The diagnostic program (diagnostic.c)\<close>

text \<open>
  The installation check and the buffer test of \<open>diagnostic.c\<close>. The OpenCL runtime, the shell
  and the device file are a parameter \<open>rt\<close> of answers, with the calls recorded in a history,
  newest first. The static handles are a record, 0 for a null handle. \<open>dump_error\<close> ends the
  program: a computation is \<^const>\<open>Inl\<close> of the exit code, or \<^const>\<open>Inr\<close> of its result.
  Printing and the queries whose results are only printed are recorded without their text.
\<close>

datatype clevent =
    Shell string int
  | Open_dev string int
  | Close_dev int
  | Get_platforms int
  | Get_platform nat int
  | Get_devices nat int
  | Device_info int
  | Create_context nat int
  | Create_queue nat int
  | Create_buffer nat nat int
  | Write_buffer nat "u8 list" int
  | Read_buffer nat "u8 list" int
  | Release_kernel nat
  | Release_program nat
  | Release_queue nat
  | Release_context nat
  | Release_mem nat
  | Malloc_buf nat ptr
  | Free_buf ptr

type_synonym clhist = "clevent list"

record rt =
  r_system :: "clhist \<Rightarrow> string \<Rightarrow> int"
  r_open :: "clhist \<Rightarrow> string \<Rightarrow> int"
  r_num_platforms :: "clhist \<Rightarrow> int"
  r_platform :: "clhist \<Rightarrow> nat \<times> int"
  r_device :: "clhist \<Rightarrow> nat \<times> int"
  r_info :: "clhist \<Rightarrow> int"
  r_context :: "clhist \<Rightarrow> nat \<times> int"
  r_queue :: "clhist \<Rightarrow> nat \<times> int"
  r_buffer :: "clhist \<Rightarrow> nat \<Rightarrow> nat \<times> int"
  r_write :: "clhist \<Rightarrow> nat \<Rightarrow> u8 list \<Rightarrow> int"
  r_read :: "clhist \<Rightarrow> nat \<Rightarrow> u8 list \<Rightarrow> u8 list \<times> int"
  r_malloc :: "clhist \<Rightarrow> nat \<Rightarrow> ptr"

record handles =
  clkernel :: nat
  clprogram :: nat
  clqueue :: nat
  clcontext :: nat

definition CL_SUCCESS :: int where "CL_SUCCESS = 0"

text \<open>The last factor is written in octal in the source: 16 * 1024 * 84.\<close>

definition SHARED_BUFFER_SIZE :: nat where "SHARED_BUFFER_SIZE = 16 * 1024 * 84"

definition no_handles :: handles where
  "no_handles = \<lparr>clkernel = 0, clprogram = 0, clqueue = 0, clcontext = 0\<rparr>"

definition freeResources :: "handles \<Rightarrow> clhist \<Rightarrow> clhist" where
  "freeResources g h =
     (let h = (if clkernel g \<noteq> 0 then Release_kernel (clkernel g) # h else h);
          h = (if clprogram g \<noteq> 0 then Release_program (clprogram g) # h else h);
          h = (if clqueue g \<noteq> 0 then Release_queue (clqueue g) # h else h)
      in (if clcontext g \<noteq> 0 then Release_context (clcontext g) # h else h))"

definition dump_error :: "handles \<Rightarrow> clhist \<Rightarrow> (int + 'a) \<times> clhist" where
  "dump_error g h = (Inl (-1), freeResources g h)"

definition ocl_device_init :: "rt \<Rightarrow> handles \<Rightarrow> clhist \<Rightarrow> (int + handles) \<times> clhist" where
  "ocl_device_init R g h =
     (let status = r_num_platforms R h; h = Get_platforms status # h
      in if status \<noteq> CL_SUCCESS then dump_error g h
         else
           let (platform, status) = r_platform R h; h = Get_platform platform status # h
           in if status \<noteq> CL_SUCCESS then dump_error g h
              else
                let (device, status) = r_device R h; h = Get_devices device status # h
                in if status \<noteq> CL_SUCCESS then dump_error g h
                   else
                     let h = Device_info (r_info R h) # h;
                         h = Device_info (r_info R h) # h;
                         (c, status) = r_context R h; h = Create_context c status # h;
                         g = g\<lparr>clcontext := c\<rparr>
                     in if status \<noteq> CL_SUCCESS then dump_error g h
                        else
                          let (q, status) = r_queue R h; h = Create_queue q status # h;
                              g = g\<lparr>clqueue := q\<rparr>
                          in if status \<noteq> CL_SUCCESS then dump_error g h else (Inr g, h))"

definition general_basic_tests :: "rt \<Rightarrow> clhist \<Rightarrow> int \<times> clhist" where
  "general_basic_tests R h =
     (let cmd = ''cat /proc/modules | grep \"aclsoc_drv\" > /dev/null'';
          r = r_system R h cmd; h = Shell cmd r # h
      in if r \<noteq> 0 then (-1, h)
         else
           let f = r_open R h ''/dev/acl0''; h = Open_dev ''/dev/acl0'' f # h
           in if f = -1 then (-1, h) else (0, Close_dev f # h))"

text \<open>The comparison loop: the first index at which the buffers differ.\<close>

definition first_mismatch :: "u8 list \<Rightarrow> u8 list \<Rightarrow> nat option" where
  "first_mismatch xs ys = find (\<lambda>i. xs ! i \<noteq> ys ! i) [0..<length xs]"

text \<open>The buffer test after the queries, with the two buffers allocated at \<open>p1\<close> and \<open>p2\<close>.\<close>

definition buffer_test :: "rt \<Rightarrow> handles \<Rightarrow> ptr \<Rightarrow> ptr \<Rightarrow> clhist \<Rightarrow> (int + int) \<times> clhist" where
  "buffer_test R g p1 p2 h =
     (let shared_buf1 = map of_nat [0..<SHARED_BUFFER_SIZE];
          shared_buf2 = replicate SHARED_BUFFER_SIZE (-1);
          (in1, status) = r_buffer R h SHARED_BUFFER_SIZE;
          h = Create_buffer SHARED_BUFFER_SIZE in1 status # h
      in if status \<noteq> CL_SUCCESS then dump_error g h
         else
           let status = r_write R h in1 shared_buf1; h = Write_buffer in1 shared_buf1 status # h
           in if status \<noteq> CL_SUCCESS then dump_error g h
              else
                let (new, status) = r_read R h in1 shared_buf2; h = Read_buffer in1 new status # h
                in if status \<noteq> CL_SUCCESS then dump_error g h
                   else
                     (case first_mismatch shared_buf1 new of
                        Some i \<Rightarrow> (Inr (-1), freeResources g h)
                      | None \<Rightarrow>
                          (Inr 0, freeResources g (Release_mem in1 # Free_buf p2 # Free_buf p1 # h))))"

definition scan_device :: "rt \<Rightarrow> clhist \<Rightarrow> (int + int) \<times> clhist" where
  "scan_device R h =
     (case ocl_device_init R no_handles h of
        (Inl e, h) \<Rightarrow> (Inl e, h)
      | (Inr g, h) \<Rightarrow>
          let status = r_info R h; h = Device_info status # h
          in if status \<noteq> CL_SUCCESS then dump_error g h
             else
               let status = r_info R h; h = Device_info status # h
               in if status \<noteq> CL_SUCCESS then dump_error g h
                  else
                    let p1 = r_malloc R h SHARED_BUFFER_SIZE; h = Malloc_buf SHARED_BUFFER_SIZE p1 # h;
                        p2 = r_malloc R h SHARED_BUFFER_SIZE; h = Malloc_buf SHARED_BUFFER_SIZE p2 # h
                    in if p1 = 0 \<or> p2 = 0 then dump_error g h else buffer_test R g p1 p2 h)"

definition diagnostic_main :: "rt \<Rightarrow> clhist \<Rightarrow> int \<times> clhist" where
  "diagnostic_main R h =
     (let (r, h) = general_basic_tests R h
      in if r \<noteq> 0 then (1, h)
         else
           (case scan_device R h of
              (Inl e, h) \<Rightarrow> (e, h)
            | (Inr r, h) \<Rightarrow> (if r \<noteq> 0 then 1 else 0, h)))"

subsection \<open>Contexts and queues are given back on every path\<close>

datatype clobj = OContext nat | OQueue nat

fun cl_acquires :: "clevent \<Rightarrow> clobj list" where
  "cl_acquires (Create_context c st) = (if c = 0 then [] else [OContext c])"
| "cl_acquires (Create_queue q st) = (if q = 0 then [] else [OQueue q])"
| "cl_acquires e = []"

fun cl_releases :: "clevent \<Rightarrow> clobj list" where
  "cl_releases (Release_context c) = [OContext c]"
| "cl_releases (Release_queue q) = [OQueue q]"
| "cl_releases e = []"

definition cl_acquired :: "clhist \<Rightarrow> clobj multiset" where
  "cl_acquired h = mset (concat (map cl_acquires h))"

definition cl_released :: "clhist \<Rightarrow> clobj multiset" where
  "cl_released h = mset (concat (map cl_releases h))"

definition held :: "handles \<Rightarrow> clobj multiset" where
  "held g = (if clcontext g = 0 then {#} else {#OContext (clcontext g)#}) +
            (if clqueue g = 0 then {#} else {#OQueue (clqueue g)#})"

text \<open>The handles are what was acquired and not released.\<close>

definition cl_balanced :: "handles \<Rightarrow> clhist \<Rightarrow> bool" where
  "cl_balanced g h \<longleftrightarrow> cl_acquired h = cl_released h + held g"

lemma cl_Cons [simp]:
  "cl_acquired (e # h) = mset (cl_acquires e) + cl_acquired h"
  "cl_released (e # h) = mset (cl_releases e) + cl_released h"
  by (simp_all add: cl_acquired_def cl_released_def)

lemma freeResources_balance:
  "cl_balanced g h \<Longrightarrow> cl_acquired (freeResources g h) = cl_released (freeResources g h)"
  by (simp add: freeResources_def cl_balanced_def held_def)

lemma dump_error_balance:
  "cl_balanced g h \<Longrightarrow> dump_error g h = (x, h') \<Longrightarrow> cl_acquired h' = cl_released h'"
  using freeResources_balance by (auto simp: dump_error_def)

lemma balanced_skip [simp]:
  "cl_acquires e = [] \<Longrightarrow> cl_releases e = [] \<Longrightarrow> cl_balanced g (e # h) = cl_balanced g h"
  by (simp add: cl_balanced_def)

lemma init_balance:
  assumes "ocl_device_init R no_handles h = (x, h')" "cl_balanced no_handles h"
  shows "case x of Inl e \<Rightarrow> e = -1 \<and> cl_acquired h' = cl_released h' | Inr g \<Rightarrow> cl_balanced g h'"
proof -
  have ctx: "cl_balanced (no_handles\<lparr>clcontext := c\<rparr>) (Create_context c st # h1)" if "cl_balanced no_handles h1" for c st h1
    using that by (simp add: cl_balanced_def held_def no_handles_def)
  have qu: "cl_balanced (no_handles\<lparr>clcontext := c, clqueue := q\<rparr>) (Create_queue q st # h1)"
    if "cl_balanced (no_handles\<lparr>clcontext := c\<rparr>) h1" for c q st h1
    using that by (simp add: cl_balanced_def held_def no_handles_def)
  show ?thesis
    using assms
    by (auto simp: ocl_device_init_def Let_def dump_error_def ctx qu freeResources_balance
        split: if_split_asm prod.splits)
qed

lemma buffer_test_balance:
  assumes "buffer_test R g p1 p2 h = (x, h')" "cl_balanced g h"
  shows "cl_acquired h' = cl_released h'"
  using assms
  by (auto simp: buffer_test_def Let_def dump_error_def freeResources_balance
      split: if_split_asm prod.splits option.splits)

definition snd_balanced :: "'a \<times> clhist \<Rightarrow> bool" where
  "snd_balanced p \<longleftrightarrow> cl_acquired (snd p) = cl_released (snd p)"

lemma snd_balanced_if: "snd_balanced a \<Longrightarrow> snd_balanced b \<Longrightarrow> snd_balanced (if P then a else b)"
  by simp

lemma snd_balanced_dump: "cl_balanced g h \<Longrightarrow> snd_balanced (dump_error g h)"
  by (simp add: snd_balanced_def dump_error_def freeResources_balance)

lemma snd_balanced_test: "cl_balanced g h \<Longrightarrow> snd_balanced (buffer_test R g p1 p2 h)"
  unfolding snd_balanced_def by (rule buffer_test_balance [OF surjective_pairing])

lemma scan_balance:
  assumes "scan_device R h = (x, h')" "cl_balanced no_handles h"
  shows "cl_acquired h' = cl_released h'"
proof -
  obtain y h1 where i: "ocl_device_init R no_handles h = (y, h1)" by force
  note b = init_balance [OF i assms(2)]
  show ?thesis
  proof (cases y)
    case (Inl e)
    with assms i b show ?thesis by (simp add: scan_device_def)
  next
    case (Inr g)
    with b have g: "cl_balanced g h1" by simp
    let ?h2 = "Device_info (r_info R h1) # h1"
    let ?h3 = "Device_info (r_info R ?h2) # ?h2"
    let ?p1 = "r_malloc R ?h3 SHARED_BUFFER_SIZE"
    let ?h4 = "Malloc_buf SHARED_BUFFER_SIZE ?p1 # ?h3"
    let ?p2 = "r_malloc R ?h4 SHARED_BUFFER_SIZE"
    let ?h5 = "Malloc_buf SHARED_BUFFER_SIZE ?p2 # ?h4"
    have bal: "cl_balanced g ?h2" "cl_balanced g ?h3" "cl_balanced g ?h5" using g by simp_all
    have eq: "scan_device R h =
        (if r_info R h1 \<noteq> CL_SUCCESS then dump_error g ?h2
         else if r_info R ?h2 \<noteq> CL_SUCCESS then dump_error g ?h3
         else if ?p1 = 0 \<or> ?p2 = 0 then dump_error g ?h5 else buffer_test R g ?p1 ?p2 ?h5)"
      using i Inr by (simp add: scan_device_def Let_def)
    have "snd_balanced (scan_device R h)"
      unfolding eq
      by (intro snd_balanced_if snd_balanced_dump [OF bal(1)] snd_balanced_dump [OF bal(2)]
          snd_balanced_dump [OF bal(3)] snd_balanced_test [OF bal(3)])
    then show ?thesis using assms(1) by (simp add: snd_balanced_def)
  qed
qed

subsection \<open>The buffer test\<close>

lemma first_mismatch_None:
  assumes "length ys = length xs"
  shows "first_mismatch xs ys = None \<longleftrightarrow> ys = xs"
proof
  assume "first_mismatch xs ys = None"
  then have "\<forall>i < length xs. xs ! i = ys ! i" by (auto simp: first_mismatch_def find_None_iff)
  then show "ys = xs" using assms by (intro nth_equalityI) auto
next
  assume "ys = xs"
  then show "first_mismatch xs ys = None" by (simp add: first_mismatch_def find_None_iff)
qed

text \<open>When every OpenCL call succeeds, the test passes exactly when the bytes read back are those written.\<close>

lemma buffer_test_decides_equality:
  assumes "\<And>h n. snd (r_buffer R h n) = 0" "\<And>h b bs. r_write R h b bs = 0" "\<And>h b bs. snd (r_read R h b bs) = 0"
    "\<And>h b bs. length (fst (r_read R h b bs)) = length bs"
  shows "\<exists>b new. Read_buffer b new 0 \<in> set (snd (buffer_test R g p1 p2 h)) \<and>
    fst (buffer_test R g p1 p2 h) = Inr (if new = map of_nat [0..<SHARED_BUFFER_SIZE] then 0 else -1)"
proof -
  let ?xs = "map of_nat [0..<SHARED_BUFFER_SIZE] :: u8 list" and ?ys = "replicate SHARED_BUFFER_SIZE (-1 :: u8)"
  obtain b where b: "r_buffer R h SHARED_BUFFER_SIZE = (b, 0)" using assms(1) by (metis prod.collapse)
  let ?h2 = "Write_buffer b ?xs 0 # Create_buffer SHARED_BUFFER_SIZE b 0 # h"
  obtain new where new: "r_read R ?h2 b ?ys = (new, 0)" using assms(3) by (metis prod.collapse)
  have "length new = length ?xs" using assms(4) [of ?h2 b ?ys] new by simp
  note mm = first_mismatch_None [OF this]
  have free: "Read_buffer b new 0 \<in> set (freeResources g (t @ Read_buffer b new 0 # ?h2))" for t
    by (simp add: freeResources_def Let_def)
  show ?thesis
  proof (cases "new = ?xs")
    case True
    then have "buffer_test R g p1 p2 h =
        (Inr 0, freeResources g ([Release_mem b, Free_buf p2, Free_buf p1] @ Read_buffer b new 0 # ?h2))"
      using mm b new assms(2) by (simp add: buffer_test_def CL_SUCCESS_def Let_def)
    then show ?thesis
      using True free [of "[Release_mem b, Free_buf p2, Free_buf p1]"] by (intro exI [of _ b] exI [of _ new]) simp
  next
    case False
    with mm obtain i where "first_mismatch ?xs new = Some i" by auto
    then have "buffer_test R g p1 p2 h = (Inr (-1), freeResources g ([] @ Read_buffer b new 0 # ?h2))"
      using b new assms(2) by (simp add: buffer_test_def CL_SUCCESS_def Let_def)
    then show ?thesis
      using False free [of "[]"] by (intro exI [of _ b] exI [of _ new]) simp
  qed
qed

end
