(* ===== verification/Acl_Example.thy ===== *)
theory Acl_Example
  imports User_Main Reprogram Diagnostic
begin

section \<open>Concrete environments\<close>

text \<open>
  A kernel in which every call succeeds, a device as a probe leaves it, two memories, a host and
  an OpenCL runtime, on which the properties are instantiated.
\<close>

definition kern0 :: kernel where
  "kern0 = \<lparr>
     ans_uninit = (\<lambda>h i. 0), ans_down = (\<lambda>h. 0),
     ans_copy_from_user = (\<lambda>h p old. (\<lambda>i. 0, 0)), ans_copy_to_user = (\<lambda>h p bs. 0),
     ans_readb = (\<lambda>h p. 0), ans_readw = (\<lambda>h p. 0), ans_readl = (\<lambda>h p. 0),
     ans_send_sig_info = (\<lambda>h sg i t. 0), ans_request_irq = (\<lambda>h n. 0),
     ans_dma_alloc_coherent = (\<lambda>h n. (0xC1000000, 0x1000000)),
     ans_remap_pfn_range = (\<lambda>h v pfn n prot. 0),
     ans_kmalloc = (\<lambda>h n. 0xC2000000), ans_kzalloc = (\<lambda>h n. 0xC3000000),
     ans_alloc_chrdev_region = (\<lambda>h m n nm. (0, 0xFA00000)),
     ans_class_create = (\<lambda>h nm. 0xC4000000), ans_cdev_add = (\<lambda>h n c. 0),
     ans_device_create = (\<lambda>h c n nm. 0xC5000000), ans_ioremap = (\<lambda>h b n. 0xE0000000),
     sizeof_aclsoc_dev = 400, IS_ERR = (\<lambda>p. p = 0xFFFFFFF4),
     MAJOR = (\<lambda>n. drop_bit 20 n), MKDEV = (\<lambda>a b. push_bit 20 a OR b), pgprot_noncached = (\<lambda>p. p),
     kr_init = 1, kr_get = (\<lambda>r. r + 1), kr_put = (\<lambda>r. (r - 1, r = 1))\<rparr>"

definition dev0 :: aclsoc_dev where
  "dev0 = zero_dev\<lparr>
     mapped_region := (\<lambda>i. if i = 0 then 0xE0000000 else if i = 2 then 0xF0000000 else 0),
     mapped_region_size := (\<lambda>i. if i = 0 then 0x20000 else if i = 2 then 0x40000 else 0),
     addr_map := 0xC3000000, addr_map_mem := replicate MAX_ADDR_MAP_ENTRIES zero_elem,
     buffer := 0xC2000000, buffer_mem := replicate BUF_SIZE 0, user_pid := -1\<rparr>"

lemma dev0_wf: "dev_wf dev0"
  by (simp add: dev_wf_def dev0_def zero_dev_def)

lemma dev0_table: "addr_map_mem dev0 = replicate MAX_ADDR_MAP_ENTRIES zero_elem"
  by (simp add: dev0_def)

lemma kern0_kref: "kref_ok kern0"
  by (simp add: kref_ok_def kern0_def)

text \<open>A process memory that holds a request at address 0, and zeros elsewhere.\<close>

definition mem_with :: "acl_cmd \<Rightarrow> mem" where
  "mem_with c = store 0 (encode_cmd c) (\<lambda>_. 0)"

lemma load_mem_with: "load (mem_with c) 0 sizeof_acl_cmd = encode_cmd c"
  using load_store [of "encode_cmd c" 0 "\<lambda>_. 0"] by (simp add: mem_with_def sizeof_acl_cmd_def)

definition kern_with :: "acl_cmd \<Rightarrow> kernel" where
  "kern_with c = ram_kernel kern0 (mem_with c) (\<lambda>_. 0)"

lemma kern_with_backed: "backed (kern_with c) (mem_with c) (\<lambda>_. 0)"
  unfolding kern_with_def by (rule backed_ram)

lemma kern_with_arrives: "arrives (kern_with c) 0 [] c"
proof -
  have "map (\<lambda>i. user_view (mem_with c) [Down 0] (of_nat i)) [0..<sizeof_acl_cmd] = encode_cmd c"
    using load_mem_with [of c] by (simp add: load_def view_Cons)
  then show ?thesis
    by (simp add: arrives_def copy_from_user_def kern_with_def ram_kernel_def Let_def)
qed

definition frame0 :: frame where
  "frame0 = \<lparr>cmd_at = 0x1000, val_at = 0x2000, ua_at = 0x10000, ub_at = 0x20000\<rparr>"

definition machine0 :: machine where
  "machine0 = \<lparr>pmem = (\<lambda>_. 0), ram = (\<lambda>_. 0), bmem = (\<lambda>_. 0), mdev = dev0, pages = [],
     files = (\<lambda>fd. if fd = 3 then Some board_file else None), shell = []\<rparr>"

definition mframe0 :: mframe where
  "mframe0 = \<lparr>mcmd_at = 0x3000, mem_at = 0x4000, phys_at = 0x4010, seg_at = 0x4020\<rparr>"

definition system0 :: system where
  "system0 = \<lparr>sy_kernel = kern0,
     sy_map_addr = (\<lambda>ps n. if ps = [] then 0x40000000 else 0x50000000), sy_map_prot = 0,
     sy_open = (\<lambda>name. if name = board_file then 3 else 4), sy_pid = 17, sy_task = 0xC6000000\<rparr>"

definition vma0 :: vma where
  "vma0 = \<lparr>vma_start = 0x40000000, vma_end = 0x40001000, vma_page_prot = 0, vma_ops = False,
          vma_private = None\<rparr>"

definition elem0 :: addr_map_elem where
  "elem0 = \<lparr>vm_start = 0x40000000, map_size = 0x1000, cpu_addr = 0xC1000000,
           dma_handle = 0x1000000, ref = 1\<rparr>"

lemma replicate_slots: "replicate 204 x = x # replicate 203 x"
proof -
  have "(204 :: nat) = Suc 203" by simp
  then show ?thesis by (metis replicate_Suc)
qed

lemma used_prefix_empty: "used_prefix (replicate n zero_elem) = []"
  by (cases n) (simp_all add: used_prefix_def)

lemma mmap_dev0:
  "aclsoc_mmap kern0 vma0 dev0 h = Some (0, vma0\<lparr>vma_ops := True, vma_private := Some 0\<rparr>,
     dev0\<lparr>addr_map_mem := elem0 # replicate 203 zero_elem\<rparr>,
     Remap_pfn_range 0x40000000 (drop_bit PAGE_SHIFT 0x1000000) 0x1000 0 0 #
     Dma_alloc_coherent 0x1000 0xC1000000 0x1000000 # h)"
  unfolding aclsoc_mmap_eq [OF dev0_wf] dev0_table used_prefix_empty
  by (simp add: hw_consts kern0_def vma0_def Let_def table_insert_def elem0_def used_prefix_empty)
    (simp add: dev0_def replicate_slots)

lemma machine0_open: "board_open 3 machine0"
  by (simp add: board_open_def machine0_def dev0_wf)

lemma machine0_table: "addr_map_mem (mdev machine0) = zero_elem # replicate 203 zero_elem"
  by (simp add: machine0_def dev0_table hw_consts replicate_slots)

lemma frame0_ok: "frame_ok frame0 10" "frame_ok frame0 3072"
  by (simp_all add: frame_ok_def apart_def frame0_def sizeof_acl_cmd_def)

lemma system0_maps: "mmap_granted system0" "mmap_placed system0 mframe0 3"
  using kern0_kref
  by (simp_all add: mmap_granted_def mmap_placed_def system0_def kern0_def mframe_ok_def apart_def
      mframe0_def sizeof_acl_cmd_def buffer_size_def MAP_FAILED_def mem_file_def board_file_def hw_consts)

lemma system0_main: "main_env system0 frame0 frame0 mframe0"
  using system0_maps frame0_ok by (simp add: main_env_def) (simp add: system0_def)

lemma kern0_probe:
  obtains drv d0 h0 where "aclsoc_probe kern0 unloaded [] = (0, drv, h0)" "aclsoc_obj drv = Some d0"
    "addr_map d0 \<noteq> 0"
  by (simp add: aclsoc_probe_def kern0_def init_chrdev_def map_regions_def init_irq_def env_simps
      Let_def addr_map_bytes unmask_irq_def)

definition host0 :: host where
  "host0 = \<lparr>h_fopen = (\<lambda>h n. True), h_fgets = (\<lambda>h n. Some ''user mode''), h_ftell = (\<lambda>h n. 1),
     h_fread = (\<lambda>h n. [0]), h_malloc = (\<lambda>h n. 0x1000), h_tmpnam = (\<lambda>h. ''/tmp/fileA''),
     h_open = (\<lambda>h n. 3), h_pkg_open = (\<lambda>h bs. 1), h_section_exists = (\<lambda>h p n. Some 1),
     h_section_to_file = (\<lambda>h p n t. True), h_section_transient = (\<lambda>h p n. Some [0]),
     h_uninit_int = 7\<rparr>"

definition rt0 :: rt where
  "rt0 = \<lparr>r_system = (\<lambda>h c. 0), r_open = (\<lambda>h n. 3), r_num_platforms = (\<lambda>h. 0),
     r_platform = (\<lambda>h. (1, 0)), r_device = (\<lambda>h. (1, 0)), r_info = (\<lambda>h. 0),
     r_context = (\<lambda>h. (1, 0)), r_queue = (\<lambda>h. (1, 0)), r_buffer = (\<lambda>h n. (1, 0)),
     r_write = (\<lambda>h b bs. 0), r_read = (\<lambda>h b bs. (bs, 0)), r_malloc = (\<lambda>h n. 0x1000)\<rparr>"

end
