(* ===== verification/Acl_Board.thy ===== *)
theory Acl_Board
  imports Acl_Exports
begin

section \<open>The board's registers (hw\_pcie\_constants.h)\<close>

text \<open>
  The rest of the address map of \<^verbatim>\<open>hw_pcie_constants.h\<close>: identities, the addresses of the registers
  behind the light-weight bridge and, as bit positions, the bits of the DMA controller. The lemmas
  are about the bit-field macros on whole words; that the constants are those of the header's text
  is shown in \<^verbatim>\<open>Card_Headers\<close>.
\<close>

subsection \<open>Constants\<close>

definition QSYS_IFACE :: u32 where "QSYS_IFACE = 1"
definition ACL_PCI_NUM_BARS :: u32 where "ACL_PCI_NUM_BARS = 4"
definition ACL_PCI_ALTERA_VENDOR_ID :: u32 where "ACL_PCI_ALTERA_VENDOR_ID = 0x1172"
definition ACL_PCI_BSP_DEVICE_ID :: u32 where "ACL_PCI_BSP_DEVICE_ID = ACL_C5DK_DEVICE_ID"
definition ACL_PCI_SUBSYSTEM_VENDOR_ID :: u32 where "ACL_PCI_SUBSYSTEM_VENDOR_ID = 0x1172"
definition ACL_PCI_SUBSYSTEM_DEVICE_ID :: u32 where "ACL_PCI_SUBSYSTEM_DEVICE_ID = 0x0004"
definition ACL_PCI_GLOBAL_MEM_BAR :: u32 where "ACL_PCI_GLOBAL_MEM_BAR = 0"
definition ACL_PCI_CRA_BAR :: u32 where "ACL_PCI_CRA_BAR = 0"
definition ACL_PCI_CRA_OFFSET :: u32 where "ACL_PCI_CRA_OFFSET = 0"
definition ACL_PCI_CRA_SIZE :: u32 where "ACL_PCI_CRA_SIZE = 0x4000"
definition ACL_KERNEL_CSR_BAR :: u32 where "ACL_KERNEL_CSR_BAR = 0"
definition ACL_PCIE_DMA_BAR :: u32 where "ACL_PCIE_DMA_BAR = 0"
definition ACL_PCIE_DMA_OFFSET :: u32 where "ACL_PCIE_DMA_OFFSET = 0x0c800"
definition ACL_PCIE_DMA_DESCRIPTOR_BAR :: u32 where "ACL_PCIE_DMA_DESCRIPTOR_BAR = 0"
definition ACL_PCIE_DMA_DESCRIPTOR_OFFSET :: u32 where "ACL_PCIE_DMA_DESCRIPTOR_OFFSET = 0x0c820"
definition PCIE_CRA_IRQ_STATUS :: u32 where "PCIE_CRA_IRQ_STATUS = 0x0040"
definition PCIE_CRA_ADDR_TRANS :: u32 where "PCIE_CRA_ADDR_TRANS = 0x1000"
definition ACL_PCIE_KERNEL_IRQ_VEC :: u32 where "ACL_PCIE_KERNEL_IRQ_VEC = 0"
definition ACL_PCIE_DMA_IRQ_VEC :: u32 where "ACL_PCIE_DMA_IRQ_VEC = 1"
definition USE_KERNELPLL_RECONFIG :: u32 where "USE_KERNELPLL_RECONFIG = 0"
definition ACL_PCIE_KERNELPLL_RECONFIG_BAR :: u32 where "ACL_PCIE_KERNELPLL_RECONFIG_BAR = 0"
definition ACL_PCIE_KERNELPLL_RECONFIG_OFFSET :: u32 where "ACL_PCIE_KERNELPLL_RECONFIG_OFFSET = 0x0c000"
definition PIO_DATA :: u32 where "PIO_DATA = 0 * 4"
definition PIO_SET :: u32 where "PIO_SET = 4 * 4"
definition PIO_CLR :: u32 where "PIO_CLR = 5 * 4"
definition ACL_PCIE_HAS_TEMP_SENSOR :: u32 where "ACL_PCIE_HAS_TEMP_SENSOR = 1"
definition ACL_PCIE_TEMP_SENSOR_ADDRESS :: u32 where "ACL_PCIE_TEMP_SENSOR_ADDRESS = 0xcff0"
definition ACL_VERSIONID_BAR :: u32 where "ACL_VERSIONID_BAR = 0"
definition ACL_VERSIONID_OFFSET :: u32 where "ACL_VERSIONID_OFFSET = 0xcfc0"
definition ACL_VERSIONID :: u32 where "ACL_VERSIONID = 0xA0C7C1E0"
definition ACL_UNIPHYSTATUS_BAR :: u32 where "ACL_UNIPHYSTATUS_BAR = 0"
definition ACL_UNIPHYSTATUS_OFFSET :: u32 where "ACL_UNIPHYSTATUS_OFFSET = 0xcfe0"
definition DMA_CSR_STATUS :: u32 where "DMA_CSR_STATUS = 0x00"
definition DMA_CSR_CONTROL :: u32 where "DMA_CSR_CONTROL = 0x04"

text \<open>Bit positions.\<close>

definition DMA_DC_TRANSFER_COMPLETE_IRQ_MASK :: nat where "DMA_DC_TRANSFER_COMPLETE_IRQ_MASK = 14"
definition DMA_DC_EARLY_DONE_ENABLE :: nat where "DMA_DC_EARLY_DONE_ENABLE = 24"
definition DMA_DC_GO :: nat where "DMA_DC_GO = 31"
definition DMA_STATUS_BUSY :: nat where "DMA_STATUS_BUSY = 0"
definition DMA_STATUS_DESCRIPTOR_EMPTY :: nat where "DMA_STATUS_DESCRIPTOR_EMPTY = 1"
definition DMA_STATUS_RESETTING :: nat where "DMA_STATUS_RESETTING = 6"
definition DMA_STATUS_IRQ :: nat where "DMA_STATUS_IRQ = 9"
definition DMA_STATUS_COUNT_LO :: nat where "DMA_STATUS_COUNT_LO = 16"
definition DMA_STATUS_COUNT_HI :: nat where "DMA_STATUS_COUNT_HI = 31"
definition DMA_CTRL_STOP :: nat where "DMA_CTRL_STOP = 0"
definition DMA_CTRL_RESET :: nat where "DMA_CTRL_RESET = 1"
definition DMA_CTRL_IRQ_ENABLE :: nat where "DMA_CTRL_IRQ_ENABLE = 4"

text \<open>The port address is a 64-bit literal.\<close>

definition ACL_PCIE_TX_PORT :: u64 where "ACL_PCIE_TX_PORT = 0x80000000"

definition ACL_BOARD_PKG_NAME :: string where "ACL_BOARD_PKG_NAME = ''c5dk''"
definition ACL_VENDOR_NAME :: string where "ACL_VENDOR_NAME = ''Altera Corporation''"
definition ACL_BOARD_NAME :: string where
  "ACL_BOARD_NAME = ''Cyclone V SoC Development Kit''"

lemmas board_constants =
  QSYS_IFACE_def ACL_PCI_NUM_BARS_def ACL_PCI_ALTERA_VENDOR_ID_def ACL_PCI_BSP_DEVICE_ID_def
  ACL_PCI_SUBSYSTEM_VENDOR_ID_def ACL_PCI_SUBSYSTEM_DEVICE_ID_def ACL_PCI_GLOBAL_MEM_BAR_def
  ACL_PCI_CRA_BAR_def ACL_PCI_CRA_OFFSET_def ACL_PCI_CRA_SIZE_def ACL_KERNEL_CSR_BAR_def
  ACL_PCIE_DMA_BAR_def ACL_PCIE_DMA_OFFSET_def ACL_PCIE_DMA_DESCRIPTOR_BAR_def
  ACL_PCIE_DMA_DESCRIPTOR_OFFSET_def PCIE_CRA_IRQ_STATUS_def PCIE_CRA_ADDR_TRANS_def
  ACL_PCIE_KERNEL_IRQ_VEC_def ACL_PCIE_DMA_IRQ_VEC_def USE_KERNELPLL_RECONFIG_def
  ACL_PCIE_KERNELPLL_RECONFIG_BAR_def ACL_PCIE_KERNELPLL_RECONFIG_OFFSET_def PIO_DATA_def
  PIO_SET_def PIO_CLR_def ACL_PCIE_HAS_TEMP_SENSOR_def ACL_PCIE_TEMP_SENSOR_ADDRESS_def
  ACL_VERSIONID_BAR_def ACL_VERSIONID_OFFSET_def ACL_VERSIONID_def ACL_UNIPHYSTATUS_BAR_def
  ACL_UNIPHYSTATUS_OFFSET_def DMA_CSR_STATUS_def DMA_CSR_CONTROL_def
  DMA_DC_TRANSFER_COMPLETE_IRQ_MASK_def DMA_DC_EARLY_DONE_ENABLE_def DMA_DC_GO_def
  DMA_STATUS_BUSY_def DMA_STATUS_DESCRIPTOR_EMPTY_def DMA_STATUS_RESETTING_def
  DMA_STATUS_IRQ_def DMA_STATUS_COUNT_LO_def DMA_STATUS_COUNT_HI_def DMA_CTRL_STOP_def
  DMA_CTRL_RESET_def DMA_CTRL_IRQ_ENABLE_def ACL_PCIE_TX_PORT_def ACL_BOARD_PKG_NAME_def
  ACL_VENDOR_NAME_def ACL_BOARD_NAME_def

lemmas board_map_defs =
  ACL_PCI_CRA_OFFSET_def ACL_PCIE_KERNELPLL_RECONFIG_OFFSET_def ACL_PCIE_DMA_OFFSET_def ACL_PCIE_DMA_DESCRIPTOR_OFFSET_def ACL_VERSIONID_OFFSET_def ACL_UNIPHYSTATUS_OFFSET_def ACL_PCIE_TEMP_SENSOR_ADDRESS_def DMA_CSR_STATUS_def DMA_CSR_CONTROL_def PCIE_CRA_IRQ_STATUS_def PCIE_CRA_ADDR_TRANS_def ACL_PCI_CRA_SIZE_def

lemma board_map_simps [hw_consts]:
  "ACL_PCI_CRA_OFFSET = 0"
  "ACL_PCIE_KERNELPLL_RECONFIG_OFFSET = 0x0c000"
  "ACL_PCIE_DMA_OFFSET = 0x0c800"
  "ACL_PCIE_DMA_DESCRIPTOR_OFFSET = 0x0c820"
  "ACL_VERSIONID_OFFSET = 0xcfc0"
  "ACL_UNIPHYSTATUS_OFFSET = 0xcfe0"
  "ACL_PCIE_TEMP_SENSOR_ADDRESS = 0xcff0"
  "DMA_CSR_STATUS = 0x00"
  "DMA_CSR_CONTROL = 0x04"
  "PCIE_CRA_IRQ_STATUS = 0x0040"
  "PCIE_CRA_ADDR_TRANS = 0x1000"
  "ACL_PCI_CRA_SIZE = 0x4000"
  by (simp_all add: board_map_defs)

lemma dma_bit_simps [hw_consts]:
  "DMA_DC_TRANSFER_COMPLETE_IRQ_MASK = 14"
  "DMA_DC_EARLY_DONE_ENABLE = 24"
  "DMA_DC_GO = 31"
  "DMA_STATUS_BUSY = 0"
  "DMA_STATUS_DESCRIPTOR_EMPTY = 1"
  "DMA_STATUS_RESETTING = 6"
  "DMA_STATUS_IRQ = 9"
  "DMA_STATUS_COUNT_LO = 16"
  "DMA_STATUS_COUNT_HI = 31"
  "DMA_CTRL_STOP = 0"
  "DMA_CTRL_RESET = 1"
  "DMA_CTRL_IRQ_ENABLE = 4"
  by (simp_all add: DMA_DC_TRANSFER_COMPLETE_IRQ_MASK_def DMA_DC_EARLY_DONE_ENABLE_def DMA_DC_GO_def DMA_STATUS_BUSY_def DMA_STATUS_DESCRIPTOR_EMPTY_def DMA_STATUS_RESETTING_def DMA_STATUS_IRQ_def DMA_STATUS_COUNT_LO_def DMA_STATUS_COUNT_HI_def DMA_CTRL_STOP_def DMA_CTRL_RESET_def DMA_CTRL_IRQ_ENABLE_def)

subsection \<open>Bit fields\<close>

lemma read_bit_set: "b < 32 \<Longrightarrow>
    ACL_PCIE_READ_BIT (ACL_PCIE_SET_BIT w b) c = (if c = b then 1 else ACL_PCIE_READ_BIT w c)"
  by (auto simp: read_bit_iff bit_set_bit)

lemma read_bit_clear:
  "ACL_PCIE_READ_BIT (ACL_PCIE_CLEAR_BIT w b) c = (if c = b then 0 else ACL_PCIE_READ_BIT w c)"
  by (auto simp: read_bit_iff bit_clear_bit)

lemma read_bit_range:
  assumes "l \<le> h" "h - l + 1 < 32"
  shows "unat (ACL_PCIE_READ_BIT_RANGE w h l) = unat w div 2 ^ l mod 2 ^ (h - l + 1)"
proof -
  have "ACL_PCIE_READ_BIT_RANGE w h l = take_bit (h - l + 1) (drop_bit l w)"
    unfolding ACL_PCIE_READ_BIT_RANGE_def by (simp add: take_bit_eq_mask mask_eq_exp_minus_1 push_bit_eq_mult)
  then have "unat (ACL_PCIE_READ_BIT_RANGE w h l) = take_bit (h - l + 1) (drop_bit l (unat w))"
    by (simp add: unsigned_take_bit_eq unsigned_drop_bit_eq take_bit_nat_eq_self)
  then show ?thesis by (simp add: take_bit_eq_mod drop_bit_eq_div)
qed

end
