(* ===== verification/Acl_Race.thy ===== *)
theory Acl_Race
  imports Acl_Table
begin

section \<open>Two processes map a buffer at once (aclsoc.c)\<close>

text \<open>
  \<open>aclsoc_mmap\<close> takes no lock, and the kernel serialises it only within one process. Here it is
  cut at the points where another process can run in between: after the search for a slot, after
  the allocation, after the mapping and after the slot is filled. Run without interruption the
  steps are \<^const>\<open>aclsoc_mmap\<close>; a schedule says which of two calls makes the next step.
\<close>

datatype mmap_pc =
    Searching vma
  | Allocating vma nat
  | Remapping vma nat ptr u32
  | Filling vma nat ptr u32
  | Returned int vma

fun mmap_step :: "kernel \<Rightarrow> mmap_pc \<Rightarrow> aclsoc_dev \<Rightarrow> hist \<Rightarrow> (mmap_pc \<times> aclsoc_dev \<times> hist) option" where
  "mmap_step K (Searching v) d h =
     (case find_slot d 0 of None \<Rightarrow> None
      | Some i \<Rightarrow> Some (if i = MAX_ADDR_MAP_ENTRIES then Returned (- ENOMEM) v else Allocating v i, d, h))"
| "mmap_step K (Allocating v i) d h =
     (let ((p, dm), h) = dma_alloc_coherent K (vma_end v - vma_start v) h
      in Some (if p = 0 then Returned (- ENOMEM) v else Remapping v i p dm, d, h))"
| "mmap_step K (Remapping v i p dm) d h =
     (let v = v\<lparr>vma_page_prot := pgprot_noncached K (vma_page_prot v)\<rparr>;
          (r, h) = remap_pfn_range K (vma_start v) (drop_bit PAGE_SHIFT dm) (vma_end v - vma_start v)
                     (vma_page_prot v) h
      in Some (if r < 0 then Returned (- EAGAIN) v else Filling v i p dm, d, h))"
| "mmap_step K (Filling v i p dm) d h =
     Some (Returned 0 (v\<lparr>vma_ops := True, vma_private := Some i\<rparr>),
       set_slot d i \<lparr>vm_start = vma_start v, map_size = vma_end v - vma_start v, cpu_addr = p,
                     dma_handle = dm, ref = kr_init K\<rparr>, h)"
| "mmap_step K (Returned r v) d h = Some (Returned r v, d, h)"

datatype who = First | Second

type_synonym race = "mmap_pc \<times> mmap_pc \<times> aclsoc_dev \<times> hist"

definition race_step :: "kernel \<Rightarrow> who \<Rightarrow> race \<Rightarrow> race option" where
  "race_step K w s =
     (let (a, b, d, h) = s
      in case w of
           First \<Rightarrow> map_option (\<lambda>(a, d, h). (a, b, d, h)) (mmap_step K a d h)
         | Second \<Rightarrow> map_option (\<lambda>(b, d, h). (a, b, d, h)) (mmap_step K b d h))"

fun race_run :: "kernel \<Rightarrow> who list \<Rightarrow> race \<Rightarrow> race option" where
  "race_run K [] s = Some s"
| "race_run K (w # ws) s = (case race_step K w s of None \<Rightarrow> None | Some s \<Rightarrow> race_run K ws s)"

lemma race_run_append:
  "race_run K (xs @ ys) s = (case race_run K xs s of None \<Rightarrow> None | Some s \<Rightarrow> race_run K ys s)"
  by (induction xs arbitrary: s) (auto split: option.split)

lemma race_step_simps [simp]:
  "race_step K First (a, b, d, h) = map_option (\<lambda>(a, d, h). (a, b, d, h)) (mmap_step K a d h)"
  "race_step K Second (a, b, d, h) = map_option (\<lambda>(b, d, h). (a, b, d, h)) (mmap_step K b d h)"
  by (simp_all add: race_step_def)

text \<open>Whatever the schedule, both calls go on over a well-formed device.\<close>

fun_cases mmap_stepE: "mmap_step K pc d h = Some s"

lemma mmap_step_wf: "mmap_step K pc d h = Some (pc', d', h') \<Longrightarrow> dev_wf d \<Longrightarrow> dev_wf d'"
  by (erule mmap_stepE) (auto simp: Let_def split: option.splits prod.splits)

lemma mmap_step_total: "dev_wf d \<Longrightarrow> mmap_step K pc d h \<noteq> None"
  by (cases pc) (use find_slot_used [of d] in \<open>auto simp: Let_def split: prod.split\<close>)

lemma race_total:
  "dev_wf d \<Longrightarrow> \<exists>a' b' d' h'. race_run K ws (a, b, d, h) = Some (a', b', d', h') \<and> dev_wf d'"
proof (induction ws arbitrary: a b d h)
  case (Cons w ws)
  obtain a1 b1 d1 h1 where "race_step K w (a, b, d, h) = Some (a1, b1, d1, h1)" "dev_wf d1"
    using mmap_step_total [OF Cons.prems, of K a h] mmap_step_total [OF Cons.prems, of K b h] Cons.prems
    by (cases w) (auto dest: mmap_step_wf)
  with Cons.IH [of d1 a1 b1 h1] show ?case by simp
qed simp

subsection \<open>Uninterrupted\<close>

text \<open>Four steps of one call, with none of the other in between, are the call.\<close>

lemma alone_first:
  "race_run K [First, First, First, First] (Searching v, b, d, h) =
     map_option (\<lambda>(r, v, d, h). (Returned r v, b, d, h)) (aclsoc_mmap K v d h)"
  by (cases "find_slot d 0") (simp_all add: aclsoc_mmap_def env_simps Let_def split: prod.split)

lemma alone_second:
  "race_run K [Second, Second, Second, Second] (a, Searching v, d, h) =
     map_option (\<lambda>(r, v, d, h). (a, Returned r v, d, h)) (aclsoc_mmap K v d h)"
  by (cases "find_slot d 0") (simp_all add: aclsoc_mmap_def env_simps Let_def split: prod.split)

lemma one_after_the_other:
  "race_run K [First, First, First, First, Second, Second, Second, Second] (Searching v, Searching w, d, h) =
     (case aclsoc_mmap K v d h of None \<Rightarrow> None
      | Some (r, v, d, h) \<Rightarrow>
          map_option (\<lambda>(s, w, d, h). (Returned r v, Returned s w, d, h)) (aclsoc_mmap K w d h))"
  using race_run_append [of K "[First, First, First, First]" "[Second, Second, Second, Second]"
      "(Searching v, Searching w, d, h)"]
  by (simp only: append_Cons append_Nil alone_first)
    (auto simp only: alone_second option.case option.map split: option.split prod.split)

subsection \<open>Interleaved\<close>

text \<open>An allocator and a mapper that always succeed.\<close>

definition mmap_succeeds :: "kernel \<Rightarrow> bool" where
  "mmap_succeeds K \<longleftrightarrow>
     (\<forall>h n. fst (ans_dma_alloc_coherent K h n) \<noteq> 0) \<and>
     (\<forall>h v pfn n prot. 0 \<le> ans_remap_pfn_range K h v pfn n prot)"

lemma mmap_succeedsD:
  assumes "mmap_succeeds K"
  shows "ans_dma_alloc_coherent K h n = (p, dm) \<Longrightarrow> p \<noteq> 0"
    "\<not> ans_remap_pfn_range K h v pfn n prot < 0"
  using assms by (auto simp: mmap_succeeds_def not_less) (metis fst_conv)

text \<open>Both calls search before either fills its slot: the second overwrites the first.\<close>

lemma interleaved:
  assumes "dev_wf d" "i = length (used_prefix (addr_map_mem d))" "i < MAX_ADDR_MAP_ENTRIES" "mmap_succeeds K"
  shows "\<exists>v' w' e1 e2 h'.
    race_run K [First, Second, First, First, First, Second, Second, Second] (Searching v, Searching w, d, h) =
      Some (Returned 0 v', Returned 0 w', set_slot d i e2, h') \<and>
    vma_private v' = Some i \<and> vma_private w' = Some i \<and>
    vm_start e1 = vma_start v \<and> vm_start e2 = vma_start w \<and>
    dma_live h' = {#elem_buf e1, elem_buf e2#} + dma_live h"
proof -
  note ok = mmap_succeedsD [OF assms(4)]
  have f: "find_slot d 0 = Some i" using find_slot_used [OF assms(1)] assms(2) by simp
  obtain p dm where a: "ans_dma_alloc_coherent K h (vma_end v - vma_start v) = (p, dm)" by force
  define h1 where "h1 = Remap_pfn_range (vma_start v) (drop_bit PAGE_SHIFT dm) (vma_end v - vma_start v)
      (pgprot_noncached K (vma_page_prot v))
      (ans_remap_pfn_range K (Dma_alloc_coherent (vma_end v - vma_start v) p dm # h) (vma_start v)
        (drop_bit PAGE_SHIFT dm) (vma_end v - vma_start v) (pgprot_noncached K (vma_page_prot v))) #
      Dma_alloc_coherent (vma_end v - vma_start v) p dm # h"
  obtain q dn where b: "ans_dma_alloc_coherent K h1 (vma_end w - vma_start w) = (q, dn)" by force
  let ?e1 = "\<lparr>vm_start = vma_start v, map_size = vma_end v - vma_start v, cpu_addr = p,
      dma_handle = dm, ref = kr_init K\<rparr>"
  let ?e2 = "\<lparr>vm_start = vma_start w, map_size = vma_end w - vma_start w, cpu_addr = q,
      dma_handle = dn, ref = kr_init K\<rparr>"
  have l1: "dma_live h1 = add_mset (elem_buf ?e1) (dma_live h)"
    using ok(1) [OF a] by (simp add: h1_def elem_buf_def)
  let ?v = "v\<lparr>vma_page_prot := pgprot_noncached K (vma_page_prot v), vma_ops := True, vma_private := Some i\<rparr>"
  let ?w = "w\<lparr>vma_page_prot := pgprot_noncached K (vma_page_prot w), vma_ops := True, vma_private := Some i\<rparr>"
  obtain h' where run: "race_run K [First, Second, First, First, First, Second, Second, Second]
      (Searching v, Searching w, d, h) = Some (Returned 0 ?v, Returned 0 ?w, set_slot d i ?e2, h')"
    "dma_live h' = add_mset (elem_buf ?e2) (dma_live h1)"
    using f assms(3) ok(1) [OF a] ok(1) [OF b] ok(2) a b
    by (simp add: env_simps Let_def h1_def [symmetric] elem_buf_def)
  have "dma_live h' = {#elem_buf ?e1, elem_buf ?e2#} + dma_live h"
    unfolding run(2) l1 by (simp add: add_mset_commute)
  with run(1) show ?thesis
    by (intro exI [of _ ?v] exI [of _ ?w] exI [of _ ?e1] exI [of _ ?e2] exI [of _ h']) simp
qed

lemma table_bufs_insert:
  assumes "length (used_prefix es) < length es" "vm_start e \<noteq> 0"
  shows "size (table_bufs (table_insert es e)) = Suc (size (table_bufs es))"
proof -
  have "vm_start (es ! length (used_prefix es)) = 0"
    using nth_length_takeWhile [of "\<lambda>e. vm_start e \<noteq> 0" es] assms(1) by (simp add: used_prefix_def)
  then show ?thesis
    using table_bufs_update [OF assms(1)] table_bufs_split [OF assms(1)] assms(2)
    by (simp add: table_insert_def)
qed

lemma mmap_enters:
  assumes "dev_wf d" "length (used_prefix (addr_map_mem d)) < MAX_ADDR_MAP_ENTRIES" "mmap_succeeds K"
  shows "\<exists>v' e h'. aclsoc_mmap K v d h =
      Some (0, v', d\<lparr>addr_map_mem := table_insert (addr_map_mem d) e\<rparr>, h') \<and>
    vma_private v' = Some (length (used_prefix (addr_map_mem d))) \<and> vm_start e = vma_start v \<and>
    dma_live h' = add_mset (elem_buf e) (dma_live h)"
proof -
  obtain p dm where a: "ans_dma_alloc_coherent K h (vma_end v - vma_start v) = (p, dm)" by force
  show ?thesis
    unfolding aclsoc_mmap_eq [OF assms(1)]
    using mmap_succeedsD(1) [OF assms(3) a] mmap_succeedsD(2) [OF assms(3)] assms(2) a
    by (simp add: Let_def elem_buf_def)
      (intro exI conjI, rule refl, simp_all)
qed

text \<open>One call after the other takes two slots.\<close>

lemma one_by_one:
  assumes "dev_wf d" "dense (addr_map_mem d)"
    "Suc (length (used_prefix (addr_map_mem d))) < MAX_ADDR_MAP_ENTRIES" "mmap_succeeds K" "vma_start v \<noteq> 0"
  shows "\<exists>v' w' e1 e2 h'.
    race_run K [First, First, First, First, Second, Second, Second, Second] (Searching v, Searching w, d, h) =
      Some (Returned 0 v', Returned 0 w',
        d\<lparr>addr_map_mem := table_insert (table_insert (addr_map_mem d) e1) e2\<rparr>, h') \<and>
    vma_private v' \<noteq> vma_private w' \<and> vm_start e1 = vma_start v \<and> vm_start e2 = vma_start w \<and>
    dma_live h' = {#elem_buf e1, elem_buf e2#} + dma_live h"
proof -
  let ?es = "addr_map_mem d"
  have len: "length ?es = MAX_ADDR_MAP_ENTRIES" using assms(1) by (simp add: dev_wfD)
  have n: "length (used_prefix ?es) < MAX_ADDR_MAP_ENTRIES" using assms(3) by simp
  obtain v' e1 h1 where 1: "aclsoc_mmap K v d h = Some (0, v', d\<lparr>addr_map_mem := table_insert ?es e1\<rparr>, h1)"
    "vma_private v' = Some (length (used_prefix ?es))" "vm_start e1 = vma_start v"
    "dma_live h1 = add_mset (elem_buf e1) (dma_live h)"
    using mmap_enters [OF assms(1) n assms(4)] by blast
  let ?d = "d\<lparr>addr_map_mem := table_insert ?es e1\<rparr>"
  have wf: "dev_wf ?d" using assms(1) len by (simp add: dev_wf_def table_insert_def)
  have u: "used_prefix (addr_map_mem ?d) = used_prefix ?es @ [e1]"
    using table_insert_used(1) [OF assms(2)] n len 1(3) assms(5) by simp
  have n2: "length (used_prefix (addr_map_mem ?d)) < MAX_ADDR_MAP_ENTRIES" using u assms(3) by simp
  obtain w' e2 h2 where 2: "aclsoc_mmap K w ?d h1 =
      Some (0, w', ?d\<lparr>addr_map_mem := table_insert (addr_map_mem ?d) e2\<rparr>, h2)"
    "vma_private w' = Some (length (used_prefix (addr_map_mem ?d)))" "vm_start e2 = vma_start w"
    "dma_live h2 = add_mset (elem_buf e2) (dma_live h1)"
    using mmap_enters [OF wf n2 assms(4)] by blast
  have "dma_live h2 = {#elem_buf e1, elem_buf e2#} + dma_live h" unfolding 2(4) 1(4) by simp
  moreover have "race_run K [First, First, First, First, Second, Second, Second, Second]
      (Searching v, Searching w, d, h) = Some (Returned 0 v', Returned 0 w',
        d\<lparr>addr_map_mem := table_insert (table_insert ?es e1) e2\<rparr>, h2)"
    unfolding one_after_the_other 1(1) using 2(1) by simp
  moreover have "vma_private v' \<noteq> vma_private w'" unfolding 1(2) 2(2) u by simp
  ultimately show ?thesis using 1(3) 2(3) by blast
qed

text \<open>The buffers that are allocated and those in the table, counted.\<close>

lemma collision_count:
  assumes "dev_wf d" "length (used_prefix (addr_map_mem d)) < MAX_ADDR_MAP_ENTRIES" "mmap_succeeds K"
    "vma_start w \<noteq> 0"
  shows "\<exists>v' w' d' h'.
    race_run K [First, Second, First, First, First, Second, Second, Second] (Searching v, Searching w, d, h) =
      Some (Returned 0 v', Returned 0 w', d', h') \<and> vma_private v' = vma_private w' \<and>
    size (dma_live h') = size (dma_live h) + 2 \<and>
    size (table_bufs (addr_map_mem d')) = size (table_bufs (addr_map_mem d)) + 1"
proof -
  let ?n = "length (used_prefix (addr_map_mem d))"
  obtain v' w' e1 e2 h' where
    i: "race_run K [First, Second, First, First, First, Second, Second, Second] (Searching v, Searching w, d, h) =
      Some (Returned 0 v', Returned 0 w', set_slot d ?n e2, h')"
    "vma_private v' = vma_private w'" "vm_start e2 = vma_start w"
    "dma_live h' = {#elem_buf e1, elem_buf e2#} + dma_live h"
    using interleaved [OF assms(1) refl assms(2,3), of v w h] by auto
  have "size (table_bufs (addr_map_mem (set_slot d ?n e2))) = size (table_bufs (addr_map_mem d)) + 1"
    using table_bufs_insert [of "addr_map_mem d" e2] assms i(3) by (simp add: table_insert_def dev_wf_def)
  with i show ?thesis
    by (intro exI [of _ v'] exI [of _ w'] exI [of _ "set_slot d ?n e2"] exI [of _ h'])
      (simp only: i(1), simp)
qed

lemma serial_count:
  assumes "dev_wf d" "dense (addr_map_mem d)"
    "Suc (length (used_prefix (addr_map_mem d))) < MAX_ADDR_MAP_ENTRIES" "mmap_succeeds K"
    "vma_start v \<noteq> 0" "vma_start w \<noteq> 0"
  shows "\<exists>v' w' d' h'.
    race_run K [First, First, First, First, Second, Second, Second, Second] (Searching v, Searching w, d, h) =
      Some (Returned 0 v', Returned 0 w', d', h') \<and> vma_private v' \<noteq> vma_private w' \<and>
    size (dma_live h') = size (dma_live h) + 2 \<and>
    size (table_bufs (addr_map_mem d')) = size (table_bufs (addr_map_mem d)) + 2"
proof -
  let ?es = "addr_map_mem d"
  have len: "length ?es = MAX_ADDR_MAP_ENTRIES" using assms(1) by (simp add: dev_wfD)
  obtain v' w' e1 e2 h' where
    s: "race_run K [First, First, First, First, Second, Second, Second, Second] (Searching v, Searching w, d, h) =
      Some (Returned 0 v', Returned 0 w', d\<lparr>addr_map_mem := table_insert (table_insert ?es e1) e2\<rparr>, h')"
    "vma_private v' \<noteq> vma_private w'" "vm_start e1 = vma_start v" "vm_start e2 = vma_start w"
    "dma_live h' = {#elem_buf e1, elem_buf e2#} + dma_live h"
    using one_by_one [OF assms(1-5), of w h] by blast
  have "used_prefix (table_insert ?es e1) = used_prefix ?es @ [e1]"
    using table_insert_used(1) [OF assms(2)] assms(3,5) len s(3) by simp
  then have "size (table_bufs (table_insert (table_insert ?es e1) e2)) = size (table_bufs ?es) + 2"
    using table_bufs_insert [of "table_insert ?es e1" e2] table_bufs_insert [of ?es e1] len s(3,4) assms(3,5,6)
    by (simp add: table_insert_def)
  with s show ?thesis
    by (intro exI [of _ v'] exI [of _ w'] exI [of _ "d\<lparr>addr_map_mem := table_insert (table_insert ?es e1) e2\<rparr>"]
        exI [of _ h']) (simp only: s(1), simp)
qed

end
