(* ===== verification/Acl_Exclusion.thy ===== *)
theory Acl_Exclusion
  imports Acl_Lock
begin

section \<open>Calls of several processes\<close>

text \<open>
  Schedules of calls at the granularity of single kernel calls. An event of a schedule belongs to
  a call, named by a number; the events of one call, in order, are its trace. The semaphore is
  the only thing assumed of the scheduler: it is taken only when it is free. The calls that keep
  to the contract of \<^theory_text>\<open>Acl_Lock\<close> then run one after the other, whatever else goes on.
\<close>

type_synonym schedule = "(nat \<times> kevent) list"

definition trace_of :: "nat \<Rightarrow> schedule \<Rightarrow> kevent list" where
  "trace_of i m = map snd (filter (\<lambda>(j, e). j = i) m)"

fun sem_ok :: "nat \<Rightarrow> schedule \<Rightarrow> bool" where
  "sem_ok n [] = True"
| "sem_ok n ((i, Down q) # m) = (if q = 0 then 0 < n \<and> sem_ok (n - 1) m else sem_ok n m)"
| "sem_ok n ((i, Up) # m) = sem_ok (Suc n) m"
| "sem_ok n ((i, e) # m) = sem_ok n m"

text \<open>A call whose wait for the semaphore is interrupted only leaves the failed attempt behind.\<close>

definition lock_event :: "kevent \<Rightarrow> bool" where
  "lock_event e \<longleftrightarrow> e = Down 0 \<or> e = Up"

definition failed_down :: "kevent \<Rightarrow> bool" where
  "failed_down e \<longleftrightarrow> (\<exists>q. q \<noteq> 0 \<and> e = Down q)"

lemma plain_not_lock: "plain_call e \<Longrightarrow> \<not> lock_event e \<and> \<not> failed_down e"
  by (auto simp: plain_call_def lock_event_def failed_down_def split: kevent.splits)

lemma sem_ok_event:
  "\<not> lock_event e \<Longrightarrow> sem_ok n ((i, e) # m) = sem_ok n m"
  by (cases e) (auto simp: lock_event_def)

lemma sem_ok_filter:
  "\<forall>(i, e) \<in> set m. lock_event e \<longrightarrow> P (i, e) \<Longrightarrow> sem_ok n (filter P m) = sem_ok n m"
proof (induction m arbitrary: n)
  case (Cons x m)
  obtain i e where x: "x = (i, e)" by force
  show ?case
  proof (cases "lock_event e")
    case True
    with Cons x show ?thesis by (auto simp: lock_event_def)
  next
    case False
    with Cons x show ?thesis by (simp add: sem_ok_event)
  qed
qed simp

lemma trace_of_Nil [simp]: "trace_of i [] = []"
  by (simp add: trace_of_def)

lemma trace_of_Cons: "trace_of i ((j, e) # m) = (if j = i then e # trace_of i m else trace_of i m)"
  by (simp add: trace_of_def)

subsection \<open>Sections are contiguous\<close>

definition section_trace :: "kevent list \<Rightarrow> bool" where
  "section_trace tr \<longleftrightarrow> (\<exists>body. tr = Down 0 # body @ [Up] \<and> (\<forall>e \<in> set body. plain_call e))"

definition serial :: "nat list \<Rightarrow> schedule \<Rightarrow> schedule" where
  "serial order m = concat (map (\<lambda>i. map (Pair i) (trace_of i m)) order)"

lemma serial_Cons: "serial (i # order) m = map (Pair i) (trace_of i m) @ serial order m"
  by (simp add: serial_def)

lemma serial_other: "i \<notin> set order \<Longrightarrow> serial order ((i, e) # m) = serial order m"
  by (induction order) (auto simp: serial_def trace_of_Cons)

definition waiting :: "schedule \<Rightarrow> nat set" where
  "waiting m = {i. trace_of i m \<noteq> []}"

text \<open>
  With the semaphore free the next event takes it; while a call holds it the next event is the
  call's own, until it gives the semaphore back.
\<close>

definition all_sections :: "schedule \<Rightarrow> nat set \<Rightarrow> bool" where
  "all_sections m except \<longleftrightarrow> (\<forall>j. j \<notin> except \<longrightarrow> trace_of j m = [] \<or> section_trace (trace_of j m))"

lemma next_section:
  assumes "all_sections ((i, e) # m) except" "i \<notin> except"
  obtains body where "e = Down 0" "trace_of i m = body @ [Up]" "\<forall>e \<in> set body. plain_call e"
  using assms unfolding all_sections_def
  by (elim allE [of _ i]) (auto simp: trace_of_Cons section_trace_def)

lemma all_sections_tail:
  "all_sections ((i, e) # m) except \<Longrightarrow> all_sections m (insert i except)"
  by (auto simp: all_sections_def trace_of_Cons)

lemma sections_serial:
  "sem_ok 1 m \<Longrightarrow> all_sections m {} \<Longrightarrow>
     \<exists>order. distinct order \<and> set order = waiting m \<and> m = serial order m"
  "sem_ok 0 m \<Longrightarrow> all_sections m {i} \<Longrightarrow> trace_of i m = body @ [Up] \<Longrightarrow> \<forall>e \<in> set body. plain_call e \<Longrightarrow>
     \<exists>order. distinct order \<and> set order = waiting m - {i} \<and> m = map (Pair i) (body @ [Up]) @ serial order m"
proof (induction m arbitrary: i body)
  case Nil
  {
    case 1
    show ?case by (rule exI [of _ "[]"]) (simp add: waiting_def serial_def)
  next
    case 2
    then show ?case by simp
  }
next
  case (Cons x m)
  obtain j e where x: "x = (j, e)" by force
  {
    case 1
    obtain b where e: "e = Down 0" and b: "trace_of j m = b @ [Up]" "\<forall>e \<in> set b. plain_call e"
      using next_section 1(2) x by blast
    have "sem_ok 0 m" using 1(1) x e by simp
    from Cons.IH(2) [OF this all_sections_tail [OF 1(2) [unfolded x]] b] obtain order where
      o: "distinct order" "set order = waiting m - {j}" "m = map (Pair j) (b @ [Up]) @ serial order m"
      by blast
    have "serial (j # order) (x # m) = (j, e) # map (Pair j) (b @ [Up]) @ serial order m"
      using o(2) b(1) x by (simp add: serial_Cons trace_of_Cons serial_other)
    moreover have "set (j # order) = waiting (x # m)"
      using o(2) x by (auto simp: waiting_def trace_of_Cons)
    ultimately show ?case using o x by (intro exI [of _ "j # order"]) auto
  next
    case 2
    have ji: "j = i"
    proof (rule ccontr)
      assume "j \<noteq> i"
      then obtain b where "e = Down 0" using next_section 2(2) x by blast
      with 2(1) x show False by simp
    qed
    then have t: "e # trace_of i m = body @ [Up]" using 2(3) x by (simp add: trace_of_Cons)
    have w: "waiting (x # m) - {i} = waiting m - {i}" using x ji by (auto simp: waiting_def trace_of_Cons)
    have s: "serial order (x # m) = serial order m" if "i \<notin> set order" for order
      using that x ji by (simp add: serial_other)
    show ?case
    proof (cases body)
      case Nil
      then have "e = Up" "trace_of i m = []" using t by simp_all
      moreover have "sem_ok 1 m" using 2(1) x \<open>e = Up\<close> by simp
      moreover have "all_sections m {}"
        using all_sections_tail [OF 2(2) [unfolded x]] ji \<open>trace_of i m = []\<close> by (auto simp: all_sections_def)
      ultimately obtain order where "distinct order" "set order = waiting m" "m = serial order m"
        using Cons.IH(1) by blast
      then show ?thesis
        using Nil x ji \<open>e = Up\<close> \<open>trace_of i m = []\<close> w s [of order]
        by (intro exI [of _ order]) (auto simp: waiting_def)
    next
      case (Cons e' body')
      then have b: "e = e'" "trace_of i m = body' @ [Up]" "\<forall>e \<in> set body'. plain_call e" "plain_call e"
        using t 2(4) by auto
      have "sem_ok 0 m" using 2(1) x plain_not_lock [OF b(4)] by (simp add: sem_ok_event)
      moreover have "all_sections m {i}" using all_sections_tail [OF 2(2) [unfolded x]] ji by simp
      ultimately obtain order where "distinct order" "set order = waiting m - {i}"
        "m = map (Pair i) (body' @ [Up]) @ serial order m"
        using Cons.IH(2) b(2,3) by blast
      then show ?thesis
        using Cons x ji b(1) w s [of order] by (intro exI [of _ order]) auto
    qed
  }
qed

subsection \<open>Calls under the contract\<close>

text \<open>
  What a call of the driver's file operations may leave behind: a section, or one failed attempt
  to take the semaphore. Anything that does not touch the semaphore may go on at the same time:
  the interrupt handler, and \<open>mmap()\<close> and the operations of mappings, which do not lock.
\<close>

definition counts :: "nat set \<Rightarrow> nat \<times> kevent \<Rightarrow> bool" where
  "counts C x \<longleftrightarrow> fst x \<in> C \<and> \<not> failed_down (snd x)"

lemma trace_of_counts:
  "trace_of i (filter (counts C) m) = (if i \<in> C then filter (Not \<circ> failed_down) (trace_of i m) else [])"
  by (induction m) (auto simp: trace_of_def counts_def comp_def)

lemma counted_section:
  assumes "locked_section tr"
  shows "filter (Not \<circ> failed_down) tr = [] \<and> (\<exists>q. tr = [Down q]) \<or>
    filter (Not \<circ> failed_down) tr = tr \<and> section_trace tr"
  using assms unfolding locked_section_def
proof (elim disjE exE conjE)
  fix q assume "q \<noteq> 0" "tr = [Down q]"
  then show ?thesis by (simp add: failed_down_def)
next
  fix body assume b: "tr = Down 0 # body @ [Up]" "\<forall>e \<in> set body. plain_call e"
  then have "filter (Not \<circ> failed_down) body = body" using plain_not_lock by (auto simp: filter_id_conv)
  with b show ?thesis by (auto simp: failed_down_def section_trace_def)
qed

lemma calls_serial:
  assumes "sem_ok 1 m" "\<And>i. i \<in> C \<Longrightarrow> locked_section (trace_of i m)"
    "\<And>i e. (i, e) \<in> set m \<Longrightarrow> i \<notin> C \<Longrightarrow> \<not> lock_event e"
  shows "\<exists>order. distinct order \<and> set order = {i \<in> C. last (trace_of i m) = Up} \<and>
    filter (counts C) m = concat (map (\<lambda>i. map (Pair i) (trace_of i m)) order)"
proof -
  let ?m = "filter (counts C) m"
  have "sem_ok 1 ?m"
    using assms(1,3) by (subst sem_ok_filter) (auto simp: counts_def lock_event_def failed_down_def)
  moreover have "trace_of j ?m = [] \<or> section_trace (trace_of j ?m)" for j
    using counted_section [OF assms(2), of j] by (cases "j \<in> C") (auto simp: trace_of_counts)
  then have "all_sections ?m {}" by (simp add: all_sections_def)
  ultimately obtain order where o: "distinct order" "set order = waiting ?m" "?m = serial order ?m"
    using sections_serial(1) by blast
  have "trace_of i ?m \<noteq> [] \<longleftrightarrow> i \<in> C \<and> last (trace_of i m) = Up" for i
    using counted_section [OF assms(2), of i]
    by (cases "i \<in> C") (auto simp: trace_of_counts section_trace_def)
  then have w: "waiting ?m = {i \<in> C. last (trace_of i m) = Up}" by (simp add: waiting_def)
  have "trace_of i ?m = trace_of i m" if "i \<in> set order" for i
    using that o(2) counted_section [OF assms(2), of i] by (auto simp: waiting_def trace_of_counts split: if_split_asm)
  then have "serial order ?m = concat (map (\<lambda>i. map (Pair i) (trace_of i m)) order)"
    unfolding serial_def by (intro arg_cong [where f = concat] map_cong) simp_all
  with o w show ?thesis by metis
qed

subsection \<open>What the entries of the driver leave behind\<close>

inductive call_trace :: "kevent list \<Rightarrow> bool" where
  request_leaves: "dev_wf d \<Longrightarrow> aclsoc_rw K buf reading d h = Some (r, d', rev tr @ h) \<Longrightarrow> call_trace tr"
| open_leaves: "dev_wf d \<Longrightarrow> aclsoc_open K pid cur d h = (r, d', rev tr @ h) \<Longrightarrow> call_trace tr"
| close_leaves: "dev_wf d \<Longrightarrow> aclsoc_close K d h = (r, d', rev tr @ h) \<Longrightarrow> call_trace tr"

inductive unlocked_trace :: "kevent list \<Rightarrow> bool" where
  irq_leaves: "aclsoc_irq K (Some d) h = (r, d', rev tr @ h) \<Longrightarrow> unlocked_trace tr"
| mmap_leaves: "dev_wf d \<Longrightarrow> aclsoc_mmap K v d h = Some (r, v', d', rev tr @ h) \<Longrightarrow> unlocked_trace tr"
| vma_close_leaves: "aclsoc_vma_close K v d h = Some (d', rev tr @ h) \<Longrightarrow> unlocked_trace tr"

lemma call_trace_section: "call_trace tr \<Longrightarrow> locked_section tr"
proof (induction rule: call_trace.induct)
  case (request_leaves d K buf reading h r d' tr)
  then show ?case using rw_contract [OF request_leaves(1), of K buf reading h] by auto
next
  case (open_leaves d K pid cur h r d' tr)
  then show ?case using open_contract [OF open_leaves(1), of K pid cur h] by auto
next
  case (close_leaves d K h r d' tr)
  then show ?case using close_contract [OF close_leaves(1), of K h] by auto
qed

lemma unlocked_trace_free: "unlocked_trace tr \<Longrightarrow> e \<in> set tr \<Longrightarrow> \<not> lock_event e"
proof (induction rule: unlocked_trace.induct)
  case (irq_leaves K d h r d' tr)
  then have "rev tr = [] \<or> (\<forall>e \<in> set (rev tr). \<not> lock_event e)"
    using aclsoc_irq_hist [OF irq_leaves(1)] by (auto simp: lock_event_def split: if_split_asm)
  with irq_leaves(2) show ?case by auto
next
  case (mmap_leaves d K v h r v' d' tr)
  then show ?case
    by (auto simp: aclsoc_mmap_eq [OF mmap_leaves(1)] Let_def lock_event_def
        dest!: arg_cong [of _ "rev tr" set] split: if_split_asm prod.split_asm)
next
  case (vma_close_leaves K v d h d' tr)
  then have "h = rev tr @ h \<or> (\<exists>n p dm. Dma_free_coherent n p dm # h = rev tr @ h)"
    by (auto simp: aclsoc_vma_close_def aclsoc_release_mmap_memory_def free_map_info_def
        dma_free_coherent_def bind_Some_iff Let_def split_def split: if_split_asm)
  with vma_close_leaves(2) show ?case by (auto simp: lock_event_def)
qed

text \<open>
  A schedule in which the calls of \<open>C\<close> leave traces of one kind, and all others traces of
  another kind or none yet.
\<close>

definition schedule_of ::
  "(kevent list \<Rightarrow> bool) \<Rightarrow> (kevent list \<Rightarrow> bool) \<Rightarrow> nat set \<Rightarrow> schedule \<Rightarrow> bool" where
  "schedule_of locking others C m \<longleftrightarrow>
     (\<forall>i \<in> C. locking (trace_of i m)) \<and> (\<forall>i. i \<notin> C \<longrightarrow> trace_of i m = [] \<or> others (trace_of i m))"

lemma scheduled_calls_serial:
  assumes "sem_ok 1 m" "schedule_of locking others C m" "\<And>tr. locking tr \<Longrightarrow> locked_section tr"
    "\<And>tr e. others tr \<Longrightarrow> e \<in> set tr \<Longrightarrow> \<not> lock_event e"
  shows "\<exists>order. distinct order \<and> set order = {i \<in> C. last (trace_of i m) = Up} \<and>
    filter (counts C) m = concat (map (\<lambda>i. map (Pair i) (trace_of i m)) order)"
proof (rule calls_serial [OF assms(1)])
  show "locked_section (trace_of i m)" if "i \<in> C" for i
    using assms(2,3) that by (simp add: schedule_of_def)
  show "\<not> lock_event e" if "(i, e) \<in> set m" "i \<notin> C" for i e
  proof -
    have "e \<in> set (trace_of i m)" using that(1) by (force simp: trace_of_def)
    with assms(2,4) that(2) show ?thesis by (auto simp: schedule_of_def)
  qed
qed

lemma driver_calls_serial:
  assumes "sem_ok 1 m" "schedule_of call_trace unlocked_trace C m"
  shows "\<exists>order. distinct order \<and> set order = {i \<in> C. last (trace_of i m) = Up} \<and>
    filter (counts C) m = concat (map (\<lambda>i. map (Pair i) (trace_of i m)) order)"
  by (rule scheduled_calls_serial [OF assms]) (auto intro: call_trace_section dest: unlocked_trace_free)

end
