(* ===== verification/Acl_Signals.thy ===== *)
theory Acl_Signals
  imports Acl_System
begin

section \<open>Sequences of entries, and who is signalled\<close>

text \<open>
  The ways into the loaded driver as data, with a function that makes one entry: the executable
  form of the step relation of \<^theory_text>\<open>Acl_System\<close>. Over such sequences the task that gets the
  signal of an interrupt is followed. \<open>aclsoc_open\<close> records the calling task, and nothing clears
  it: the code of \<open>aclsoc_close\<close> that would is switched off.
\<close>

datatype entry =
    Open_file int ptr
  | Close_file
  | Read_file ptr
  | Write_file ptr
  | Mmap_file vma
  | Vma_open vma vma
  | Vma_close vma
  | Interrupt

definition entered :: "sys \<Rightarrow> (int \<times> aclsoc_dev \<times> hist) option \<Rightarrow> sys option" where
  "entered s res = (case res of None \<Rightarrow> None | Some (r, d, h) \<Rightarrow> Some (s\<lparr>sdev := d, shist := h\<rparr>))"

fun enter :: "kernel \<Rightarrow> entry \<Rightarrow> sys \<Rightarrow> sys option" where
  "enter K (Open_file pid cur) s = entered s (Some (aclsoc_open K pid cur (sdev s) (shist s)))"
| "enter K Close_file s = entered s (Some (aclsoc_close K (sdev s) (shist s)))"
| "enter K (Read_file buf) s = entered s (aclsoc_read K buf (sdev s) (shist s))"
| "enter K (Write_file buf) s = entered s (aclsoc_write K buf (sdev s) (shist s))"
| "enter K (Mmap_file v) s =
     (if vma_start v \<noteq> 0 \<and> length (maps s) < MAX_MAPS then
        (case aclsoc_mmap K v (sdev s) (shist s) of
           None \<Rightarrow> None
         | Some (r, v', d, h) \<Rightarrow>
             Some \<lparr>sdev = d, shist = h, maps = (if r = 0 then v' # maps s else maps s)\<rparr>)
      else None)"
| "enter K (Vma_open v v') s =
     (if v \<in> set (maps s) \<and> vma_private v' = vma_private v \<and> length (maps s) < MAX_MAPS then
        (case aclsoc_vma_open K v' (sdev s) of
           None \<Rightarrow> None
         | Some d \<Rightarrow> Some (s\<lparr>sdev := d, maps := v' # maps s\<rparr>))
      else None)"
| "enter K (Vma_close v) s =
     (if v \<in> set (maps s) then
        (case aclsoc_vma_close K v (sdev s) (shist s) of
           None \<Rightarrow> None
         | Some (d, h) \<Rightarrow> Some \<lparr>sdev = d, shist = h, maps = remove1 v (maps s)\<rparr>)
      else None)"
| "enter K Interrupt s =
     (case aclsoc_irq K (Some (sdev s)) (shist s) of
        (r, None, h) \<Rightarrow> None
      | (r, Some d, h) \<Rightarrow> Some (s\<lparr>sdev := d, shist := h\<rparr>))"

primrec enter_all :: "kernel \<Rightarrow> entry list \<Rightarrow> sys \<Rightarrow> sys option" where
  "enter_all K [] s = Some s"
| "enter_all K (e # es) s = (case enter K e s of None \<Rightarrow> None | Some s' \<Rightarrow> enter_all K es s')"

lemma enter_all_append:
  "enter_all K (es @ fs) s = (case enter_all K es s of None \<Rightarrow> None | Some s' \<Rightarrow> enter_all K fs s')"
  by (induction es arbitrary: s) (auto split: option.split)

subsection \<open>The function against the relation\<close>

lemma mmap_steps:
  assumes "aclsoc_mmap K v (sdev s) (shist s) = Some (r, v', d, h)" "vma_start v \<noteq> 0" "length (maps s) < MAX_MAPS"
  shows "r = 0 \<Longrightarrow> step K s \<lparr>sdev = d, shist = h, maps = v' # maps s\<rparr>"
    "r \<noteq> 0 \<Longrightarrow> step K s \<lparr>sdev = d, shist = h, maps = maps s\<rparr>"
  using mmap_step [OF assms] by simp_all

lemma enter_step: "enter K e s = Some t \<Longrightarrow> step K s t"
  by (cases e)
    (auto simp: entered_def intro: step.intros mmap_steps split: if_split_asm option.splits prod.splits)

lemma step_enter:
  assumes "step K s t"
  shows "\<exists>e. enter K e s = Some t"
  using assms
proof cases
  case (open_step pid cur r d h)
  then show ?thesis by (intro exI [of _ "Open_file pid cur"]) (simp add: entered_def)
next
  case (close_step r d h)
  then show ?thesis by (intro exI [of _ Close_file]) (simp add: entered_def)
next
  case (read_step buf r d h)
  then show ?thesis by (intro exI [of _ "Read_file buf"]) (simp add: entered_def)
next
  case (write_step buf r d h)
  then show ?thesis by (intro exI [of _ "Write_file buf"]) (simp add: entered_def)
next
  case (mmap_step v r v' d h)
  then show ?thesis by (intro exI [of _ "Mmap_file v"]) simp
next
  case (vma_open_step v v' d)
  then show ?thesis by (intro exI [of _ "Vma_open v v'"]) simp
next
  case (vma_close_step v d h)
  then show ?thesis by (intro exI [of _ "Vma_close v"]) simp
next
  case (irq_step r d h)
  then show ?thesis by (intro exI [of _ Interrupt]) simp
qed

lemma step_iff_enter: "step K s t \<longleftrightarrow> (\<exists>e. enter K e s = Some t)"
  using enter_step step_enter by blast

lemma reachable_enter_all: "reachable K s t \<longleftrightarrow> (\<exists>es. enter_all K es s = Some t)"
proof
  assume "reachable K s t"
  then show "\<exists>es. enter_all K es s = Some t"
  proof (induction rule: reachable.induct)
    case (start s)
    show ?case by (rule exI [of _ "[]"]) simp
  next
    case (more s t u)
    then obtain es e where "enter_all K es s = Some t" "enter K e t = Some u"
      by (auto simp: step_iff_enter)
    then show ?case by (intro exI [of _ "es @ [e]"]) (simp add: enter_all_append)
  qed
next
  assume "\<exists>es. enter_all K es s = Some t"
  then obtain es where "enter_all K es s = Some t" ..
  then show "reachable K s t"
  proof (induction es arbitrary: t rule: rev_induct)
    case Nil
    then show ?case by (simp add: start)
  next
    case (snoc e es)
    then show ?case by (auto simp: enter_all_append split: option.splits intro: more enter_step)
  qed
qed

subsection \<open>Only open changes the task\<close>

fun opens :: "entry \<Rightarrow> bool" where
  "opens (Open_file pid cur) = True"
| "opens e = False"

lemma exec_cmd_task:
  "aclsoc_exec_cmd K c n d h = Some (r, d', h') \<Longrightarrow> user_task d' = user_task d"
  by (auto simp: aclsoc_exec_cmd_def init_irq_eq Let_def split: if_split_asm prod.splits option.splits)

lemma rw_request_task:
  "rw_request K reading c d h = Some (r, d', h') \<Longrightarrow> user_task d' = user_task d"
  by (auto simp: rw_request_eq rw_move_def Let_def split: if_split_asm prod.splits option.splits)

lemma rw_task: "aclsoc_rw K buf reading d h = Some (r, d', h') \<Longrightarrow> user_task d' = user_task d"
  by (auto simp: aclsoc_rw_def Let_def dest: exec_cmd_task rw_request_task
      split: if_split_asm prod.splits option.splits)

lemma set_slot_task [simp]: "user_task (set_slot d i e) = user_task d"
  by (simp add: set_slot_def)

lemma mmap_task: "aclsoc_mmap K v d h = Some (r, v', d', h') \<Longrightarrow> user_task d' = user_task d"
  by (auto simp: aclsoc_mmap_def bind_Some_iff Let_def split: if_split_asm prod.splits)

lemma vma_task:
  "aclsoc_vma_open K v d = Some d' \<Longrightarrow> user_task d' = user_task d"
  "aclsoc_vma_close K v d h = Some (d', h') \<Longrightarrow> user_task d' = user_task d"
proof -
  show "aclsoc_vma_open K v d = Some d' \<Longrightarrow> user_task d' = user_task d"
    by (auto simp: aclsoc_vma_open_def bind_Some_iff)
  assume "aclsoc_vma_close K v d h = Some (d', h')"
  then obtain i e where "d' = set_slot d i e"
    by (auto simp: aclsoc_vma_close_def bind_Some_iff Let_def split_def)
  then show "user_task d' = user_task d" by simp
qed

lemma close_task: "aclsoc_close K d h = (r, d', h') \<Longrightarrow> user_task d' = user_task d"
  by (auto simp: aclsoc_close_def Let_def split: if_split_asm prod.splits)

lemma irq_task: "aclsoc_irq K (Some d) h = (r, Some d', h') \<Longrightarrow> user_task d' = user_task d"
  by (auto dest!: aclsoc_irq_dev)

lemma enter_task: "enter K e s = Some t \<Longrightarrow> \<not> opens e \<Longrightarrow> user_task (sdev t) = user_task (sdev s)"
  by (cases e)
    (auto simp: entered_def aclsoc_read_def aclsoc_write_def
      dest: rw_task mmap_task vma_task close_task irq_task split: if_split_asm option.splits prod.splits)

lemma enter_all_task:
  "enter_all K es s = Some t \<Longrightarrow> list_all (Not \<circ> opens) es \<Longrightarrow> user_task (sdev t) = user_task (sdev s)"
  by (induction es arbitrary: s) (auto dest: enter_task split: option.splits)

lemma open_task:
  assumes "aclsoc_open K pid cur d h = (0, d', h')"
  shows "cur \<noteq> 0" "user_task d' = cur" "signal_info d' = \<lparr>si_signo = SIG_INT_NOTIFY, si_code = SI_QUEUE, si_int = 0\<rparr>"
  using assms
  by (auto simp: aclsoc_open_def Let_def load_signal_info_def zero_siginfo_def hw_consts split: if_split_asm prod.splits)

text \<open>The task of the last open that succeeded gets the signal, whatever has been closed since.\<close>

lemma last_opener_signalled:
  assumes "enter_all K es s = Some u" "aclsoc_open K pid cur (sdev u) (shist u) = (0, d, h)"
    "enter_all K es' (u\<lparr>sdev := d, shist := h\<rparr>) = Some t" "list_all (Not \<circ> opens) es'"
  shows "enter_all K (es @ Open_file pid cur # es') s = Some t" "user_task (sdev t) = cur" "cur \<noteq> 0"
  using assms enter_all_task [OF assms(3,4)] open_task [OF assms(2)]
  by (simp_all add: enter_all_append entered_def)

lemma irq_signals:
  assumes "user_task d \<noteq> 0"
  shows "\<exists>d' r. aclsoc_irq K (Some d) h = (IRQ_HANDLED, Some d',
    Send_sig_info SIG_INT_NOTIFY (signal_info d) (user_task d) r # Writel 0 (get_interrupt_enable_addr d) # h)"
proof -
  obtain res x h' where i: "aclsoc_irq K (Some d) h = (res, x, h')" by (rule prod_cases3)
  obtain d' where "x = Some d'" using aclsoc_irq_dev [OF i] by auto
  moreover have "res = IRQ_HANDLED"
    using i by (auto simp: aclsoc_irq_def Let_def split: if_split_asm prod.splits)
  ultimately show ?thesis using i aclsoc_irq_hist [OF i] assms by simp
qed

end
