(* ===== verification/Card_Machine.thy ===== *)
theory Card_Machine
  imports Acl_Rw "HOL-Library.State_Monad" "HOL-Library.While_Combinator"
begin

section \<open>Running the driver of the SD card statement by statement\<close>

text \<open>
  The repository ships the driver twice: \<^verbatim>\<open>c5soc/driver\<close>, which the theories \<open>Acl_*\<close>
  model as functions, and the copy installed on the card,
  \<^verbatim>\<open>sd_card/lin_part/opencl_arm32_rte/board/c5soc/driver\<close>. The second copy is translated on
  its own in the theories \<open>Card_*\<close>, as an imperative program in the state monad: one line per
  statement, fields updated in place, labels of \<open>goto\<close> as programs named by \<open>let\<close>, loops kept
  as loops with their \<open>break\<close>. Theorems of equivalence relate the two.

  The state is the object a function works on, the history of the kernel calls and a flag that
  is raised by undefined behaviour: an access outside an array, a null pointer followed, a loop
  that does not end. Once raised it says that nothing is known of the rest of the run.
\<close>

record ('o, 'c) mach =
  obj :: 'o
  calls :: 'c
  faulted :: bool

definition running :: "'o \<Rightarrow> 'c \<Rightarrow> ('o, 'c) mach" where
  "running x h = \<lparr>obj = x, calls = h, faulted = False\<rparr>"

text \<open>Programs over any kind of calls, and those over the calls into the kernel.\<close>

type_synonym ('o, 'c, 'a) gprog = "(('o, 'c) mach, 'a) state"
type_synonym ('o, 'a) prog = "('o, hist, 'a) gprog"

named_theorems run_simps "running the statements of the card's driver"

lemmas run_bind [run_simps] = run_state_bind run_state_return

subsection \<open>Statements\<close>

text \<open>A kernel call with and without a result, reading and updating the object, a fault.\<close>

definition call :: "('c \<Rightarrow> 'a \<times> 'c) \<Rightarrow> ('o, 'c, 'a) gprog" where
  "call f = State (\<lambda>s. (fst (f (calls s)), s\<lparr>calls := snd (f (calls s))\<rparr>))"

definition exec :: "('c \<Rightarrow> 'c) \<Rightarrow> ('o, 'c, unit) gprog" where
  "exec f = State (\<lambda>s. ((), s\<lparr>calls := f (calls s)\<rparr>))"

definition fld :: "('o \<Rightarrow> 'a) \<Rightarrow> ('o, 'c, 'a) gprog" where
  "fld f = State (\<lambda>s. (f (obj s), s))"

definition upd :: "('o \<Rightarrow> 'o) \<Rightarrow> ('o, 'c, unit) gprog" where
  "upd f = State (\<lambda>s. ((), s\<lparr>obj := f (obj s)\<rparr>))"

definition fault :: "'a \<Rightarrow> ('o, 'c, 'a) gprog" where
  "fault x = State (\<lambda>s. (x, s\<lparr>faulted := True\<rparr>))"

definition skip :: "('o, 'c, unit) gprog" where
  "skip = State_Monad.return ()"

lemma run_statements [run_simps]:
  "run_state (call f) (running x h) = (fst (f h), running x (snd (f h)))"
  "run_state (exec g) (running x h) = ((), running x (g h))"
  "run_state (fld e) (running x h) = (e x, running x h)"
  "run_state (upd u) (running x h) = ((), running (u x) h)"
  "run_state skip s = ((), s)"
  by (simp_all add: call_def exec_def fld_def upd_def skip_def running_def)

text \<open>A statement on the object behind a pointer of the object, which may be dangling.\<close>

definition on_part :: "('o \<Rightarrow> 'p option) \<Rightarrow> ('p \<Rightarrow> 'o \<Rightarrow> 'o) \<Rightarrow> 'p \<Rightarrow> ('p, 'c, 'a) gprog \<Rightarrow> ('o, 'c, 'a) gprog" where
  "on_part get_part put_part dummy m =
     State (\<lambda>s. case get_part (obj s) of
         None \<Rightarrow> (fst (run_state m \<lparr>obj = dummy, calls = calls s, faulted = True\<rparr>), s\<lparr>faulted := True\<rparr>)
       | Some p \<Rightarrow>
           let (x, t) = run_state m \<lparr>obj = p, calls = calls s, faulted = faulted s\<rparr>
           in (x, \<lparr>obj = put_part (obj t) (obj s), calls = calls t, faulted = faulted t\<rparr>))"

lemma run_on_part:
  assumes "get_part x = Some p" "run_state m (running p h) = (r, running p' h')"
  shows "run_state (on_part get_part put_part dummy m) (running x h) = (r, running (put_part p' x) h')"
  using assms by (simp add: on_part_def running_def)

text \<open>What a run shows to its caller; nothing when it has faulted.\<close>

definition outcome :: "('o, 'c, 'a) gprog \<Rightarrow> 'o \<Rightarrow> 'c \<Rightarrow> ('a \<times> 'o \<times> 'c) option" where
  "outcome m x h =
     (let (r, s) = run_state m (running x h)
      in if faulted s then None else Some (r, obj s, calls s))"

lemma outcome_running:
  "run_state m (running x h) = (r, running y h') \<Longrightarrow> outcome m x h = Some (r, y, h')"
  by (simp add: outcome_def running_def)

subsection \<open>Loops\<close>

text \<open>\<open>for (i = start; i < start + n; i++)\<close>, and the same with a body that may leave the loop.\<close>

primrec for_loop :: "nat \<Rightarrow> nat \<Rightarrow> (nat \<Rightarrow> ('o, 'c, unit) gprog) \<Rightarrow> ('o, 'c, unit) gprog" where
  "for_loop start 0 body = skip"
| "for_loop start (Suc n) body = do { body start; for_loop (Suc start) n body }"

primrec for_break :: "nat \<Rightarrow> nat \<Rightarrow> (nat \<Rightarrow> ('o, 'c, 'b option) gprog) \<Rightarrow> ('o, 'c, 'b option) gprog" where
  "for_break start 0 body = State_Monad.return None"
| "for_break start (Suc n) body = do {
     left \<leftarrow> body start;
     if left \<noteq> None then State_Monad.return left else for_break (Suc start) n body
   }"

text \<open>A \<open>while\<close> loop over local variables; one that does not end is a fault.\<close>

definition while_loop :: "('v \<Rightarrow> bool) \<Rightarrow> ('v \<Rightarrow> ('o, 'c, 'v) gprog) \<Rightarrow> 'v \<Rightarrow> ('o, 'c, 'v) gprog" where
  "while_loop b body v =
     State (\<lambda>s. case while_option (\<lambda>(v, s). b v) (\<lambda>(v, s). run_state (body v) s) (v, s) of
         None \<Rightarrow> (v, s\<lparr>faulted := True\<rparr>)
       | Some r \<Rightarrow> r)"

lemma while_loop_done: "\<not> b v \<Longrightarrow> run_state (while_loop b body v) s = (v, s)"
  by (simp add: while_loop_def while_option_unfold)

lemma raised_not_running [simp]: "s\<lparr>faulted := True\<rparr> \<noteq> running x h"
proof
  assume "s\<lparr>faulted := True\<rparr> = running x h"
  then have "faulted (s\<lparr>faulted := True\<rparr>) = faulted (running x h)" by (rule arg_cong)
  then show False by (simp add: running_def)
qed

lemma while_loop_step:
  "b v \<Longrightarrow> run_state (body v) s = (v', s') \<Longrightarrow>
   run_state (while_loop b body v') s' = (w, running x h) \<Longrightarrow>
   run_state (while_loop b body v) s = (w, running x h)"
  by (simp add: while_loop_def while_option_unfold [of _ _ "(v, s)"] split: option.splits)

text \<open>A loop that leaves a running machine has ended.\<close>

lemma while_loop_ends:
  "run_state (while_loop b body v) s = (w, running x h) \<Longrightarrow>
   while_option (\<lambda>(v, s). b v) (\<lambda>(v, s). run_state (body v) s) (v, s) = Some (w, running x h)"
  by (simp add: while_loop_def split: option.splits)

subsection \<open>A fault stays\<close>

definition sticky :: "('o, 'c, 'a) gprog \<Rightarrow> bool" where
  "sticky m \<longleftrightarrow> (\<forall>s. faulted s \<longrightarrow> faulted (snd (run_state m s)))"

named_theorems sticky_intros "programs that keep the fault flag"

lemma sticky_statements [sticky_intros]:
  "sticky (State_Monad.return x)" "sticky (call f)" "sticky (exec g)" "sticky (fld e)"
  "sticky (upd u)" "sticky (fault y)" "sticky skip"
  by (simp_all add: sticky_def call_def exec_def fld_def upd_def fault_def skip_def)

lemma sticky_bind [sticky_intros]: "sticky m \<Longrightarrow> (\<And>x. sticky (f x)) \<Longrightarrow> sticky (m \<bind> f)"
  by (auto simp: sticky_def split: prod.split)

lemma sticky_if [sticky_intros]: "sticky m \<Longrightarrow> sticky n \<Longrightarrow> sticky (if b then m else n)"
  by simp

lemma sticky_on_part [sticky_intros]: "sticky m \<Longrightarrow> sticky (on_part g p d m)"
  by (auto simp: sticky_def on_part_def Let_def split: option.split prod.split) (metis mach.select_convs(3) snd_conv)

lemma sticky_for_loop [sticky_intros]: "(\<And>i. sticky (body i)) \<Longrightarrow> sticky (for_loop i n body)"
  by (induction n arbitrary: i) (auto intro: sticky_intros)

text \<open>A program whose first statement faults shows nothing.\<close>

lemma faulted_bind:
  "faulted (snd (run_state m s)) \<Longrightarrow> (\<And>r. sticky (f r)) \<Longrightarrow> faulted (snd (run_state (m \<bind> f) s))"
  by (simp add: sticky_def split_def)

lemma outcome_fault: "faulted (snd (run_state m (running x h))) \<Longrightarrow> outcome m x h = None"
  by (simp add: outcome_def split_def Let_def)

lemma outcome_continue:
  assumes "run_state m (running x h) = (r, running y h')"
  shows "outcome (m \<bind> f) x h = outcome (f r) y h'"
  using assms by (simp add: outcome_def)

end
