(* ===== verification/Card_User.thy ===== *)
theory Card_User
  imports Card_Machine User_Main
begin

section \<open>The board tester of the card (user.c)\<close>

text \<open>
  The card's copy of \<open>user.c\<close>, statement by statement. The object of the machine is the state
  \<open>'w\<close> of the process and its board, as in \<^theory_text>\<open>User_Test\<close> and \<^theory_text>\<open>User_Main\<close>; its calls
  are the lines printed about values that differ and the words of the dump, newest first. A
  failed assertion, a fault in the kernel and an access through \<open>MAP_FAILED\<close> raise the flag.
\<close>

datatype tline = Differs nat u32 u32 | Word u32

type_synonym ('w, 'a) uprog = "('w, tline list, 'a) gprog"

definition u_print :: "tline \<Rightarrow> ('w, unit) uprog" where
  "u_print l = exec (\<lambda>ls. l # ls)"

text \<open>A system call; the first argument is its value in a run that has faulted.\<close>

definition u_call :: "'a \<Rightarrow> ('w \<Rightarrow> ('a \<times> 'w) option) \<Rightarrow> ('w, 'a) uprog" where
  "u_call x f = State (\<lambda>s. case f (obj s) of
     None \<Rightarrow> (x, s\<lparr>faulted := True\<rparr>) | Some (r, w) \<Rightarrow> (r, s\<lparr>obj := w\<rparr>))"

definition u_step :: "('w \<Rightarrow> 'w option) \<Rightarrow> ('w, unit) uprog" where
  "u_step f = u_call () (\<lambda>w. map_option (\<lambda>w. ((), w)) (f w))"

definition u_assert :: "bool \<Rightarrow> ('w, unit) uprog" where
  "u_assert b = (if b then skip else fault ())"

text \<open>A counted loop over a local flag, and one that stops when the flag falls.\<close>

primrec for_acc :: "nat \<Rightarrow> nat \<Rightarrow> 'b \<Rightarrow> (nat \<Rightarrow> 'b \<Rightarrow> ('w, 'b) uprog) \<Rightarrow> ('w, 'b) uprog" where
  "for_acc start 0 acc body = State_Monad.return acc"
| "for_acc start (Suc n) acc body = do { acc \<leftarrow> body start acc; for_acc (Suc start) n acc body }"

subsection \<open>Accessors\<close>

definition u_read :: "'w io \<Rightarrow> frame \<Rightarrow> int \<Rightarrow> acl_cmd \<Rightarrow> ('w, int) uprog" where
  "u_read io fr dev_id read_cmd = do {
     upd (poke io (cmd_at fr) (encode_cmd read_cmd));
     u_call 0 (sys_read io dev_id (cmd_at fr) (of_nat sizeof_acl_cmd))
   }"

definition u_write :: "'w io \<Rightarrow> frame \<Rightarrow> int \<Rightarrow> acl_cmd \<Rightarrow> ('w, int) uprog" where
  "u_write io fr dev_id read_cmd = do {
     upd (poke io (cmd_at fr) (encode_cmd read_cmd));
     u_call 0 (sys_write io dev_id (cmd_at fr) (of_nat sizeof_acl_cmd))
   }"

definition ut_read_uchar :: "'w io \<Rightarrow> frame \<Rightarrow> int \<Rightarrow> u32 \<Rightarrow> ptr \<Rightarrow> ('w, u8) uprog" where
  "ut_read_uchar io fr dev_id bar dev_addr = do {
     let read_cmd = mk_cmd bar dev_addr (val_at fr) 1;
     u_read io fr dev_id read_cmd;
     fld (\<lambda>w. peek io w (val_at fr))
   }"

definition ut_read_ushort :: "'w io \<Rightarrow> frame \<Rightarrow> int \<Rightarrow> u32 \<Rightarrow> ptr \<Rightarrow> ('w, u16) uprog" where
  "ut_read_ushort io fr dev_id bar dev_addr = do {
     let read_cmd = mk_cmd bar dev_addr (val_at fr) 2;
     u_read io fr dev_id read_cmd;
     fld (\<lambda>w. u16_bytes (load (peek io w) (val_at fr) 2))
   }"

definition ut_read_uint :: "'w io \<Rightarrow> frame \<Rightarrow> int \<Rightarrow> u32 \<Rightarrow> ptr \<Rightarrow> ('w, u32) uprog" where
  "ut_read_uint io fr dev_id bar dev_addr = do {
     let read_cmd = mk_cmd bar dev_addr (val_at fr) 4;
     u_read io fr dev_id read_cmd;
     fld (\<lambda>w. u32_bytes (load (peek io w) (val_at fr) 4))
   }"

definition ut_read_ulong :: "'w io \<Rightarrow> frame \<Rightarrow> int \<Rightarrow> u32 \<Rightarrow> ptr \<Rightarrow> ('w, u32) uprog" where
  "ut_read_ulong io fr dev_id bar dev_addr = do {
     let read_cmd = mk_cmd bar dev_addr (val_at fr) 4;
     u_read io fr dev_id read_cmd;
     fld (\<lambda>w. u32_bytes (load (peek io w) (val_at fr) 4))
   }"

definition ut_read_mem :: "'w io \<Rightarrow> frame \<Rightarrow> int \<Rightarrow> u32 \<Rightarrow> ptr \<Rightarrow> ptr \<Rightarrow> u32 \<Rightarrow> ('w, int) uprog" where
  "ut_read_mem io fr dev_id bar dev_addr dst_addr cnt = do {
     let read_cmd = mk_cmd bar dev_addr dst_addr cnt;
     u_read io fr dev_id read_cmd
   }"

definition ut_write_uchar :: "'w io \<Rightarrow> frame \<Rightarrow> int \<Rightarrow> u32 \<Rightarrow> ptr \<Rightarrow> u8 \<Rightarrow> ('w, int) uprog" where
  "ut_write_uchar io fr dev_id bar dev_addr v = do {
     upd (poke io (val_at fr) [v]);
     let read_cmd = mk_cmd bar dev_addr (val_at fr) 1;
     u_write io fr dev_id read_cmd
   }"

definition ut_write_ushort :: "'w io \<Rightarrow> frame \<Rightarrow> int \<Rightarrow> u32 \<Rightarrow> ptr \<Rightarrow> u16 \<Rightarrow> ('w, int) uprog" where
  "ut_write_ushort io fr dev_id bar dev_addr v = do {
     upd (poke io (val_at fr) (bytes_u16 v));
     let read_cmd = mk_cmd bar dev_addr (val_at fr) 2;
     u_write io fr dev_id read_cmd
   }"

definition ut_write_uint :: "'w io \<Rightarrow> frame \<Rightarrow> int \<Rightarrow> u32 \<Rightarrow> ptr \<Rightarrow> u32 \<Rightarrow> ('w, int) uprog" where
  "ut_write_uint io fr dev_id bar dev_addr v = do {
     upd (poke io (val_at fr) (bytes_u32 v));
     let read_cmd = mk_cmd bar dev_addr (val_at fr) 4;
     u_write io fr dev_id read_cmd
   }"

definition ut_write_ulong :: "'w io \<Rightarrow> frame \<Rightarrow> int \<Rightarrow> u32 \<Rightarrow> ptr \<Rightarrow> u32 \<Rightarrow> ('w, int) uprog" where
  "ut_write_ulong io fr dev_id bar dev_addr v = do {
     upd (poke io (val_at fr) (bytes_u32 v));
     let read_cmd = mk_cmd bar dev_addr (val_at fr) 4;
     u_write io fr dev_id read_cmd
   }"

definition ut_write_mem :: "'w io \<Rightarrow> frame \<Rightarrow> int \<Rightarrow> u32 \<Rightarrow> ptr \<Rightarrow> ptr \<Rightarrow> u32 \<Rightarrow> ('w, int) uprog" where
  "ut_write_mem io fr dev_id bar dev_addr src_addr cnt = do {
     let read_cmd = mk_cmd bar dev_addr src_addr cnt;
     u_write io fr dev_id read_cmd
   }"

subsection \<open>The tests\<close>

definition ut_fill :: "'w io \<Rightarrow> frame \<Rightarrow> (nat \<Rightarrow> u32) \<Rightarrow> nat \<Rightarrow> ('w, unit) uprog" where
  "ut_fill io fr f n = for_loop 0 n (\<lambda>i. do {
     upd (poke io (ua_at fr + of_nat (4 * i)) (bytes_u32 (f i)));
     upd (poke io (ub_at fr + of_nat (4 * i)) (bytes_u32 0))
   })"

definition ut_test_small_writes :: "'w io \<Rightarrow> frame \<Rightarrow> int \<Rightarrow> ('w, unit) uprog" where
  "ut_test_small_writes io fr f = do {
     let dev_addr = 0x10000;
     ut_write_uchar io fr f 0 dev_addr 19;
     uc \<leftarrow> ut_read_uchar io fr f 0 dev_addr;
     u_assert (uc = 19);
     ut_write_ushort io fr f 0 dev_addr 13;
     us \<leftarrow> ut_read_ushort io fr f 0 dev_addr;
     u_assert (us = 13);
     ut_write_uint io fr f 0 dev_addr 18987983;
     ui \<leftarrow> ut_read_uint io fr f 0 dev_addr;
     u_assert (ui = 18987983);
     ut_fill io fr (\<lambda>i. of_nat i * 13) 10;
     ut_write_mem io fr f 0 dev_addr (ua_at fr) 40;
     ut_read_mem io fr f 0 dev_addr (ub_at fr) 40;
     same \<leftarrow> for_acc 0 10 True (\<lambda>i same. do {
       a \<leftarrow> fld (\<lambda>w. array_at io (ua_at fr) w i);
       b \<leftarrow> fld (\<lambda>w. array_at io (ub_at fr) w i);
       State_Monad.return (same \<and> a = b)
     });
     u_assert same
   }"

definition ut_test_page_write :: "'w io \<Rightarrow> frame \<Rightarrow> int \<Rightarrow> ('w, unit) uprog" where
  "ut_test_page_write io fr f = do {
     let page_size = 4096 * 3;
     let page_size_ints = page_size div 4;
     let dev_addr = 0x10000;
     ut_fill io fr (\<lambda>i. of_nat i * 2) page_size_ints;
     ut_write_mem io fr f 0 dev_addr (ua_at fr) (of_nat (page_size_ints * 4));
     ut_read_mem io fr f 0 dev_addr (ub_at fr) (of_nat (page_size_ints * 4));
     for_loop 0 page_size_ints (\<lambda>i. do {
       a \<leftarrow> fld (\<lambda>w. array_at io (ua_at fr) w i);
       b \<leftarrow> fld (\<lambda>w. array_at io (ub_at fr) w i);
       if a \<noteq> b then u_print (Differs i a b) else skip
     })
   }"

definition ut_byte_differs :: "'w io \<Rightarrow> ptr \<Rightarrow> nat \<Rightarrow> ('w, bool) uprog" where
  "ut_byte_differs io p i = do {
     v \<leftarrow> fld (\<lambda>w. peek io w (p + of_nat i));
     State_Monad.return (v \<noteq> of_nat i)
   }"

definition ut_test_mmap :: "'w proc \<Rightarrow> mframe \<Rightarrow> int \<Rightarrow> ('w, unit) uprog" where
  "ut_test_mmap P fr f = do {
     let io = base P;
     let size = of_nat buffer_size;
     upd (poke io (phys_at fr) (bytes_u32 0));
     buf \<leftarrow> u_call 0 (sys_mmap P f size 0);
     upd (poke io (mem_at fr) (bytes_u32 buf));
     u_assert (buf \<noteq> MAP_FAILED);
     for_loop 0 buffer_size (\<lambda>i. upd (poke io (buf + of_nat i) [of_nat i]));
     same \<leftarrow> for_acc 0 buffer_size True (\<lambda>i same. do {
       differs \<leftarrow> ut_byte_differs io buf i;
       State_Monad.return (if differs then False else same)
     });
     u_assert same;
     upd (poke io (mcmd_at fr) (encode_cmd (phys_cmd fr)));
     u_call 0 (sys_write io f (mcmd_at fr) (of_nat sizeof_acl_cmd));
     phys_addr \<leftarrow> fld (\<lambda>w. u32_bytes (load (peek io w) (phys_at fr) 4));
     mem_fd \<leftarrow> u_call 0 (\<lambda>w. Some (sys_open P mem_file w));
     p \<leftarrow> u_call 0 (sys_mmap P mem_fd size phys_addr);
     u_assert (p \<noteq> MAP_FAILED);
     left \<leftarrow> for_break 0 buffer_size (\<lambda>i. do {
       differs \<leftarrow> ut_byte_differs io p i;
       State_Monad.return (if differs then Some () else None)
     });
     u_step (sys_munmap P p size);
     upd (sys_close P mem_fd);
     u_assert (left = None);
     u_step (sys_munmap P buf size)
   }"

definition ut_dump_ddr :: "'w io \<Rightarrow> frame \<Rightarrow> mframe \<Rightarrow> int \<Rightarrow> ('w, unit) uprog" where
  "ut_dump_ddr io fr mf f = do {
     let addr_start = 0;
     let len = 0x0120;
     let dev_addr = 0x10000;
     upd (poke io (seg_at mf) (bytes_u32 0x10000 @ bytes_u32 0));
     ut_write_mem io fr f 2 0xc870 (seg_at mf) 8;
     for_loop addr_start (len - addr_start - addr_start) (\<lambda>i. do {
       r \<leftarrow> ut_read_uint io fr f 0 (dev_addr + of_nat i);
       u_print (Word r)
     })
   }"

definition ut_main :: "'w proc \<Rightarrow> frame \<Rightarrow> frame \<Rightarrow> mframe \<Rightarrow> ('w, int) uprog" where
  "ut_main P fr fr' mf = do {
     f \<leftarrow> u_call 0 (\<lambda>w. Some (sys_open P board_file w));
     if f = - 1 then State_Monad.return 0
     else do {
       upd (run_shell P ''echo 1 > /sys/class/fpga-bridge/fpga2hps/enable'');
       upd (run_shell P ''echo 1 > /sys/class/fpga-bridge/hps2fpga/enable'');
       upd (run_shell P ''echo 1 > /sys/class/fpga-bridge/lwhps2fpga/enable'');
       ut_test_small_writes (base P) fr f;
       ut_test_page_write (base P) fr' f;
       ut_test_mmap P mf f;
       upd (sys_close P f);
       State_Monad.return 0
     }
   }"

subsection \<open>Against the functions\<close>

lemma run_u_call: "f w = Some (r, w') \<Longrightarrow> run_state (u_call x f) (running w ls) = (r, running w' ls)"
  by (simp add: u_call_def running_def)

lemma run_u_step: "f w = Some w' \<Longrightarrow> run_state (u_step f) (running w ls) = ((), running w' ls)"
  by (simp add: u_step_def run_u_call)

lemma run_u_simps [run_simps]:
  "run_state (u_print l) (running w ls) = ((), running w (l # ls))"
  "run_state (u_assert True) s = ((), s)"
  by (simp_all add: u_print_def u_assert_def run_simps)

lemma run_u_read:
  "sys_read io f (cmd_at fr) (of_nat sizeof_acl_cmd) (poke io (cmd_at fr) (encode_cmd c) w) = Some (r, w') \<Longrightarrow>
   run_state (u_read io fr f c) (running w ls) = (r, running w' ls)"
  by (simp add: u_read_def run_simps run_u_call)

lemma run_u_write:
  "sys_write io f (cmd_at fr) (of_nat sizeof_acl_cmd) (poke io (cmd_at fr) (encode_cmd c) w) = Some (r, w') \<Longrightarrow>
   run_state (u_write io fr f c) (running w ls) = (r, running w' ls)"
  by (simp add: u_write_def run_simps run_u_call)

lemma run_ut_reads:
  "read_uchar io fr f bar a w = Some (uc, w') \<Longrightarrow>
     run_state (ut_read_uchar io fr f bar a) (running w ls) = (uc, running w' ls)"
  "read_ushort io fr f bar a w = Some (us, w') \<Longrightarrow>
     run_state (ut_read_ushort io fr f bar a) (running w ls) = (us, running w' ls)"
  "read_uint io fr f bar a w = Some (ui, w') \<Longrightarrow>
     run_state (ut_read_uint io fr f bar a) (running w ls) = (ui, running w' ls)"
  "read_ulong io fr f bar a w = Some (ul, w') \<Longrightarrow>
     run_state (ut_read_ulong io fr f bar a) (running w ls) = (ul, running w' ls)"
  "read_mem io fr f bar a p n w = Some (r, w') \<Longrightarrow>
     run_state (ut_read_mem io fr f bar a p n) (running w ls) = (r, running w' ls)"
  by (auto simp: read_uchar_def read_ushort_def read_uint_def read_ulong_def read_mem_def
      ut_read_uchar_def ut_read_ushort_def ut_read_uint_def ut_read_ulong_def ut_read_mem_def
      bind_Some_iff run_simps run_u_read)

lemma run_ut_writes:
  "write_uchar io fr f bar a uc w = Some w' \<Longrightarrow>
     \<exists>r. run_state (ut_write_uchar io fr f bar a uc) (running w ls) = (r, running w' ls)"
  "write_ushort io fr f bar a us w = Some w' \<Longrightarrow>
     \<exists>r. run_state (ut_write_ushort io fr f bar a us) (running w ls) = (r, running w' ls)"
  "write_uint io fr f bar a ui w = Some w' \<Longrightarrow>
     \<exists>r. run_state (ut_write_uint io fr f bar a ui) (running w ls) = (r, running w' ls)"
  "write_ulong io fr f bar a ul w = Some w' \<Longrightarrow>
     \<exists>r. run_state (ut_write_ulong io fr f bar a ul) (running w ls) = (r, running w' ls)"
  by (auto simp: write_uchar_def write_ushort_def write_uint_def write_ulong_def write_val_def
      ut_write_uchar_def ut_write_ushort_def ut_write_uint_def ut_write_ulong_def
      bind_Some_iff run_simps run_u_write Let_def)

lemma run_ut_write_mem:
  "write_mem io fr f bar a p n w = Some (r, w') \<Longrightarrow>
     run_state (ut_write_mem io fr f bar a p n) (running w ls) = (r, running w' ls)"
  by (simp add: write_mem_def ut_write_mem_def run_simps run_u_write)

text \<open>The loops.\<close>

lemma for_loop_last:
  "run_state (for_loop s (Suc n) body) st =
     (let (x, st) = run_state (for_loop s n body) st in run_state (body (s + n)) st)"
proof (induction n arbitrary: s st)
  case 0
  show ?case by (cases "run_state (body s) st") (simp add: run_simps)
next
  case (Suc n)
  show ?case using Suc.IH [of "Suc s"] by (simp add: run_simps split_def)
qed

lemma run_ut_fill:
  "run_state (ut_fill io fr f n) (running w ls) = ((), running (fill_arrays io fr f n w) ls)"
  unfolding ut_fill_def
  by (induction n) (simp_all add: for_loop_last run_simps Let_def del: for_loop.simps(2) of_nat_mult)

lemma run_fill_bytes:
  "run_state (for_loop 0 n (\<lambda>i. upd (poke io (a + of_nat i) [of_nat i]))) (running w ls) =
     ((), running (fill_bytes io a n w) ls)"
  by (induction n) (simp_all add: for_loop_last run_simps Let_def del: for_loop.simps(2))

lemma run_all:
  assumes "\<And>i b. run_state (body i b) (running w ls) = (b \<and> P i, running w ls)"
  shows "run_state (for_acc s n b body) (running w ls) = (b \<and> list_all P [s..<s + n], running w ls)"
proof (induction n arbitrary: s b)
  case (Suc n)
  have "[s..<s + Suc n] = s # [Suc s..<Suc s + n]" by (simp add: upt_conv_Cons)
  then show ?case using Suc.IH [of "Suc s" "b \<and> P s"] assms by (simp add: run_simps del: upt_Suc)
qed (simp add: run_simps)

lemma run_search:
  assumes "\<And>i. run_state (body i) (running w ls) = (if P i then None else Some (), running w ls)"
  shows "run_state (for_break s n body) (running w ls) =
    (if list_all P [s..<s + n] then None else Some (), running w ls)"
proof (induction n arbitrary: s)
  case (Suc n)
  have "[s..<s + Suc n] = s # [Suc s..<Suc s + n]" by (simp add: upt_conv_Cons)
  then show ?case using Suc.IH [of "Suc s"] assms by (simp add: run_simps del: upt_Suc)
qed (simp add: run_simps)

definition differing_lines :: "'w io \<Rightarrow> frame \<Rightarrow> nat list \<Rightarrow> 'w \<Rightarrow> tline list" where
  "differing_lines io fr ds w =
     rev (map (\<lambda>i. Differs i (array_at io (ua_at fr) w i) (array_at io (ub_at fr) w i)) ds)"

lemma run_page_loop:
  "run_state (for_loop s n (\<lambda>i. do {
       a \<leftarrow> fld (\<lambda>w. array_at io (ua_at fr) w i);
       b \<leftarrow> fld (\<lambda>w. array_at io (ub_at fr) w i);
       if a \<noteq> b then u_print (Differs i a b) else skip
     })) (running w ls) =
   ((), running w (differing_lines io fr
     (filter (\<lambda>i. array_at io (ua_at fr) w i \<noteq> array_at io (ub_at fr) w i) [s..<s + n]) w @ ls))"
proof (induction n arbitrary: s ls)
  case (Suc n)
  have "[s..<s + Suc n] = s # [Suc s..<Suc s + n]" by (simp add: upt_conv_Cons)
  then show ?case
    using Suc.IH [of "Suc s"] by (simp add: run_simps differing_lines_def del: upt_Suc)
qed (simp add: run_simps differing_lines_def)

lemma run_dump_loop:
  "dump_words io fr f (a + of_nat s) n w = Some (rs, w') \<Longrightarrow>
   run_state (for_loop s n (\<lambda>i. do {
       r \<leftarrow> ut_read_uint io fr f 0 (a + of_nat i);
       u_print (Word r)
     })) (running w ls) = ((), running w' (rev (map Word rs) @ ls))"
proof (induction n arbitrary: s w rs ls)
  case (Suc n)
  from Suc.prems obtain r w1 rs1 where r: "read_uint io fr f 0 (a + of_nat s) w = Some (r, w1)"
    "dump_words io fr f (a + of_nat (Suc s)) n w1 = Some (rs1, w')" "rs = r # rs1"
    by (auto simp: bind_Some_iff add_ac)
  from Suc.IH [OF r(2)] r(3) run_ut_reads(3) [OF r(1)] show ?case
    by (simp add: run_simps)
qed (simp add: run_simps)

text \<open>The tests: a run of the functions is a run of the programs.\<close>

lemma run_small:
  assumes "test_small_writes io fr f w = Some w'"
  shows "run_state (ut_test_small_writes io fr f) (running w ls) = ((), running w' ls)"
proof -
  from assms obtain w1 w2 w3 w4 w5 w6 where
    b: "write_uchar io fr f 0 0x10000 19 w = Some w1" "read_uchar io fr f 0 0x10000 w1 = Some (19, w2)"
    and h: "write_ushort io fr f 0 0x10000 13 w2 = Some w3" "read_ushort io fr f 0 0x10000 w3 = Some (13, w4)"
    and i: "write_uint io fr f 0 0x10000 18987983 w4 = Some w5" "read_uint io fr f 0 0x10000 w5 = Some (18987983, w6)"
    by (auto simp: test_small_writes_def bind_Some_iff Let_def split: if_split_asm)
  let ?w = "fill_arrays io fr (\<lambda>i. of_nat i * 13) 10 w6"
  from assms b h i obtain r1 w7 r2 where
    a: "write_mem io fr f 0 0x10000 (ua_at fr) 40 ?w = Some (r1, w7)"
    "read_mem io fr f 0 0x10000 (ub_at fr) 40 w7 = Some (r2, w')" "mismatches io fr 10 w' = []"
    by (auto simp: test_small_writes_def bind_Some_iff Let_def split: if_split_asm)
  obtain q1 q2 q3 where q: "run_state (ut_write_uchar io fr f 0 0x10000 19) (running w ls) = (q1, running w1 ls)"
    "run_state (ut_write_ushort io fr f 0 0x10000 13) (running w2 ls) = (q2, running w3 ls)"
    "run_state (ut_write_uint io fr f 0 0x10000 18987983) (running w4 ls) = (q3, running w5 ls)"
    using run_ut_writes(1) [OF b(1)] run_ut_writes(2) [OF h(1)] run_ut_writes(3) [OF i(1)] by blast
  let ?P = "\<lambda>i. array_at io (ua_at fr) w' i = array_at io (ub_at fr) w' i"
  have "list_all ?P [0..<0 + 10]" using a(3) by (simp add: mismatches_def list_all_iff filter_empty_conv)
  with run_all [of "\<lambda>i same. do {
      a \<leftarrow> fld (\<lambda>w. array_at io (ua_at fr) w i);
      b \<leftarrow> fld (\<lambda>w. array_at io (ub_at fr) w i);
      State_Monad.return (same \<and> a = b) }" w' ls ?P 0 10 True]
  have l: "run_state (for_acc 0 10 True (\<lambda>i same. do {
      a \<leftarrow> fld (\<lambda>w. array_at io (ua_at fr) w i);
      b \<leftarrow> fld (\<lambda>w. array_at io (ub_at fr) w i);
      State_Monad.return (same \<and> a = b) })) (running w' ls) = (True, running w' ls)"
    by (simp add: run_simps)
  show ?thesis
    unfolding ut_test_small_writes_def Let_def
    using q run_ut_reads(1) [OF b(2)] run_ut_reads(2) [OF h(2)] run_ut_reads(3) [OF i(2)]
      run_ut_write_mem [OF a(1)] run_ut_reads(5) [OF a(2)] l
    by (simp add: run_simps run_ut_fill)
qed

lemma run_page:
  assumes "test_page_write io fr f w = Some (ds, w')"
  shows "run_state (ut_test_page_write io fr f) (running w ls) =
    ((), running w' (differing_lines io fr ds w' @ ls))"
proof -
  let ?w = "fill_arrays io fr (\<lambda>i. of_nat i * 2) 3072 w"
  from assms obtain r1 w1 r2 where
    a: "write_mem io fr f 0 0x10000 (ua_at fr) 12288 ?w = Some (r1, w1)"
    "read_mem io fr f 0 0x10000 (ub_at fr) 12288 w1 = Some (r2, w')" "ds = mismatches io fr 3072 w'"
    by (auto simp: test_page_write_def bind_Some_iff Let_def)
  show ?thesis
    using run_ut_write_mem [OF a(1)] run_ut_reads(5) [OF a(2)] run_page_loop [of 0 3072 io fr w' ls] a(3)
    by (simp add: ut_test_page_write_def run_simps run_ut_fill mismatches_def Let_def)
qed

lemma run_byte_differs [run_simps]:
  "run_state (ut_byte_differs io p i) (running w ls) = (peek io w (p + of_nat i) \<noteq> of_nat i, running w ls)"
  by (simp add: ut_byte_differs_def run_simps)

lemma run_mmap_test:
  assumes "test_mmap P fr f w = Some w'"
  shows "run_state (ut_test_mmap P fr f) (running w ls) = ((), running w' ls)"
proof -
  let ?io = "base P" and ?N = "of_nat buffer_size :: u32"
  let ?same = "\<lambda>q w i. peek ?io w (q + of_nat i) = of_nat i"
  from assms obtain buf w1 where
    m: "sys_mmap P f ?N 0 (poke ?io (phys_at fr) (bytes_u32 0) w) = Some (buf, w1)" "buf \<noteq> MAP_FAILED"
    by (auto simp: test_mmap_def bind_Some_iff Let_def split: if_split_asm)
  define w2 where "w2 = fill_bytes ?io buf buffer_size (poke ?io (mem_at fr) (bytes_u32 buf) w1)"
  let ?w3 = "poke ?io (mcmd_at fr) (encode_cmd (phys_cmd fr)) w2"
  from assms m obtain r w4 where
    q: "list_all (?same buf w2) [0..<0 + buffer_size]"
    "sys_write ?io f (mcmd_at fr) (of_nat sizeof_acl_cmd) ?w3 = Some (r, w4)"
    by (auto simp: test_mmap_def bind_Some_iff Let_def bytes_match_def w2_def split: if_split_asm)
  let ?phys = "u32_bytes (load (peek ?io w4) (phys_at fr) 4)"
  obtain fd w5 where o: "sys_open P mem_file w4 = (fd, w5)" by force
  from assms m q o obtain p w6 w7 where
    n: "sys_mmap P fd ?N ?phys w5 = Some (p, w6)" "p \<noteq> MAP_FAILED"
    "list_all (?same p w6) [0..<0 + buffer_size]"
    "sys_munmap P p ?N w6 = Some w7" "sys_munmap P buf ?N (sys_close P fd w7) = Some w'"
    by (auto simp: test_mmap_def bind_Some_iff Let_def bytes_match_def w2_def [symmetric]
        split: if_split_asm)
  have l1: "run_state (for_acc 0 buffer_size True (\<lambda>i same. do {
       differs \<leftarrow> ut_byte_differs ?io buf i;
       State_Monad.return (if differs then False else same) })) (running w2 ls) = (True, running w2 ls)"
    using run_all [of "\<lambda>i same. do {
       differs \<leftarrow> ut_byte_differs ?io buf i;
       State_Monad.return (if differs then False else same) }" w2 ls "?same buf w2" 0 buffer_size True] q(1)
    by (simp add: run_simps)
  have l2: "run_state (for_break 0 buffer_size (\<lambda>i. do {
       differs \<leftarrow> ut_byte_differs ?io p i;
       State_Monad.return (if differs then Some () else None) })) (running w6 ls) = (None, running w6 ls)"
    using run_search [of "\<lambda>i. do {
       differs \<leftarrow> ut_byte_differs ?io p i;
       State_Monad.return (if differs then Some () else None) }" w6 ls "?same p w6" 0 buffer_size] n(3)
    by (simp add: run_simps)
  show ?thesis
    unfolding ut_test_mmap_def Let_def
    using m q(2) o n(1,2) l1 l2
    by (simp add: run_simps run_u_call
        run_fill_bytes w2_def [symmetric] run_u_step [where f = "sys_munmap P p ?N", OF n(4)]
        run_u_step [where f = "sys_munmap P buf ?N", OF n(5)])
qed

lemma run_ut_dump:
  assumes "dump_ddr io fr mf f w = Some (rs, w')"
  shows "run_state (ut_dump_ddr io fr mf f) (running w ls) = ((), running w' (rev (map Word rs) @ ls))"
proof -
  from assms obtain r w1 where
    d: "write_mem io fr f 2 0xc870 (seg_at mf) 8
      (poke io (seg_at mf) (bytes_u32 0x10000 @ bytes_u32 0) w) = Some (r, w1)"
    "dump_words io fr f (0x10000 + of_nat 0) 0x120 w1 = Some (rs, w')"
    by (auto simp: dump_ddr_def bind_Some_iff Let_def)
  show ?thesis
    unfolding ut_dump_ddr_def Let_def
    using run_ut_write_mem [OF d(1)] run_dump_loop [OF d(2), of ls] by (simp add: run_simps)
qed

lemma run_ut_tests:
  assumes "sys_open P board_file w = (f, w1)" "f \<noteq> - 1"
    "test_small_writes (base P) fr f (fold (run_shell P) (rev bridge_commands) w1) = Some w2"
    "test_page_write (base P) fr' f w2 = Some (ds, w3)" "test_mmap P mf f w3 = Some w4"
  shows "run_state (ut_main P fr fr' mf) (running w ls) =
    (0, running (sys_close P f w4) (differing_lines (base P) fr' ds w3 @ ls))"
  using assms(1,2) run_small [OF assms(3)] run_page [OF assms(4)] run_mmap_test [OF assms(5)]
  by (simp add: ut_main_def run_simps run_u_call bridge_commands_def)

lemma run_ut_main:
  assumes "user_main P fr fr' mf w = Some (r, w')"
  shows "\<exists>ls'. run_state (ut_main P fr fr' mf) (running w ls) = (r, running w' (ls' @ ls))"
proof -
  obtain f w1 where o: "sys_open P board_file w = (f, w1)" by force
  show ?thesis
  proof (cases "f = - 1")
    case True
    with assms o show ?thesis
      by (intro exI [of _ "[]"]) (simp add: user_main_def ut_main_def run_simps run_u_call)
  next
    case False
    from assms o False obtain w2 ds w3 w4 where
      t: "test_small_writes (base P) fr f (fold (run_shell P) (rev bridge_commands) w1) = Some w2"
        "test_page_write (base P) fr' f w2 = Some (ds, w3)" "test_mmap P mf f w3 = Some w4"
      and r: "r = 0" "w' = sys_close P f w4"
      by (auto simp: user_main_def bind_Some_iff Let_def bridge_commands_def)
    show ?thesis using run_ut_tests [OF o False t] r by blast
  qed
qed

text \<open>A run that passes every test prints nothing about the values.\<close>

lemma passes_ut_main:
  assumes "passes_tests P fr fr' mf w w'"
  shows "run_state (ut_main P fr fr' mf) (running w ls) = (0, running w' ls)"
proof -
  from assms obtain f w1 w2 w3 w4 where "sys_open P board_file w = (f, w1)" "f \<noteq> - 1"
    "test_small_writes (base P) fr f (fold (run_shell P) (rev bridge_commands) w1) = Some w2"
    "test_page_write (base P) fr' f w2 = Some ([], w3)" "test_mmap P mf f w3 = Some w4"
    "w' = sys_close P f w4" unfolding passes_tests_def by blast
  with run_ut_tests [of P w f w1 fr w2 fr' "[]" w3 mf w4 ls] show ?thesis
    by (simp add: differing_lines_def)
qed

end
