(* ===== verification/Card_Aclsoc.thy ===== *)
theory Card_Aclsoc
  imports Card_Machine
begin

section \<open>Interrupts and mappings of the card's driver (aclsoc.c)\<close>

text \<open>
  The interrupt handler, the table of buffers and \<open>mmap()\<close> of the card's \<open>aclsoc.c\<close>, each
  statement a call into the kernel, a read or an update of the device. A slot outside the
  table, or a table that was not allocated, raises the flag.
\<close>

subsection \<open>Interrupts\<close>

definition card_get_interrupt_enable_addr :: "(aclsoc_dev, ptr) prog" where
  "card_get_interrupt_enable_addr = do {
     region \<leftarrow> fld mapped_region;
     State_Monad.return (region 2 + (ACL_KERNEL_CSR_OFFSET + PCIE_CRA_IRQ_ENABLE))
   }"

definition card_mask_irq :: "(aclsoc_dev, unit) prog" where
  "card_mask_irq = do {
     a \<leftarrow> card_get_interrupt_enable_addr;
     exec (writel 0x0 a)
   }"

definition card_unmask_irq :: "(aclsoc_dev, unit) prog" where
  "card_unmask_irq = do {
     a \<leftarrow> card_get_interrupt_enable_addr;
     exec (writel 0x1 a)
   }"

definition card_unmask_kernel_irq :: "(aclsoc_dev, unit) prog" where
  "card_unmask_kernel_irq = do {
     a \<leftarrow> card_get_interrupt_enable_addr;
     exec (writel 0x1 a)
   }"

text \<open>
  \<open>null\<close> says that the argument is a null pointer. The two local flags are those of the
  source; only the first is ever set.
\<close>

definition card_irq :: "kernel \<Rightarrow> bool \<Rightarrow> (aclsoc_dev, irqreturn) prog" where
  "card_irq K null =
     (if null then State_Monad.return IRQ_NONE
      else do {
        upd (\<lambda>d. d\<lparr>num_handled_interrupts := num_handled_interrupts d + 1\<rparr>);
        card_mask_irq;
        let kernel_update = (1 :: u32);
        let dma_update = (0 :: u32);
        (if kernel_update \<noteq> 0 then do {
           task \<leftarrow> fld user_task;
           if task \<noteq> 0 then do {
             info \<leftarrow> fld signal_info;
             ret \<leftarrow> call (send_sig_info K SIG_INT_NOTIFY info task);
             if ret < 0 then upd (\<lambda>d. d\<lparr>num_undelivered_signals := num_undelivered_signals d + 1\<rparr>)
             else skip
           } else skip
         } else skip);
        State_Monad.return IRQ_HANDLED
      })"

definition card_load_signal_info :: "(aclsoc_dev, unit) prog" where
  "card_load_signal_info = do {
     upd (\<lambda>d. d\<lparr>signal_info := zero_siginfo\<rparr>);
     upd (\<lambda>d. d\<lparr>signal_info := (signal_info d)\<lparr>si_signo := SIG_INT_NOTIFY\<rparr>\<rparr>);
     upd (\<lambda>d. d\<lparr>signal_info := (signal_info d)\<lparr>si_code := SI_QUEUE\<rparr>\<rparr>);
     upd (\<lambda>d. d\<lparr>signal_info := (signal_info d)\<lparr>si_int := 0\<rparr>\<rparr>)
   }"

definition card_init_irq :: "kernel \<Rightarrow> bool \<Rightarrow> (aclsoc_dev, int) prog" where
  "card_init_irq K null =
     (if null then State_Monad.return (-1)
      else do {
        rc \<leftarrow> call (request_irq K PIO_IRQ);
        if rc \<noteq> 0 then State_Monad.return (-1)
        else do {
          upd (\<lambda>d. d\<lparr>num_handled_interrupts := 0\<rparr>);
          upd (\<lambda>d. d\<lparr>num_undelivered_signals := 0\<rparr>);
          card_unmask_irq;
          State_Monad.return 0
        }
      })"

definition card_release_irq :: "(aclsoc_dev, unit) prog" where
  "card_release_irq = do {
     card_mask_irq;
     exec (free_irq PIO_IRQ);
     card_mask_irq
   }"

lemma run_enable [run_simps]:
  "run_state card_get_interrupt_enable_addr (running d h) = (get_interrupt_enable_addr d, running d h)"
  by (simp add: card_get_interrupt_enable_addr_def get_interrupt_enable_addr_def run_simps)

lemma run_mask [run_simps]:
  "run_state card_mask_irq (running d h) = ((), running d (mask_irq d h))"
  "run_state card_unmask_irq (running d h) = ((), running d (unmask_irq d h))"
  "run_state card_unmask_kernel_irq (running d h) = ((), running d (unmask_kernel_irq d h))"
  by (simp_all add: card_mask_irq_def card_unmask_irq_def card_unmask_kernel_irq_def
      mask_irq_def unmask_irq_def unmask_kernel_irq_def run_simps)

lemma run_irq:
  assumes "aclsoc_irq K (Some d) h = (r, Some d', h')"
  shows "run_state (card_irq K False) (running d h) = (r, running d' h')"
  using assms
  by (auto simp: card_irq_def aclsoc_irq_def Let_def run_simps split: if_splits prod.splits)

lemma run_irq_null: "run_state (card_irq K True) s = (IRQ_NONE, s)"
  by (simp add: card_irq_def)

lemma run_load_signal_info [run_simps]:
  "run_state card_load_signal_info (running d h) = ((), running (load_signal_info d) h)"
  by (simp add: card_load_signal_info_def load_signal_info_def run_simps)

lemma run_init_irq:
  assumes "init_irq K (Some d) h = (r, Some d', h')"
  shows "run_state (card_init_irq K False) (running d h) = (r, running d' h')"
  using assms
  by (auto simp: card_init_irq_def init_irq_def Let_def run_simps split: if_splits prod.splits)

lemma run_release_irq [run_simps]:
  "run_state card_release_irq (running d h) = ((), running d (release_irq d h))"
  by (simp add: card_release_irq_def release_irq_def run_simps)

subsection \<open>The table of buffers\<close>

text \<open>\<open>aclsoc->addr_map[i]\<close>, read and written.\<close>

definition entry :: "nat \<Rightarrow> (aclsoc_dev, addr_map_elem) prog" where
  "entry i = do {
     p \<leftarrow> fld addr_map;
     es \<leftarrow> fld addr_map_mem;
     if p \<noteq> 0 \<and> i < length es then State_Monad.return (es ! i) else fault zero_elem
   }"

definition set_entry :: "nat \<Rightarrow> (addr_map_elem \<Rightarrow> addr_map_elem) \<Rightarrow> (aclsoc_dev, unit) prog" where
  "set_entry i f = do {
     e \<leftarrow> entry i;
     upd (\<lambda>d. d\<lparr>addr_map_mem := (addr_map_mem d)[i := f e]\<rparr>)
   }"

definition card_free_map_info :: "nat \<Rightarrow> (aclsoc_dev, unit) prog" where
  "card_free_map_info i = do {
     info \<leftarrow> entry i;
     if vm_start info \<noteq> 0 then do {
       exec (dma_free_coherent (map_size info) (cpu_addr info) (dma_handle info));
       set_entry i (\<lambda>_. zero_elem)
     } else skip
   }"

definition card_release_mmap_memory :: "nat \<Rightarrow> (aclsoc_dev, unit) prog" where
  "card_release_mmap_memory i = card_free_map_info i"

definition info_of :: "vma \<Rightarrow> ('o, nat) prog" where
  "info_of v = (case vma_private v of None \<Rightarrow> fault 0 | Some i \<Rightarrow> State_Monad.return i)"

definition card_vma_open :: "kernel \<Rightarrow> vma \<Rightarrow> (aclsoc_dev, unit) prog" where
  "card_vma_open K v = do {
     i \<leftarrow> info_of v;
     set_entry i (\<lambda>info. info\<lparr>ref := kr_get K (ref info)\<rparr>)
   }"

text \<open>\<open>kref_put\<close> calls the release function when the counter tells it to.\<close>

definition card_vma_close :: "kernel \<Rightarrow> vma \<Rightarrow> (aclsoc_dev, unit) prog" where
  "card_vma_close K v = do {
     i \<leftarrow> info_of v;
     info \<leftarrow> entry i;
     set_entry i (\<lambda>info. info\<lparr>ref := fst (kr_put K (ref info))\<rparr>);
     if snd (kr_put K (ref info)) then card_release_mmap_memory i else skip
   }"

definition card_mmap :: "kernel \<Rightarrow> vma \<Rightarrow> (aclsoc_dev, int \<times> vma) prog" where
  "card_mmap K v = do {
     let sz = vma_end v - vma_start v;
     let allocated_size = sz;
     found \<leftarrow> for_break 0 MAX_ADDR_MAP_ENTRIES (\<lambda>i. do {
       e \<leftarrow> entry i;
       State_Monad.return (if vm_start e = 0 then Some i else None)
     });
     let iMapInfo = (case found of None \<Rightarrow> MAX_ADDR_MAP_ENTRIES | Some i \<Rightarrow> i);
     if iMapInfo = MAX_ADDR_MAP_ENTRIES then State_Monad.return (- ENOMEM, v)
     else do {
       mem \<leftarrow> call (dma_alloc_coherent K allocated_size);
       if fst mem = 0 then State_Monad.return (- ENOMEM, v)
       else do {
         let v = v\<lparr>vma_page_prot := pgprot_noncached K (vma_page_prot v)\<rparr>;
         r \<leftarrow> call (remap_pfn_range K (vma_start v) (drop_bit PAGE_SHIFT (snd mem)) sz (vma_page_prot v));
         if r < 0 then State_Monad.return (- EAGAIN, v)
         else do {
           set_entry iMapInfo (\<lambda>info. info\<lparr>vm_start := vma_start v\<rparr>);
           set_entry iMapInfo (\<lambda>info. info\<lparr>map_size := allocated_size\<rparr>);
           set_entry iMapInfo (\<lambda>info. info\<lparr>cpu_addr := fst mem\<rparr>);
           set_entry iMapInfo (\<lambda>info. info\<lparr>dma_handle := snd mem\<rparr>);
           set_entry iMapInfo (\<lambda>info. info\<lparr>ref := kr_init K\<rparr>);
           State_Monad.return (0, v\<lparr>vma_ops := True, vma_private := Some iMapInfo\<rparr>)
         }
       }
     }
   }"

definition card_free_contiguous_memory :: "(aclsoc_dev, unit) prog" where
  "card_free_contiguous_memory = for_loop 0 MAX_ADDR_MAP_ENTRIES card_free_map_info"

subsection \<open>The table operations against the functions\<close>

lemma run_entry:
  "slot d i = Some e \<Longrightarrow> run_state (entry i) (running d h) = (e, running d h)"
  by (auto simp: entry_def slot_def run_simps split: if_splits)

lemma run_set_entry:
  "slot d i = Some e \<Longrightarrow> run_state (set_entry i f) (running d h) = ((), running (set_slot d i (f e)) h)"
  by (simp add: set_entry_def run_entry set_slot_def run_simps)

lemma run_info_of: "vma_private v = Some i \<Longrightarrow> run_state (info_of v) s = (i, s)"
  by (simp add: info_of_def)

lemma run_free_map_info:
  assumes "slot d i = Some e" "free_map_info e h = (e', h')"
  shows "run_state (card_free_map_info i) (running d h) = ((), running (set_slot d i e') h')"
  using assms
  by (auto simp: card_free_map_info_def free_map_info_def run_entry run_set_entry set_slot_same
      run_simps split: if_splits)

lemma run_vma_open:
  assumes "aclsoc_vma_open K v d = Some d'"
  shows "run_state (card_vma_open K v) (running d h) = ((), running d' h)"
  using assms
  by (auto simp: aclsoc_vma_open_def card_vma_open_def bind_Some_iff run_info_of run_set_entry run_simps)

lemma run_vma_close:
  assumes "aclsoc_vma_close K v d h = Some (d', h')"
  shows "run_state (card_vma_close K v) (running d h) = ((), running d' h')"
proof -
  obtain i info where i: "vma_private v = Some i" "slot d i = Some info"
    using assms by (auto simp: aclsoc_vma_close_def bind_Some_iff)
  obtain r release where k: "kr_put K (ref info) = (r, release)" by force
  let ?info = "info\<lparr>ref := r\<rparr>"
  have s: "slot (set_slot d i ?info) i = Some ?info" using i(2) by (rule slot_set_slot)
  obtain e1 h1 where f: "free_map_info ?info h = (e1, h1)" by force
  show ?thesis
    using assms i k f run_free_map_info [OF s f]
    by (auto simp: aclsoc_vma_close_def card_vma_close_def aclsoc_release_mmap_memory_def
        card_release_mmap_memory_def run_info_of run_entry run_set_entry run_simps split: if_splits)
qed

lemma run_find_slot:
  assumes "dev_wf d" "i + n = MAX_ADDR_MAP_ENTRIES"
  shows "\<exists>found. run_state (for_break i n (\<lambda>i. do {
       e \<leftarrow> entry i;
       State_Monad.return (if vm_start e = 0 then Some i else None)
     })) (running d h) = (found, running d h) \<and>
    find_slot d i = Some (case found of None \<Rightarrow> MAX_ADDR_MAP_ENTRIES | Some j \<Rightarrow> j)"
  using assms(2)
proof (induction n arbitrary: i)
  case 0
  then show ?case by (simp add: find_slot.simps)
next
  case (Suc n)
  then have "slot d i = Some (addr_map_mem d ! i)" using assms(1) by (simp add: slot_wf)
  then show ?case
    using Suc.IH [of "Suc i"] Suc.prems find_slot.simps [of d i]
    by (cases "vm_start (addr_map_mem d ! i) = 0") (auto simp: run_entry run_simps)
qed

text \<open>All five fields set one after the other.\<close>

lemma elem_set:
  "e\<lparr>vm_start := a, map_size := n, cpu_addr := p, dma_handle := dm, ref := r\<rparr> =
     \<lparr>vm_start = a, map_size = n, cpu_addr = p, dma_handle = dm, ref = r\<rparr>"
  by (cases e) simp

lemma run_mmap:
  assumes "dev_wf d" "aclsoc_mmap K v d h = Some (r, v', d', h')"
  shows "run_state (card_mmap K v) (running d h) = ((r, v'), running d' h')"
proof -
  from run_find_slot [OF assms(1), of 0 MAX_ADDR_MAP_ENTRIES h] obtain found where
    f: "run_state (for_break 0 MAX_ADDR_MAP_ENTRIES (\<lambda>i. do {
       e \<leftarrow> entry i;
       State_Monad.return (if vm_start e = 0 then Some i else None)
     })) (running d h) = (found, running d h)"
    "find_slot d 0 = Some (case found of None \<Rightarrow> MAX_ADDR_MAP_ENTRIES | Some j \<Rightarrow> j)" by auto
  define i where "i = (case found of None \<Rightarrow> MAX_ADDR_MAP_ENTRIES | Some j \<Rightarrow> j)"
  have "i \<le> MAX_ADDR_MAP_ENTRIES" using find_slot_props [OF assms(1), of 0] f(2) by (auto simp: i_def)
  then have s: "i \<noteq> MAX_ADDR_MAP_ENTRIES \<Longrightarrow> slot d i = Some (addr_map_mem d ! i)"
    using assms(1) by (simp add: slot_wf)
  have s': "slot d i = Some e \<Longrightarrow> slot (set_slot d i e') i = Some e'" for e e' by (rule slot_set_slot)
  show ?thesis
    using assms(2) f s
    by (auto simp: aclsoc_mmap_def card_mmap_def Let_def run_simps run_set_entry s' env_simps
        i_def [symmetric] elem_set split: if_splits prod.splits)
qed

lemma run_free_from:
  assumes "free_from i d h = Some (d', h')" "i + n = MAX_ADDR_MAP_ENTRIES"
  shows "run_state (for_loop i n card_free_map_info) (running d h) = ((), running d' h')"
  using assms
proof (induction n arbitrary: i d h)
  case 0
  then show ?case by (simp add: free_from.simps run_simps)
next
  case (Suc n)
  then obtain e where e: "slot d i = Some e"
    by (auto simp: free_from.simps [of i] split: option.splits)
  obtain e' h1 where f: "free_map_info e h = (e', h1)" by force
  have "free_from (Suc i) (set_slot d i e') h1 = Some (d', h')"
    using Suc.prems e f by (simp add: free_from.simps [of i])
  with Suc.IH [of "Suc i"] Suc.prems(2) show ?case
    by (simp add: run_free_map_info [OF e f] run_simps)
qed

lemma run_free_contiguous_memory:
  assumes "free_contiguous_memory d h = Some (d', h')"
  shows "run_state card_free_contiguous_memory (running d h) = ((), running d' h')"
  using run_free_from [of 0] assms by (simp add: card_free_contiguous_memory_def free_contiguous_memory_def)

end
