(* ===== verification/Card_Cmd.thy ===== *)
theory Card_Cmd
  imports Card_Aclsoc
begin

section \<open>Commands of the card's driver (aclsoc\_cmd.c)\<close>

text \<open>
  The card's \<^verbatim>\<open>version.h\<close> names another version; every other line of the driver is
  the same in the two copies.
\<close>

definition CARD_DRIVER_VERSION :: string where "CARD_DRIVER_VERSION = ''14.1.9''"

text \<open>\<open>copy_from_user\<close> into a local object of \<open>n\<close> bytes.\<close>

definition copy_in :: "kernel \<Rightarrow> ptr \<Rightarrow> nat \<Rightarrow> ('o, u32 \<times> u8 list) prog" where
  "copy_in K p n =
     call (\<lambda>h. let (left, v, h') = copy_from_user K p (uninit K n h) h in ((left, v), h'))"

definition card_find_phys :: "kernel \<Rightarrow> u32 \<Rightarrow> ptr \<Rightarrow> nat \<Rightarrow> (aclsoc_dev, int option option) prog" where
  "card_find_phys K vm_addr dest i = do {
     e \<leftarrow> entry i;
     if vm_start e = 0 then State_Monad.return (Some None)
     else if vm_start e = vm_addr then do {
       left \<leftarrow> call (copy_to_user K dest (bytes_u32 (dma_handle e)));
       State_Monad.return (Some (Some (sint left)))
     } else State_Monad.return None
   }"

definition card_exec_cmd :: "kernel \<Rightarrow> acl_cmd \<Rightarrow> u32 \<Rightarrow> (aclsoc_dev, int) prog" where
  "card_exec_cmd K kcmd cnt =
     (if command kcmd = ACLPCI_CMD_GET_DMA_IDLE_STATUS then do {
        left \<leftarrow> call (copy_to_user K (user_addr kcmd) (bytes_u32 1));
        State_Monad.return (sint left)
      }
      else if command kcmd = ACLPCI_CMD_DMA_UPDATE then State_Monad.return 0
      else if command kcmd = ACLPCI_CMD_ENABLE_KERNEL_IRQ then do {
        card_unmask_kernel_irq;
        State_Monad.return 0
      }
      else if command kcmd = ACLPCI_CMD_SET_SIGNAL_PAYLOAD then do {
        res \<leftarrow> copy_in K (user_addr kcmd) 4;
        upd (\<lambda>d. d\<lparr>signal_info := (signal_info d)\<lparr>si_int := u32_bytes (snd res)\<rparr>\<rparr>);
        State_Monad.return (sint (fst res))
      }
      else if command kcmd = ACLPCI_CMD_GET_DRIVER_VERSION then do {
        left \<leftarrow> call (copy_to_user K (user_addr kcmd) (c_string CARD_DRIVER_VERSION));
        State_Monad.return (sint left)
      }
      else if command kcmd = ACLPCI_CMD_GET_DEVICE_ID then do {
        left \<leftarrow> call (copy_to_user K (user_addr kcmd) (bytes_u32 ACL_C5DK_DEVICE_ID));
        State_Monad.return (sint left)
      }
      else if command kcmd = ACLPCI_CMD_GET_PHYS_PTR_FROM_VIRT then do {
        res \<leftarrow> copy_in K (user_addr kcmd) 4;
        left \<leftarrow> for_break 0 128 (card_find_phys K (u32_bytes (snd res)) (device_addr kcmd));
        State_Monad.return (case left of Some (Some result) \<Rightarrow> result | _ \<Rightarrow> sint (fst res))
      }
      else if command kcmd = ACLPCI_CMD_LOAD_PCI_CONTROL_REGS then do {
        card_init_irq K False;
        State_Monad.return 0
      }
      else if command kcmd = ACLPCI_CMD_SAVE_PCI_CONTROL_REGS then do {
        card_release_irq;
        State_Monad.return 0
      }
      else State_Monad.return (- EFAULT))"

subsection \<open>Against the functions\<close>

lemma run_copy_in [run_simps]:
  "run_state (copy_in K p n) (running d h) =
     (let (left, v, h') = copy_from_user K p (uninit K n h) h in ((left, v), running d h'))"
  by (simp add: copy_in_def run_simps split: prod.split)

lemma run_find_phys:
  assumes "phys_loop K d v dest result i h = Some (r, h')" "i + n = 128"
  shows "\<exists>left. run_state (for_break i n (card_find_phys K v dest)) (running d h) = (left, running d h') \<and>
    r = (case left of Some (Some x) \<Rightarrow> x | _ \<Rightarrow> result)"
  using assms
proof (induction n arbitrary: i h)
  case 0
  then show ?case by (simp add: phys_loop.simps)
next
  case (Suc n)
  then obtain e where e: "slot d i = Some e"
    by (auto simp: phys_loop.simps [of _ _ _ _ _ i] split: option.splits)
  consider "vm_start e = 0" | "vm_start e \<noteq> 0" "vm_start e = v" | "vm_start e \<noteq> 0" "vm_start e \<noteq> v" by blast
  then show ?case
  proof cases
    case 3
    then have "phys_loop K d v dest result (Suc i) h = Some (r, h')"
      using Suc.prems e by (simp add: phys_loop.simps [of _ _ _ _ _ i])
    with Suc.IH [of "Suc i"] Suc.prems(2) 3 show ?thesis
      by (simp add: card_find_phys_def run_entry [OF e] run_simps)
  qed (use Suc.prems e in \<open>auto simp: phys_loop.simps [of _ _ _ _ _ i] card_find_phys_def run_entry [OF e]
    run_simps split: prod.splits\<close>)
qed

text \<open>The copies agree on every command but the one that asks for the version.\<close>

lemma run_exec_cmd:
  assumes "aclsoc_exec_cmd K c n d h = Some (r, d', h')" "command c \<noteq> ACLPCI_CMD_GET_DRIVER_VERSION"
  shows "run_state (card_exec_cmd K c n) (running d h) = (r, running d' h')"
proof -
  obtain left v h1 where cp: "copy_from_user K (user_addr c) (uninit K 4 h) h = (left, v, h1)"
    by (rule prod_cases3)
  consider (phys) "command c = ACLPCI_CMD_GET_PHYS_PTR_FROM_VIRT"
    | (init) "command c = ACLPCI_CMD_LOAD_PCI_CONTROL_REGS"
    | (rest) "command c \<noteq> ACLPCI_CMD_GET_PHYS_PTR_FROM_VIRT"
      "command c \<noteq> ACLPCI_CMD_LOAD_PCI_CONTROL_REGS" by blast
  then show ?thesis
  proof cases
    case phys
    then obtain ph: "d' = d" "phys_loop K d (u32_bytes v) (device_addr c) (sint left) 0 h1 = Some (r, h')"
      using assms(1) cp by (auto simp: aclsoc_exec_cmd_def hw_consts split: option.splits)
    from run_find_phys [OF ph(2), of 128] obtain found where
      "run_state (for_break 0 128 (card_find_phys K (u32_bytes v) (device_addr c))) (running d h1) =
         (found, running d h')"
      "r = (case found of Some (Some x) \<Rightarrow> x | _ \<Rightarrow> sint left)" by auto
    with phys cp ph(1) show ?thesis
      by (simp add: card_exec_cmd_def run_simps hw_consts split: option.split)
  next
    case init
    obtain rc o1 h1 where i: "init_irq K (Some d) h = (rc, o1, h1)" by (rule prod_cases3)
    with init assms(1) have "o1 = Some d'" "r = 0" "h1 = h'"
      by (auto simp: aclsoc_exec_cmd_def hw_consts split: option.splits)
    with i init show ?thesis
      by (simp add: card_exec_cmd_def run_init_irq run_simps hw_consts)
  next
    case rest
    then show ?thesis
      using assms cp
      by (auto simp: aclsoc_exec_cmd_def card_exec_cmd_def run_simps Let_def split: if_splits prod.splits)
  qed
qed

lemma run_exec_version:
  assumes "command c = ACLPCI_CMD_GET_DRIVER_VERSION"
  shows "run_state (card_exec_cmd K c n) (running d h) =
    (sint (ans_copy_to_user K h (user_addr c) (c_string CARD_DRIVER_VERSION)),
     running d (Copy_to_user (user_addr c) (c_string CARD_DRIVER_VERSION)
       (ans_copy_to_user K h (user_addr c) (c_string CARD_DRIVER_VERSION)) # h))"
  using assms by (simp add: card_exec_cmd_def run_simps hw_consts env_simps Let_def)

end
