(* ===== verification/Card_Fileio.thy ===== *)
theory Card_Fileio
  imports Card_Cmd
begin

section \<open>File operations of the card's driver (aclsoc\_fileio.c)\<close>

text \<open>
  The card's \<open>aclsoc_fileio.c\<close>: address checks, \<open>open()\<close> and \<open>close()\<close>, single values, the
  transfer as a \<open>while\<close> loop over its local variables with counted loops inside, and the
  dispatcher with its label \<open>done\<close>. An access outside the driver's buffer raises the flag.
\<close>

subsection \<open>Addresses and the segment\<close>

text \<open>The address and the value stored to \<open>errno\<close>.\<close>

definition card_get_checked_addr :: "u32 \<Rightarrow> ptr \<Rightarrow> u32 \<Rightarrow> (aclsoc_dev, ptr \<times> int) prog" where
  "card_get_checked_addr bar addr cnt =
     (if bar \<noteq> 0 \<and> bar \<noteq> 2 then State_Monad.return (0, - EFAULT)
      else do {
        sizes \<leftarrow> fld mapped_region_size;
        if addr + cnt > sizes (unat bar) then State_Monad.return (0, - EFAULT)
        else do {
          regions \<leftarrow> fld mapped_region;
          State_Monad.return (regions (unat bar) + addr, 0)
        }
      })"

definition card_get_segment_ctrl_addr :: "(aclsoc_dev, ptr) prog" where
  "card_get_segment_ctrl_addr = do {
     let ctrl_addr = ACL_PCIE_MEMWINDOW_CRA;
     (dev_addr, errno) \<leftarrow> card_get_checked_addr 2 ctrl_addr (of_nat sizeof_uX);
     State_Monad.return (if errno \<noteq> 0 then 0 else dev_addr)
   }"

text \<open>The function returns on both paths before its assignment.\<close>

definition card_set_segment_by_val :: "uX \<Rightarrow> (aclsoc_dev, unit) prog" where
  "card_set_segment_by_val new_val = do {
     ctrl_addr \<leftarrow> fld global_mem_segment_addr;
     if ctrl_addr = 0 then State_Monad.return () else State_Monad.return ()
   }"

definition card_set_segment :: "ptr \<Rightarrow> (aclsoc_dev, ptr) prog" where
  "card_set_segment raw_user_ptr = do {
     let cur_segment = raw_user_ptr AND (1 - (ACL_PCIE_MEMWINDOW_SIZE - 1));
     card_set_segment_by_val cur_segment;
     let r = sint raw_user_ptr;
     let offset = sgn r * (\<bar>r\<bar> mod uint ACL_PCIE_MEMWINDOW_SIZE);
     State_Monad.return (ACL_PCIE_MEMWINDOW_BASE + word_of_int offset)
   }"

definition card_aligned_request :: "acl_cmd \<Rightarrow> u32 \<Rightarrow> bool" where
  "card_aligned_request cmd cnt \<longleftrightarrow>
     ((user_addr cmd AND DMA_ALIGNMENT_BYTE_MASK) OR (device_addr cmd AND DMA_ALIGNMENT_BYTE_MASK) OR
      (cnt AND DMA_ALIGNMENT_BYTE_MASK)) = 0"

subsection \<open>open() and close()\<close>

definition card_open :: "kernel \<Rightarrow> int \<Rightarrow> ptr \<Rightarrow> (aclsoc_dev, int) prog" where
  "card_open K pid current = do {
     r \<leftarrow> call (down_interruptible K);
     if r \<noteq> 0 then State_Monad.return (- ERESTARTSYS)
     else do {
       let done = (\<lambda>result. do { exec up; State_Monad.return result });
       upd (\<lambda>d. d\<lparr>user_pid := pid\<rparr>);
       upd (\<lambda>d. d\<lparr>user_task := current\<rparr>);
       upd (\<lambda>d. d\<lparr>global_mem_segment := 0\<rparr>);
       upd (\<lambda>d. d\<lparr>saved_kernel_irq_mask := 0\<rparr>);
       a \<leftarrow> card_get_segment_ctrl_addr;
       upd (\<lambda>d. d\<lparr>global_mem_segment_addr := a\<rparr>);
       card_load_signal_info;
       task \<leftarrow> fld user_task;
       if task = 0 then done (- EFAULT) else done 0
     }
   }"

definition card_close :: "kernel \<Rightarrow> (aclsoc_dev, int) prog" where
  "card_close K = do {
     r \<leftarrow> call (down_interruptible K);
     if r \<noteq> 0 then State_Monad.return (- ERESTARTSYS)
     else do { exec up; State_Monad.return 0 }
   }"

subsection \<open>Single values\<close>

definition card_read_small :: "kernel \<Rightarrow> ptr \<Rightarrow> ptr \<Rightarrow> u32 \<Rightarrow> ('o, int) prog" where
  "card_read_small K read_addr dest_addr len = do {
     copy_res \<leftarrow>
       (if len = 1 then do {
          v \<leftarrow> call (readb K read_addr);
          call (copy_to_user K dest_addr [v])
        } else if len = 2 then do {
          v \<leftarrow> call (readw K read_addr);
          call (copy_to_user K dest_addr (bytes_u16 v))
        } else if len = 4 then do {
          v \<leftarrow> call (readl K read_addr);
          call (copy_to_user K dest_addr (bytes_u32 v))
        } else State_Monad.return 0);
     State_Monad.return (if copy_res \<noteq> 0 then - EFAULT else 0)
   }"

text \<open>The labels of the \<open>switch\<close>, the later ones first: case 2 runs on into case 4.\<close>

definition card_write_small :: "kernel \<Rightarrow> ptr \<Rightarrow> ptr \<Rightarrow> u32 \<Rightarrow> ('o, int) prog" where
  "card_write_small K write_addr src_addr len = do {
     let after = (\<lambda>copy_res :: u32. State_Monad.return (if copy_res \<noteq> 0 then - EFAULT else 0));
     let case4 = do {
       (copy_res, v) \<leftarrow> copy_in K src_addr 4;
       exec (writel (u32_bytes v) write_addr);
       after copy_res
     };
     let case2 = do {
       (copy_res, v) \<leftarrow> copy_in K src_addr 2;
       exec (writew (u16_bytes v) write_addr);
       case4
     };
     let case1 = do {
       (copy_res, v) \<leftarrow> copy_in K src_addr 1;
       exec (writeb (hd v) write_addr);
       after copy_res
     };
     if len = 1 then case1 else if len = 2 then case2 else if len = 4 then case4 else after 0
   }"

subsection \<open>Arbitrary lengths\<close>

text \<open>The driver's buffer, in place.\<close>

definition buf_load :: "nat \<Rightarrow> nat \<Rightarrow> (aclsoc_dev, u8 list) prog" where
  "buf_load off n = do {
     buf \<leftarrow> fld buffer_mem;
     case buf_get buf off n of None \<Rightarrow> fault [] | Some bs \<Rightarrow> State_Monad.return bs
   }"

definition buf_store :: "nat \<Rightarrow> u8 list \<Rightarrow> (aclsoc_dev, unit) prog" where
  "buf_store off bs = do {
     buf \<leftarrow> fld buffer_mem;
     case buf_put buf off bs of None \<Rightarrow> fault () | Some buf' \<Rightarrow> upd (\<lambda>d. d\<lparr>buffer_mem := buf'\<rparr>)
   }"

text \<open>The local variables of the \<open>while\<close> loop; \<open>loc_ret\<close> is set when its body returns.\<close>

record rw_locals =
  loc_ret :: "int option"
  loc_dev :: ptr
  loc_user :: ptr
  loc_left :: u32

definition card_rw_word :: "kernel \<Rightarrow> bool \<Rightarrow> ptr \<Rightarrow> nat \<Rightarrow> (aclsoc_dev, unit) prog" where
  "card_rw_word K reading dev_addr i =
     (if reading then do {
        v \<leftarrow> call (readl K (dev_addr + of_nat (sizeof_uX * i)));
        buf_store (sizeof_uX * i) (bytes_u32 v)
      } else do {
        bs \<leftarrow> buf_load (sizeof_uX * i) sizeof_uX;
        exec (writel (u32_bytes bs) (dev_addr + of_nat (sizeof_uX * i)))
      })"

definition card_rw_byte :: "kernel \<Rightarrow> bool \<Rightarrow> ptr \<Rightarrow> nat \<Rightarrow> nat \<Rightarrow> (aclsoc_dev, unit) prog" where
  "card_rw_byte K reading dev_addr offset i =
     (if reading then do {
        v \<leftarrow> call (readb K (dev_addr + of_nat (offset + i)));
        buf_store (offset + i) [v]
      } else do {
        bs \<leftarrow> buf_load (offset + i) 1;
        exec (writeb (hd bs) (dev_addr + of_nat (offset + i)))
      })"

text \<open>Copying the chunk from the user and to the user: whether it succeeded.\<close>

definition card_fetch :: "kernel \<Rightarrow> bool \<Rightarrow> ptr \<Rightarrow> nat \<Rightarrow> (aclsoc_dev, bool) prog" where
  "card_fetch K reading uaddr chunk =
     (if \<not> reading then do {
        old \<leftarrow> buf_load 0 chunk;
        (left, new) \<leftarrow> call (\<lambda>h. let (left, new, h') = copy_from_user K uaddr old h in ((left, new), h'));
        buf_store 0 new;
        State_Monad.return (left = 0)
      } else State_Monad.return True)"

definition card_deliver :: "kernel \<Rightarrow> bool \<Rightarrow> ptr \<Rightarrow> nat \<Rightarrow> (aclsoc_dev, bool) prog" where
  "card_deliver K reading uaddr chunk =
     (if reading then do {
        bs \<leftarrow> buf_load 0 chunk;
        left \<leftarrow> call (copy_to_user K uaddr bs);
        State_Monad.return (left = 0)
      } else State_Monad.return True)"

definition card_rw_turn :: "kernel \<Rightarrow> bool \<Rightarrow> rw_locals \<Rightarrow> (aclsoc_dev, rw_locals) prog" where
  "card_rw_turn K reading v = do {
     let chunk = (if loc_left v < of_nat BUF_SIZE then loc_left v else of_nat BUF_SIZE);
     fetched \<leftarrow> card_fetch K reading (loc_user v) (unat chunk);
     if \<not> fetched then State_Monad.return (v\<lparr>loc_ret := Some (- EFAULT)\<rparr>)
     else do {
       let num_to_read = unat chunk div sizeof_uX;
       for_loop 0 num_to_read (card_rw_word K reading (loc_dev v));
       let offset = num_to_read * sizeof_uX;
       let num_missed = unat chunk - offset;
       for_loop 0 num_missed (card_rw_byte K reading (loc_dev v) offset);
       delivered \<leftarrow> card_deliver K reading (loc_user v) (unat chunk);
       if \<not> delivered then State_Monad.return (v\<lparr>loc_ret := Some (- EFAULT)\<rparr>)
       else State_Monad.return
         (v\<lparr>loc_dev := loc_dev v + chunk, loc_user := loc_user v + chunk, loc_left := loc_left v - chunk\<rparr>)
     }
   }"

definition card_rw_large :: "kernel \<Rightarrow> ptr \<Rightarrow> ptr \<Rightarrow> u32 \<Rightarrow> bool \<Rightarrow> (aclsoc_dev, int) prog" where
  "card_rw_large K dev_addr uaddr len reading = do {
     v \<leftarrow> while_loop (\<lambda>v. loc_ret v = None \<and> loc_left v > 0) (card_rw_turn K reading)
       \<lparr>loc_ret = None, loc_dev = dev_addr, loc_user = uaddr, loc_left = len\<rparr>;
     State_Monad.return (case loc_ret v of None \<Rightarrow> 0 | Some r \<Rightarrow> r)
   }"

subsection \<open>read() and write()\<close>

definition card_rw :: "kernel \<Rightarrow> ptr \<Rightarrow> bool \<Rightarrow> (aclsoc_dev, int) prog" where
  "card_rw K buf reading = do {
     r \<leftarrow> call (down_interruptible K);
     if r \<noteq> 0 then State_Monad.return (- ERESTARTSYS)
     else do {
       let done = (\<lambda>result. do { exec up; State_Monad.return result });
       (left, bytes) \<leftarrow> copy_in K buf sizeof_acl_cmd;
       if left \<noteq> 0 then done (- EFAULT)
       else do {
         let kcmd = decode_cmd bytes;
         let sz = cmd_size kcmd;
         if bar_id kcmd = ACLPCI_CMD_BAR then do { result \<leftarrow> card_exec_cmd K kcmd sz; done result }
         else do {
           let kcmd =
             (if bar_id kcmd = 0 \<and> sint (device_addr kcmd) \<ge> sint ACL_PCIE_MEMWINDOW_BASE \<and>
                 device_addr kcmd + sz \<le> ACL_PCIE_MEMWINDOW_BASE + ACL_PCIE_MEMWINDOW_SIZE
              then kcmd else kcmd\<lparr>bar_id := 2\<rparr>);
           let aligned = card_aligned_request kcmd sz;
           let use_dma = (USE_DMA \<and> sz \<ge> 1024 \<and> aligned \<and> bar_id kcmd = ACLPCI_DMA_BAR);
           (addr, errno, restore_segment, old_segment) \<leftarrow>
             (if use_dma then State_Monad.return (0, 0, False, 0)
              else if bar_id kcmd \<noteq> ACLPCI_DMA_BAR then do {
                (addr, errno) \<leftarrow> card_get_checked_addr (bar_id kcmd) (device_addr kcmd) sz;
                State_Monad.return (addr, errno, False, 0)
              } else do {
                old_segment \<leftarrow> fld global_mem_segment;
                let kcmd = kcmd\<lparr>bar_id := ACL_PCIE_MEMWINDOW_BAR\<rparr>;
                daddr \<leftarrow> card_set_segment (device_addr kcmd);
                (addr, errno) \<leftarrow> card_get_checked_addr (bar_id kcmd) daddr sz;
                State_Monad.return (addr, errno, True, old_segment)
              });
           if errno \<noteq> 0 then done (- EFAULT)
           else do {
             result \<leftarrow>
               (if sz = 1 \<or> sz = 2 \<or> sz = 4 then
                  (if reading then card_read_small K addr (user_addr kcmd) sz
                   else card_write_small K addr (user_addr kcmd) sz)
                else if use_dma then State_Monad.return 0
                else card_rw_large K addr (user_addr kcmd) sz reading);
             (if restore_segment then card_set_segment_by_val (ucast old_segment) else skip);
             done result
           }
         }
       }
     }
   }"

definition card_read :: "kernel \<Rightarrow> ptr \<Rightarrow> (aclsoc_dev, int) prog" where
  "card_read K buf = card_rw K buf True"

definition card_write :: "kernel \<Rightarrow> ptr \<Rightarrow> (aclsoc_dev, int) prog" where
  "card_write K buf = card_rw K buf False"

end
