(* ===== verification/Card_Rw.thy ===== *)
theory Card_Rw
  imports Card_Fileio Acl_Lock
begin

section \<open>The two copies of the file operations agree\<close>

text \<open>
  Each program of \<^theory_text>\<open>Card_Fileio\<close>, run on a device and a history, gives the result, the
  device and the history of the corresponding function of \<^theory_text>\<open>Acl_Fileio\<close> and
  \<^theory_text>\<open>Acl_Rw\<close>, and raises no fault: in particular its \<open>while\<close> loop ends.
\<close>

lemma run_checked_addr [run_simps]:
  "run_state (card_get_checked_addr bar addr cnt) (running d h) =
     (aclsoc_get_checked_addr bar addr cnt d, running d h)"
  by (simp add: card_get_checked_addr_def aclsoc_get_checked_addr_def run_simps)

lemma run_segment_ctrl [run_simps]:
  "run_state card_get_segment_ctrl_addr (running d h) = (get_segment_ctrl_addr d, running d h)"
  by (simp add: card_get_segment_ctrl_addr_def get_segment_ctrl_addr_def run_simps split: prod.split)

lemma run_set_segment_by_val [run_simps]:
  "run_state (card_set_segment_by_val v) (running d h) = ((), running d h)"
  by (simp add: card_set_segment_by_val_def run_simps)

lemma run_open:
  "aclsoc_open K pid cur d h = (r, d', h') \<Longrightarrow>
   run_state (card_open K pid cur) (running d h) = (r, running d' h')"
  by (auto simp: card_open_def aclsoc_open_def Let_def run_simps load_signal_info_def
      split: if_splits prod.splits)

lemma run_close:
  "aclsoc_close K d h = (r, d', h') \<Longrightarrow> run_state (card_close K) (running d h) = (r, running d' h')"
  by (auto simp: card_close_def aclsoc_close_def Let_def run_simps split: if_splits prod.splits)

lemma run_read_small:
  "aclsoc_read_small K a p n h = (r, h') \<Longrightarrow>
   run_state (card_read_small K a p n) (running d h) = (r, running d h')"
  by (auto simp: card_read_small_def aclsoc_read_small_def Let_def run_simps
      split: if_splits prod.splits)

lemma run_write_small:
  assumes "aclsoc_write_small K a p n h = (r, h')"
  shows "run_state (card_write_small K a p n) (running d h) = (r, running d h')"
  using assms
  by (auto simp: card_write_small_def aclsoc_write_small_def write_case1_def write_case2_def
      write_case4_def Let_def run_simps split: if_splits prod.splits)

subsection \<open>The transfer loop\<close>

lemma run_buf_load:
  "buf_get (buffer_mem d) off n = Some bs \<Longrightarrow> run_state (buf_load off n) (running d h) = (bs, running d h)"
  by (simp add: buf_load_def run_simps del: buf_get_Some)

lemma run_buf_store:
  "buf_put (buffer_mem d) off bs = Some buf \<Longrightarrow>
   run_state (buf_store off bs) (running d h) = ((), running (d\<lparr>buffer_mem := buf\<rparr>) h)"
  by (simp add: buf_store_def run_simps del: buf_put_Some)

text \<open>One word and one byte.\<close>

lemma run_word:
  "buf_put (buffer_mem d) (sizeof_uX * i)
     (bytes_u32 (fst (readl K (dev + of_nat (sizeof_uX * i)) h))) = Some b \<Longrightarrow>
   run_state (card_rw_word K True dev i) (running d h) =
     ((), running (d\<lparr>buffer_mem := b\<rparr>) (snd (readl K (dev + of_nat (sizeof_uX * i)) h)))"
  "buf_get (buffer_mem d) (sizeof_uX * i) sizeof_uX = Some bs \<Longrightarrow>
   run_state (card_rw_word K False dev i) (running d h) =
     ((), running d (writel (u32_bytes bs) (dev + of_nat (sizeof_uX * i)) h))"
  by (simp_all add: card_rw_word_def run_buf_store run_buf_load run_simps del: of_nat_mult)

lemma run_byte:
  "buf_put (buffer_mem d) (off + i) [fst (readb K (dev + of_nat (off + i)) h)] = Some b \<Longrightarrow>
   run_state (card_rw_byte K True dev off i) (running d h) =
     ((), running (d\<lparr>buffer_mem := b\<rparr>) (snd (readb K (dev + of_nat (off + i)) h)))"
  "buf_get (buffer_mem d) (off + i) 1 = Some bs \<Longrightarrow>
   run_state (card_rw_byte K False dev off i) (running d h) =
     ((), running d (writeb (hd bs) (dev + of_nat (off + i)) h))"
  by (simp_all add: card_rw_byte_def run_buf_store run_buf_load run_simps del: of_nat_add)

lemma run_words:
  assumes "rw_words K reading dev (i + n) i (buffer_mem d) h = Some (buf, h')"
  shows "run_state (for_loop i n (card_rw_word K reading dev)) (running d h) =
    ((), running (d\<lparr>buffer_mem := buf\<rparr>) h')"
  using assms
proof (induction n arbitrary: i d h)
  case 0
  then show ?case by (auto simp: rw_words.simps run_simps)
next
  case (Suc n)
  let ?a = "dev + of_nat (sizeof_uX * i)"
  show ?case
  proof (cases reading)
    case True
    with Suc.prems obtain b where b: "buf_put (buffer_mem d) (sizeof_uX * i) (bytes_u32 (fst (readl K ?a h))) = Some b"
      "rw_words K reading dev (Suc i + n) (Suc i) b (snd (readl K ?a h)) = Some (buf, h')"
      by (auto simp: rw_words.simps [of _ _ _ _ i] Let_def split: prod.splits option.splits)
    show ?thesis
      using Suc.IH [of "Suc i" "d\<lparr>buffer_mem := b\<rparr>"] b True
      by (simp add: run_word(1) [OF b(1)] run_simps)
  next
    case False
    with Suc.prems obtain bs where b: "buf_get (buffer_mem d) (sizeof_uX * i) sizeof_uX = Some bs"
      "rw_words K reading dev (Suc i + n) (Suc i) (buffer_mem d) (writel (u32_bytes bs) ?a h) = Some (buf, h')"
      by (auto simp: rw_words.simps [of _ _ _ _ i] split: option.splits)
    show ?thesis
      using Suc.IH [of "Suc i" d] b False
      by (simp add: run_word(2) [OF b(1)] run_simps)
  qed
qed

lemma run_bytes:
  assumes "rw_bytes K reading dev off (i + n) i (buffer_mem d) h = Some (buf, h')"
  shows "run_state (for_loop i n (card_rw_byte K reading dev off)) (running d h) =
    ((), running (d\<lparr>buffer_mem := buf\<rparr>) h')"
  using assms
proof (induction n arbitrary: i d h)
  case 0
  then show ?case by (auto simp: rw_bytes.simps run_simps)
next
  case (Suc n)
  let ?a = "dev + of_nat (off + i)"
  show ?case
  proof (cases reading)
    case True
    with Suc.prems obtain b where b: "buf_put (buffer_mem d) (off + i) [fst (readb K ?a h)] = Some b"
      "rw_bytes K reading dev off (Suc i + n) (Suc i) b (snd (readb K ?a h)) = Some (buf, h')"
      by (auto simp: rw_bytes.simps [of _ _ _ _ _ i] Let_def split: prod.splits option.splits)
    show ?thesis
      using Suc.IH [of "Suc i" "d\<lparr>buffer_mem := b\<rparr>"] b True
      by (simp add: run_byte(1) [OF b(1)] run_simps)
  next
    case False
    with Suc.prems obtain bs where b: "buf_get (buffer_mem d) (off + i) 1 = Some bs"
      "rw_bytes K reading dev off (Suc i + n) (Suc i) (buffer_mem d) (writeb (hd bs) ?a h) = Some (buf, h')"
      by (auto simp: rw_bytes.simps [of _ _ _ _ _ i] split: option.splits)
    show ?thesis
      using Suc.IH [of "Suc i" d] b False
      by (simp add: run_byte(2) [OF b(1)] run_simps)
  qed
qed


text \<open>The two inner loops of a chunk, and one turn over them.\<close>

definition inner_loops :: "kernel \<Rightarrow> bool \<Rightarrow> ptr \<Rightarrow> nat \<Rightarrow> (aclsoc_dev, unit) prog" where
  "inner_loops K reading dev chunk = do {
     for_loop 0 (chunk div sizeof_uX) (card_rw_word K reading dev);
     for_loop 0 (chunk - chunk div sizeof_uX * sizeof_uX)
       (card_rw_byte K reading dev (chunk div sizeof_uX * sizeof_uX))
   }"

lemma run_inner:
  assumes "rw_words K reading dev (c div sizeof_uX) 0 (buffer_mem d) h = Some (b1, h1)"
    "rw_bytes K reading dev (c div sizeof_uX * sizeof_uX) (c - c div sizeof_uX * sizeof_uX) 0 b1 h1 =
       Some (b2, h2)"
  shows "run_state (inner_loops K reading dev c) (running d h) = ((), running (d\<lparr>buffer_mem := b2\<rparr>) h2)"
  using run_words [of K reading dev 0 "c div sizeof_uX" d h b1 h1] assms
    run_bytes [of K reading dev "c div sizeof_uX * sizeof_uX" 0 "c - c div sizeof_uX * sizeof_uX"
      "d\<lparr>buffer_mem := b1\<rparr>" h1 b2 h2]
  by (simp add: inner_loops_def run_simps)

definition advance :: "u32 \<Rightarrow> rw_locals \<Rightarrow> rw_locals" where
  "advance chunk v =
     v\<lparr>loc_dev := loc_dev v + chunk, loc_user := loc_user v + chunk, loc_left := loc_left v - chunk\<rparr>"

lemma card_rw_turn_eq:
  "card_rw_turn K reading v = do {
     fetched \<leftarrow> card_fetch K reading (loc_user v) (unat (chunk_size (loc_left v)));
     if \<not> fetched then State_Monad.return (v\<lparr>loc_ret := Some (- EFAULT)\<rparr>)
     else do {
       inner_loops K reading (loc_dev v) (unat (chunk_size (loc_left v)));
       delivered \<leftarrow> card_deliver K reading (loc_user v) (unat (chunk_size (loc_left v)));
       if \<not> delivered then State_Monad.return (v\<lparr>loc_ret := Some (- EFAULT)\<rparr>)
       else State_Monad.return (advance (chunk_size (loc_left v)) v)
     }
   }"
  unfolding card_rw_turn_def inner_loops_def advance_def Let_def chunk_size_def [symmetric]
    State_Monad.bind_assoc ..

lemma run_turn:
  assumes "rw_chunk K reading (loc_dev v) (loc_user v) (chunk_size (loc_left v)) (buffer_mem d) h = Some (res, buf, h')"
  shows "run_state (card_rw_turn K reading v) (running d h) =
    (if res \<noteq> 0 then v\<lparr>loc_ret := Some res\<rparr> else advance (chunk_size (loc_left v)) v,
     running (d\<lparr>buffer_mem := buf\<rparr>) h')"
proof -
  let ?c = "chunk_size (loc_left v)"
  let ?n = "unat ?c div sizeof_uX"
  show ?thesis
  proof (cases reading)
    case True
    with assms obtain b1 h1 where w: "rw_words K True (loc_dev v) ?n 0 (buffer_mem d) h = Some (b1, h1)"
      by (auto simp: rw_chunk_def bind_Some_iff Let_def)
    with assms True obtain b2 h2 where
      b: "rw_bytes K True (loc_dev v) (?n * sizeof_uX) (unat ?c - ?n * sizeof_uX) 0 b1 h1 = Some (b2, h2)"
      by (auto simp: rw_chunk_def bind_Some_iff Let_def)
    with assms True w obtain bs where g: "buf_get b2 0 (unat ?c) = Some bs"
      by (auto simp: rw_chunk_def bind_Some_iff Let_def)
    obtain left h3 where cp: "copy_to_user K (loc_user v) bs h2 = (left, h3)" by force
    then have "res = (if left \<noteq> 0 then - EFAULT else 0)" "buf = b2" "h' = h3"
      using assms w b g True by (simp_all add: rw_chunk_def)
    then show ?thesis
      using run_inner [OF w b] run_buf_load [of "d\<lparr>buffer_mem := b2\<rparr>"] g cp True
      by (simp add: card_rw_turn_eq card_fetch_def card_deliver_def run_simps hw_consts del: buf_get_Some)
  next
    case False
    with assms obtain old where g: "buf_get (buffer_mem d) 0 (unat ?c) = Some old"
      by (auto simp: rw_chunk_def bind_Some_iff)
    obtain left new h1 where cp: "copy_from_user K (loc_user v) old h = (left, new, h1)"
      by (rule prod_cases3)
    with assms False g obtain b0 where p: "buf_put (buffer_mem d) 0 new = Some b0"
      by (auto simp: rw_chunk_def bind_Some_iff)
    have fetch: "run_state (card_fetch K reading (loc_user v) (unat ?c)) (running d h) =
        (left = 0, running (d\<lparr>buffer_mem := b0\<rparr>) h1)"
      using g cp False
      by (simp add: card_fetch_def run_buf_load [OF g] run_buf_store [OF p] run_simps del: buf_get_Some)
    show ?thesis
    proof (cases "left = 0")
      case True
      with assms False g cp p obtain b1 h2 where
        w: "rw_words K False (loc_dev v) ?n 0 b0 h1 = Some (b1, h2)"
        by (auto simp: rw_chunk_def bind_Some_iff Let_def)
      with assms False g cp p True have
        b: "rw_bytes K False (loc_dev v) (?n * sizeof_uX) (unat ?c - ?n * sizeof_uX) 0 b1 h2 = Some (buf, h')"
        and r: "res = 0"
        by (auto simp: rw_chunk_def bind_Some_iff Let_def)
      show ?thesis
        using run_inner [of K False "loc_dev v" "unat ?c" "d\<lparr>buffer_mem := b0\<rparr>" h1 b1 h2] w b r fetch False True
        by (simp add: card_rw_turn_eq card_deliver_def run_simps)
    next
      case no: False
      with assms False g cp p have "res = - EFAULT" "buf = b0" "h' = h1"
        by (simp_all add: rw_chunk_def hw_consts)
      with fetch no show ?thesis by (simp add: card_rw_turn_eq run_simps hw_consts)
    qed
  qed
qed

text \<open>The size of the local variables is the number of bytes left; each turn that goes on lowers it.\<close>

instantiation rw_locals_ext :: (type) size
begin

definition size_rw_locals_ext :: "'a rw_locals_scheme \<Rightarrow> nat" where
  "size_rw_locals_ext v = unat (loc_left v)"

instance ..

end

lemma turn_decreases:
  assumes "rw_chunk K reading (loc_dev v) (loc_user v) (chunk_size (loc_left v)) (buffer_mem d) h = Some (res, buf, h')"
    "run_state (card_rw_turn K reading v) (running d h) = (v', s)" "loc_left v > 0" "loc_ret v' = None"
  shows "size v' < size v"
proof -
  have "v' = advance (chunk_size (loc_left v)) v"
    using run_turn [OF assms(1)] assms(2,4) by (auto split: if_split_asm)
  then show ?thesis
    using assms(3)
    by (simp add: size_rw_locals_ext_def advance_def unat_sub_chunk word_less_nat_alt)
qed

lemma run_while:
  assumes "rw_loop K reading dev u n (buffer_mem d) h = Some (r, buf, h')"
  shows "\<exists>v. run_state (while_loop (\<lambda>v. loc_ret v = None \<and> loc_left v > 0) (card_rw_turn K reading)
       \<lparr>loc_ret = None, loc_dev = dev, loc_user = u, loc_left = n\<rparr>) (running d h) =
      (v, running (d\<lparr>buffer_mem := buf\<rparr>) h') \<and>
    r = (case loc_ret v of None \<Rightarrow> 0 | Some r \<Rightarrow> r)"
  using assms
proof (induction K reading dev u n buf\<equiv>"buffer_mem d" h arbitrary: d rule: rw_loop.induct)
  case (1 K reading dev u n h d)
  let ?v = "\<lparr>loc_ret = None, loc_dev = dev, loc_user = u, loc_left = n\<rparr>"
  show ?case
  proof (cases "n > 0")
    case True
    with "1.prems" obtain res b1 h1 where
      c: "rw_chunk K reading dev u (chunk_size n) (buffer_mem d) h = Some (res, b1, h1)"
      by (auto simp: rw_loop.simps [of K reading dev u n] split: option.splits)
    have turn: "run_state (card_rw_turn K reading ?v) (running d h) =
        (if res \<noteq> 0 then ?v\<lparr>loc_ret := Some res\<rparr> else advance (chunk_size n) ?v,
         running (d\<lparr>buffer_mem := b1\<rparr>) h1)"
      using run_turn [of K reading ?v d h res b1 h1] c by simp
    note step = while_loop_step [where body = "card_rw_turn K reading" and v = ?v, OF _ turn]
    show ?thesis
    proof (cases "res = 0")
      case False
      with "1.prems" True c have "r = res" "buf = b1" "h' = h1"
        by (simp_all add: rw_loop.simps [of K reading dev u n])
      with turn True False show ?thesis
        by (intro exI [of _ "?v\<lparr>loc_ret := Some res\<rparr>"] conjI step)
          (simp_all add: while_loop_done)
    next
      case res: True
      have "rw_loop K reading (dev + chunk_size n) (u + chunk_size n) (n - chunk_size n) b1 h1 =
          Some (r, buf, h')"
        using "1.prems" True c res by (simp add: rw_loop.simps [of K reading dev u n])
      with "1.hyps" [OF True c refl, of "d\<lparr>buffer_mem := b1\<rparr>" h1] res obtain v where
        "run_state (while_loop (\<lambda>v. loc_ret v = None \<and> loc_left v > 0) (card_rw_turn K reading)
           (advance (chunk_size n) ?v)) (running (d\<lparr>buffer_mem := b1\<rparr>) h1) =
         (v, running (d\<lparr>buffer_mem := buf\<rparr>) h')" "r = (case loc_ret v of None \<Rightarrow> 0 | Some r \<Rightarrow> r)"
        by (auto simp: advance_def)
      with turn True res show ?thesis
        by (intro exI [of _ v] conjI step) simp_all
    qed
  next
    case False
    with "1.prems" have "r = 0" "buf = buffer_mem d" "h' = h"
      by (simp_all add: rw_loop.simps [of K reading dev u n])
    with False show ?thesis by (intro exI [of _ ?v]) (simp add: while_loop_done)
  qed
qed

lemma run_rw_large:
  assumes "aclsoc_rw_large K dev u n (buffer_mem d) reading h = Some (r, buf, h')"
  shows "run_state (card_rw_large K dev u n reading) (running d h) = (r, running (d\<lparr>buffer_mem := buf\<rparr>) h')"
  using run_while [of K reading dev u n d h r buf h'] assms
  by (auto simp: card_rw_large_def aclsoc_rw_large_def run_simps)

text \<open>A transfer makes at most two calls for each of its bytes.\<close>

lemma rw_words_calls:
  "i \<le> n \<Longrightarrow> rw_words K reading a n i buf h = Some (buf', h') \<Longrightarrow> length h' = length h + (n - i)"
proof (induction K reading a n i buf h rule: rw_words.induct)
  case (1 K reading a n i buf h)
  show ?case
    using "1.prems" "1.IH"
    by (auto simp: rw_words.simps [of K reading a n i] env_simps Let_def split: if_splits option.splits)
qed

lemma rw_bytes_calls:
  "i \<le> n \<Longrightarrow> rw_bytes K reading a off n i buf h = Some (buf', h') \<Longrightarrow> length h' = length h + (n - i)"
proof (induction K reading a off n i buf h rule: rw_bytes.induct)
  case (1 K reading a off n i buf h)
  show ?case
    using "1.prems" "1.IH"
    by (auto simp: rw_bytes.simps [of K reading a off n i] env_simps Let_def split: if_splits option.splits)
qed

lemma rw_chunk_calls:
  assumes "rw_chunk K reading a u c buf h = Some (r, buf', h')"
  shows "length h' \<le> length h + Suc (unat c)"
proof -
  have n: "unat c div sizeof_uX + (unat c - unat c div sizeof_uX * sizeof_uX) \<le> unat c"
    by (simp add: sizeof_uX_def)
  show ?thesis
  proof (cases reading)
    case True
    with assms n show ?thesis
      by (auto simp: rw_chunk_def bind_Some_iff Let_def env_simps
          dest!: rw_words_calls [rotated] rw_bytes_calls [rotated])
  next
    case False
    with assms obtain old left new h1 where f: "buf_get buf 0 (unat c) = Some old"
      "copy_from_user K u old h = (left, new, h1)" by (auto simp: rw_chunk_def bind_Some_iff) (metis prod_cases3)
    then have l: "length h1 = Suc (length h)" using copy_from_user_length by fastforce
    show ?thesis
    proof (cases "left = 0")
      case no: False
      with assms f False have "h' = h1" by (auto simp: rw_chunk_def bind_Some_iff hw_consts)
      with l show ?thesis by simp
    next
      case yes: True
      from assms f False yes obtain b0 b1 h2 where
        w: "rw_words K False a (unat c div sizeof_uX) 0 b0 h1 = Some (b1, h2)"
        "rw_bytes K False a (unat c div sizeof_uX * sizeof_uX)
           (unat c - unat c div sizeof_uX * sizeof_uX) 0 b1 h2 = Some (buf', h')"
        by (auto simp: rw_chunk_def bind_Some_iff Let_def)
      then show ?thesis using rw_words_calls [OF _ w(1)] rw_bytes_calls [OF _ w(2)] l n by simp
    qed
  qed
qed

lemma rw_loop_calls:
  "rw_loop K reading a u n buf h = Some (r, buf', h') \<Longrightarrow> length h' \<le> length h + 2 * unat n"
proof (induction K reading a u n buf h rule: rw_loop.induct)
  case (1 K reading a u n buf h)
  show ?case
  proof (cases "n > 0")
    case True
    with "1.prems" obtain res b1 h1 where
      c: "rw_chunk K reading a u (chunk_size n) buf h = Some (res, b1, h1)"
      by (auto simp: rw_loop.simps [of K reading a u n] split: option.splits)
    have k: "unat (n - chunk_size n) + unat (chunk_size n) = unat n" "0 < unat (chunk_size n)"
      using True by (auto simp: unat_sub_chunk chunk_size_unat word_less_nat_alt)
    have l: "length h1 \<le> length h + 2 * unat (chunk_size n)" using rw_chunk_calls [OF c] k(2) by linarith
    show ?thesis
    proof (cases "res = 0")
      case False
      with "1.prems" True c have "h' = h1" by (simp add: rw_loop.simps [of K reading a u n])
      with l k show ?thesis by simp
    next
      case res: True
      with "1.prems" True c have "rw_loop K reading (a + chunk_size n) (u + chunk_size n)
          (n - chunk_size n) b1 h1 = Some (r, buf', h')"
        by (simp add: rw_loop.simps [of K reading a u n])
      with "1.IH" [OF True c refl refl] res l k show ?thesis by fastforce
    qed
  next
    case False
    with "1.prems" show ?thesis by (simp add: rw_loop.simps [of K reading a u n])
  qed
qed

subsection \<open>The dispatcher\<close>

lemma run_move:
  assumes "rw_move K reading False addr u n d h = Some (r, d', h')"
  shows "run_state
      (if n = 1 \<or> n = 2 \<or> n = 4 then
         (if reading then card_read_small K addr u n else card_write_small K addr u n)
       else card_rw_large K addr u n reading) (running d h) = (r, running d' h')"
proof (cases "n = 1 \<or> n = 2 \<or> n = 4")
  case True
  obtain r1 h1 where "(if reading then aclsoc_read_small K addr u n h else aclsoc_write_small K addr u n h) = (r1, h1)"
    by force
  with assms True show ?thesis
    by (cases reading) (auto simp: rw_move_def run_read_small run_write_small)
next
  case False
  then obtain buf where "aclsoc_rw_large K addr u n (buffer_mem d) reading h = Some (r, buf, h')"
    "d' = d\<lparr>buffer_mem := buf\<rparr>"
    using assms by (auto simp: rw_move_def split: option.splits)
  with False show ?thesis by (simp add: run_rw_large)
qed

text \<open>What is left of the dispatcher after the command has been fetched and routed.\<close>

definition card_request :: "kernel \<Rightarrow> bool \<Rightarrow> acl_cmd \<Rightarrow> (aclsoc_dev, int) prog" where
  "card_request K reading c = do {
     let sz = cmd_size c;
     (addr, errno) \<leftarrow> card_get_checked_addr (bar_id (route_cmd c sz)) (device_addr c) sz;
     if errno \<noteq> 0 then do { exec up; State_Monad.return (- EFAULT) }
     else do {
       result \<leftarrow>
         (if sz = 1 \<or> sz = 2 \<or> sz = 4 then
            (if reading then card_read_small K addr (user_addr c) sz
             else card_write_small K addr (user_addr c) sz)
          else card_rw_large K addr (user_addr c) sz reading);
       exec up;
       State_Monad.return result
     }
   }"

lemma run_request:
  assumes "rw_request K reading c d h = Some (r, d', h')"
  shows "run_state (card_request K reading c) (running d h) = (r, running d' (up h'))"
proof -
  obtain addr errno where a: "request_addr c d = (addr, errno)" by force
  show ?thesis
  proof (cases "errno = 0")
    case True
    with a assms have "rw_move K reading False addr (user_addr c) (cmd_size c) d h = Some (r, d', h')"
      by (simp add: rw_request_eq)
    from run_move [OF this] a True show ?thesis
      by (simp add: card_request_def request_addr_def run_simps Let_def)
  next
    case False
    with a assms show ?thesis
      by (simp add: card_request_def rw_request_eq request_addr_def run_simps Let_def)
  qed
qed

lemma card_rw_eq:
  "card_rw K buf reading = do {
     r \<leftarrow> call (down_interruptible K);
     if r \<noteq> 0 then State_Monad.return (- ERESTARTSYS)
     else do {
       (left, bytes) \<leftarrow> copy_in K buf sizeof_acl_cmd;
       if left \<noteq> 0 then do { exec up; State_Monad.return (- EFAULT) }
       else if bar_id (decode_cmd bytes) = ACLPCI_CMD_BAR then do {
         result \<leftarrow> card_exec_cmd K (decode_cmd bytes) (cmd_size (decode_cmd bytes));
         exec up;
         State_Monad.return result
       } else card_request K reading (decode_cmd bytes)
     }
   }"
proof -
  have bar: "bar_id (route_cmd c n) \<noteq> ACLPCI_DMA_BAR" for c n
    using route_bar [of c n] by (auto simp: hw_consts)
  have skip_bind: "skip \<bind> f = f ()" for f :: "unit \<Rightarrow> (aclsoc_dev, int) prog"
    by (simp add: skip_def)
  show ?thesis
    unfolding card_rw_def card_request_def Let_def route_cmd_def [symmetric] USE_DMA_def
    by (simp add: bar skip_bind split_def cong: if_cong)
qed

text \<open>
  The command that reaches the driver asks for its version. It is the only request on which the
  two copies differ.
\<close>

definition asks_version :: "kernel \<Rightarrow> ptr \<Rightarrow> hist \<Rightarrow> bool" where
  "asks_version K buf h \<longleftrightarrow>
     (let (r, h) = down_interruptible K h;
          (left, bytes, h) = copy_from_user K buf (uninit K sizeof_acl_cmd h) h
      in r = 0 \<and> left = 0 \<and> bar_id (decode_cmd bytes) = ACLPCI_CMD_BAR \<and>
         command (decode_cmd bytes) = ACLPCI_CMD_GET_DRIVER_VERSION)"

lemma run_rw:
  assumes "aclsoc_rw K buf reading d h = Some (r, d', h')" "\<not> asks_version K buf h"
  shows "run_state (card_rw K buf reading) (running d h) = (r, running d' h')"
proof -
  obtain r1 h1 where down: "down_interruptible K h = (r1, h1)" by force
  obtain left bytes h2 where cp: "copy_from_user K buf (uninit K sizeof_acl_cmd h1) h1 = (left, bytes, h2)"
    by (rule prod_cases3)
  consider "r1 \<noteq> 0" | "r1 = 0" "left \<noteq> 0"
    | (cmd) "r1 = 0" "left = 0" "bar_id (decode_cmd bytes) = ACLPCI_CMD_BAR"
    | (req) "r1 = 0" "left = 0" "bar_id (decode_cmd bytes) \<noteq> ACLPCI_CMD_BAR" by blast
  then show ?thesis
  proof cases
    case cmd
    obtain h3 where "aclsoc_exec_cmd K (decode_cmd bytes) (cmd_size (decode_cmd bytes)) d h2 = Some (r, d', h3)"
      "h' = up h3"
      using assms(1) down cp cmd by (auto simp: aclsoc_rw_def Let_def split: option.splits)
    moreover have "command (decode_cmd bytes) \<noteq> ACLPCI_CMD_GET_DRIVER_VERSION"
      using assms(2) down cp cmd by (simp add: asks_version_def)
    ultimately show ?thesis using down cp cmd by (simp add: card_rw_eq run_exec_cmd run_simps)
  next
    case req
    obtain h3 where "rw_request K reading (decode_cmd bytes) d h2 = Some (r, d', h3)" "h' = up h3"
      using assms(1) down cp req by (auto simp: aclsoc_rw_def Let_def split: option.splits)
    then show ?thesis using down cp req by (simp add: card_rw_eq run_request run_simps)
  qed (use assms(1) down cp in \<open>auto simp: aclsoc_rw_def card_rw_eq run_simps Let_def\<close>)
qed

text \<open>Asked for the version, the card's copy answers with its own string and nothing else.\<close>

lemma run_rw_version:
  assumes "asks_version K buf h"
  shows "\<exists>h2 p left. run_state (card_rw K buf reading) (running d h) =
    (sint left, running d (Up # Copy_to_user p (c_string CARD_DRIVER_VERSION) left # h2)) \<and>
    aclsoc_rw K buf reading d h =
    (let left' = ans_copy_to_user K h2 p (c_string ACL_DRIVER_VERSION)
     in Some (sint left', d, Up # Copy_to_user p (c_string ACL_DRIVER_VERSION) left' # h2))"
proof -
  obtain r1 h1 where down: "down_interruptible K h = (r1, h1)" by force
  obtain left bytes h2 where cp: "copy_from_user K buf (uninit K sizeof_acl_cmd h1) h1 = (left, bytes, h2)"
    by (rule prod_cases3)
  let ?c = "decode_cmd bytes"
  have c: "r1 = 0" "left = 0" "bar_id ?c = ACLPCI_CMD_BAR" "command ?c = ACLPCI_CMD_GET_DRIVER_VERSION"
    using assms down cp by (simp_all add: asks_version_def)
  have "aclsoc_exec_cmd K ?c n d h2 =
      (let left' = ans_copy_to_user K h2 (user_addr ?c) (c_string ACL_DRIVER_VERSION)
       in Some (sint left', d, Copy_to_user (user_addr ?c) (c_string ACL_DRIVER_VERSION) left' # h2))" for n
    using c(4) by (simp add: aclsoc_exec_cmd_def hw_consts env_simps Let_def)
  then have "aclsoc_rw K buf reading d h =
      (let left' = ans_copy_to_user K h2 (user_addr ?c) (c_string ACL_DRIVER_VERSION)
       in Some (sint left', d, Up # Copy_to_user (user_addr ?c) (c_string ACL_DRIVER_VERSION) left' # h2))"
    using down cp c by (simp add: aclsoc_rw_def up_def Let_def)
  moreover have "run_state (card_rw K buf reading) (running d h) =
      (let left' = ans_copy_to_user K h2 (user_addr ?c) (c_string CARD_DRIVER_VERSION)
       in (sint left', running d (Up # Copy_to_user (user_addr ?c) (c_string CARD_DRIVER_VERSION) left' # h2)))"
    using down cp c by (simp add: card_rw_eq run_exec_version run_simps up_def Let_def)
  ultimately show ?thesis by (auto simp: Let_def)
qed

text \<open>On a well-formed device every call returns, in both copies, with the same effect.\<close>

lemma card_rw_agrees:
  assumes "dev_wf d" "\<not> asks_version K buf h"
  shows "\<exists>r d' h'. aclsoc_rw K buf reading d h = Some (r, d', h') \<and>
    run_state (card_rw K buf reading) (running d h) = (r, running d' h')"
proof -
  obtain r d' tr where "aclsoc_rw K buf reading d h = Some (r, d', rev tr @ h)"
    using rw_contract [OF assms(1)] by blast
  then show ?thesis using run_rw [OF _ assms(2)] by blast
qed

end
