(* ===== verification/Card_Module.thy ===== *)
theory Card_Module
  imports Card_Rw Acl_Load
begin

section \<open>Loading and unloading the card's driver (aclsoc.c)\<close>

text \<open>
  The module's entry points work on the static variables, a \<^typ>\<open>driver\<close>. A statement on
  \<open>aclsoc->...\<close> goes through the static pointer and is a fault once the object is freed.
\<close>

definition at_dev :: "(aclsoc_dev, 'a) prog \<Rightarrow> (driver, 'a) prog" where
  "at_dev = on_part aclsoc_obj (\<lambda>d drv. drv\<lparr>aclsoc_obj := Some d\<rparr>) zero_dev"

lemma run_at_dev:
  assumes "aclsoc_obj drv = Some d" "run_state m (running d h) = (r, running d' h')"
  shows "run_state (at_dev m) (running drv h) = (r, running (drv\<lparr>aclsoc_obj := Some d'\<rparr>) h')"
  unfolding at_dev_def
  by (rule run_on_part [where get_part = aclsoc_obj and p = d and m = m, OF assms])

lemma driver_same: "aclsoc_obj drv = Some d \<Longrightarrow> drv\<lparr>aclsoc_obj := Some d\<rparr> = drv"
  by (cases drv) simp

lemma driver_swap:
  "drv\<lparr>aclsoc_class := c, aclsoc_obj := x\<rparr> = drv\<lparr>aclsoc_obj := x, aclsoc_class := c\<rparr>"
  "drv\<lparr>aclsoc_obj := x, aclsoc := p\<rparr> = drv\<lparr>aclsoc := p, aclsoc_obj := x\<rparr>"
  by (cases drv; simp)+

subsection \<open>The character device\<close>

text \<open>The labels of the error handling, the last one first: each runs on into the next.\<close>

definition card_init_chrdev :: "kernel \<Rightarrow> (driver, int) prog" where
  "card_init_chrdev K = do {
     let dev_minor = 0;
     let fail_alloc = State_Monad.return (-1);
     let fail_class = (\<lambda>devno. do {
       exec (unregister_chrdev_region devno 1);
       fail_alloc
     });
     let fail_add = (\<lambda>devno. do {
       cls \<leftarrow> fld aclsoc_class;
       exec (class_destroy cls);
       fail_class devno
     });
     let fail_dev_create = (\<lambda>devno. do {
       exec cdev_del;
       fail_add devno
     });
     let devno = -1;
     (result, num) \<leftarrow> call (alloc_chrdev_region K dev_minor 1 BOARD_NAME);
     at_dev (upd (\<lambda>d. d\<lparr>cdev_num := num\<rparr>));
     num \<leftarrow> at_dev (fld cdev_num);
     let dev_major = MAJOR K num;
     if result < 0 then fail_alloc
     else do {
       cls \<leftarrow> call (class_create K DRIVER_NAME);
       upd (\<lambda>drv. drv\<lparr>aclsoc_class := cls\<rparr>);
       if IS_ERR K cls then fail_class devno
       else do {
         let devno = MKDEV K dev_major dev_minor;
         result \<leftarrow> call (cdev_add K devno 1);
         if result \<noteq> 0 then fail_add devno
         else do {
           dev \<leftarrow> call (device_create K cls devno (BOARD_NAME @ ''0''));
           at_dev (upd (\<lambda>d. d\<lparr>device := dev\<rparr>));
           if IS_ERR K dev then fail_dev_create devno else State_Monad.return 0
         }
       }
     }
   }"

text \<open>The statements between the character device and the interrupt.\<close>

definition card_map_regions :: "kernel \<Rightarrow> (aclsoc_dev, unit) prog" where
  "card_map_regions K = do {
     p \<leftarrow> call (ioremap K lwHPS2FPGA_OFFSET lwHPS2FPGA_SIZE);
     upd (\<lambda>d. d\<lparr>mapped_region := (mapped_region d)(2 := p)\<rparr>);
     upd (\<lambda>d. d\<lparr>mapped_region_size := (mapped_region_size d)(2 := lwHPS2FPGA_SIZE)\<rparr>);
     upd (\<lambda>d. d\<lparr>mapped_region := (mapped_region d)(1 := 0)\<rparr>);
     upd (\<lambda>d. d\<lparr>mapped_region_size := (mapped_region_size d)(1 := 0)\<rparr>);
     p \<leftarrow> call (ioremap K HPS2FPGA_OFFSET (2 * HPS2FPGA_SIZE));
     upd (\<lambda>d. d\<lparr>mapped_region := (mapped_region d)(0 := p)\<rparr>);
     upd (\<lambda>d. d\<lparr>mapped_region_size := (mapped_region_size d)(0 := 2 * HPS2FPGA_SIZE)\<rparr>)
   }"

text \<open>\<open>kfree(aclsoc)\<close>: the object is gone, the pointer is not.\<close>

definition free_dev :: "(driver, unit) prog" where
  "free_dev = do {
     p \<leftarrow> fld aclsoc;
     exec (kfree p);
     upd (\<lambda>drv. drv\<lparr>aclsoc_obj := None\<rparr>)
   }"

definition card_probe :: "kernel \<Rightarrow> (driver, int) prog" where
  "card_probe K = do {
     let fail_kzalloc = State_Monad.return (-1);
     let fail_kmalloc = do {
       free_dev;
       fail_kzalloc
     };
     let fail_chrdev_init = do {
       b \<leftarrow> at_dev (fld buffer);
       exec (kfree b);
       fail_kmalloc
     };
     p \<leftarrow> call (kzalloc K (sizeof_aclsoc_dev K));
     upd (\<lambda>drv. drv\<lparr>aclsoc := p, aclsoc_obj := (if p = 0 then None else Some zero_dev)\<rparr>);
     if p = 0 then fail_kzalloc
     else do {
       at_dev (upd (\<lambda>d. d\<lparr>user_pid := -1\<rparr>));
       am \<leftarrow> call (kzalloc K (of_nat (sizeof_addr_map_elem * MAX_ADDR_MAP_ENTRIES)));
       at_dev (upd (\<lambda>d. d\<lparr>addr_map := am,
         addr_map_mem := (if am = 0 then [] else replicate MAX_ADDR_MAP_ENTRIES zero_elem)\<rparr>));
       b \<leftarrow> call (kmalloc K (of_nat BUF_SIZE));
       mem \<leftarrow> call (\<lambda>h. (uninit K BUF_SIZE h, h));
       at_dev (upd (\<lambda>d. d\<lparr>buffer := b, buffer_mem := (if b = 0 then [] else mem)\<rparr>));
       if b = 0 then fail_kmalloc
       else do {
         res \<leftarrow> card_init_chrdev K;
         if res \<noteq> 0 then fail_chrdev_init
         else do {
           at_dev (card_map_regions K);
           at_dev (card_init_irq K False)
         }
       }
     }
   }"

subsection \<open>Remove, init and exit\<close>

definition card_remove :: "(driver, unit) prog" where
  "card_remove = do {
     p \<leftarrow> fld aclsoc;
     if p = 0 then skip
     else do {
       at_dev card_release_irq;
       cls \<leftarrow> fld aclsoc_class;
       num \<leftarrow> at_dev (fld cdev_num);
       exec (device_destroy cls num);
       exec (class_destroy cls);
       exec cdev_del;
       exec (unregister_chrdev_region num 1);
       regions \<leftarrow> at_dev (fld mapped_region);
       exec (iounmap (regions 0));
       exec (iounmap (regions 2));
       b \<leftarrow> at_dev (fld buffer);
       exec (kfree b);
       at_dev card_free_contiguous_memory;
       am \<leftarrow> at_dev (fld addr_map);
       exec (kfree am);
       free_dev;
       upd (\<lambda>drv. drv\<lparr>aclsoc := 0\<rparr>)
     }
   }"

definition card_init :: "kernel \<Rightarrow> (driver, int) prog" where
  "card_init K = do {
     card_probe K;
     State_Monad.return 0
   }"

definition card_exit :: "(driver, unit) prog" where
  "card_exit = card_remove"

subsection \<open>Against the functions\<close>

lemma run_free_dev [run_simps]:
  "run_state free_dev (running drv h) = ((), running (drv\<lparr>aclsoc_obj := None\<rparr>) (kfree (aclsoc drv) h))"
  by (simp add: free_dev_def run_simps)

lemma run_at_dev_upd:
  "aclsoc_obj drv = Some d \<Longrightarrow>
   run_state (at_dev (upd f)) (running drv h) = ((), running (drv\<lparr>aclsoc_obj := Some (f d)\<rparr>) h)"
  "aclsoc_obj drv = Some d \<Longrightarrow> run_state (at_dev (fld e)) (running drv h) = (e d, running drv h)"
  by (simp_all add: run_at_dev [where d = d] run_simps driver_same)

lemma run_init_chrdev:
  assumes "init_chrdev K d (aclsoc_class drv) h = (r, d', cls', h')" "aclsoc_obj drv = Some d"
  shows "run_state (card_init_chrdev K) (running drv h) =
    (r, running (drv\<lparr>aclsoc_obj := Some d', aclsoc_class := cls'\<rparr>) h')"
  using assms
  by (auto simp: card_init_chrdev_def init_chrdev_def Let_def run_simps run_at_dev_upd
      split: if_splits prod.splits) (simp_all add: driver_swap)

lemma run_map_regions:
  assumes "map_regions K d h = (d', h')"
  shows "run_state (card_map_regions K) (running d h) = ((), running d' h')"
  using assms
  by (auto simp: card_map_regions_def map_regions_def Let_def run_simps fun_upd_twist split: prod.splits)

lemma run_at_dev_irq:
  assumes "init_irq K (Some d) h = (r, x, h')" "aclsoc_obj drv = Some d"
  shows "run_state (at_dev (card_init_irq K False)) (running drv h) = (r, running (drv\<lparr>aclsoc_obj := x\<rparr>) h')"
proof -
  from assms(1) obtain d' where "x = Some d'" by (auto simp: init_irq_eq Let_def split: if_splits)
  with run_at_dev [OF assms(2) run_init_irq [of K d h r d' h']] assms(1) show ?thesis by simp
qed

text \<open>The part of the two probes that comes after the allocations.\<close>

definition probe_rest :: "kernel \<Rightarrow> driver \<Rightarrow> aclsoc_dev \<Rightarrow> hist \<Rightarrow> int \<times> driver \<times> hist" where
  "probe_rest K drv d h =
     (let (res, d, cls, h) = init_chrdev K d (aclsoc_class drv) h;
          drv = drv\<lparr>aclsoc_class := cls\<rparr>
      in if res \<noteq> 0 then (-1, drv, kfree (aclsoc drv) (kfree (buffer d) h))
         else
           let (d, h) = map_regions K d h;
               (r, obj, h) = init_irq K (Some d) h
           in (r, drv\<lparr>aclsoc_obj := obj\<rparr>, h))"

definition card_probe_rest :: "kernel \<Rightarrow> (driver, int) prog" where
  "card_probe_rest K = do {
     res \<leftarrow> card_init_chrdev K;
     if res \<noteq> 0 then do {
       b \<leftarrow> at_dev (fld buffer);
       exec (kfree b);
       free_dev;
       State_Monad.return (-1)
     } else do { at_dev (card_map_regions K); at_dev (card_init_irq K False) }
   }"

lemma run_probe_rest:
  assumes "probe_rest K (drv\<lparr>aclsoc_obj := None\<rparr>) d h = (r, drv', h')" "aclsoc_obj drv = Some d"
  shows "run_state (card_probe_rest K) (running drv h) = (r, running drv' h')"
proof -
  obtain res d1 cls h1 where ch: "init_chrdev K d (aclsoc_class drv) h = (res, d1, cls, h1)"
    by (rule prod_cases4)
  obtain d2 h2 where mp: "map_regions K d1 h1 = (d2, h2)" by force
  obtain r1 x h3 where ir: "init_irq K (Some d2) h2 = (r1, x, h3)" by (rule prod_cases3)
  show ?thesis
    using assms(1) run_init_chrdev [OF ch assms(2)]
    by (auto simp: probe_rest_def card_probe_rest_def Let_def ch mp ir run_simps run_at_dev_upd
        run_at_dev [OF _ run_map_regions [OF mp]] run_at_dev_irq [OF ir] driver_swap split: if_splits)
qed

lemma run_probe:
  assumes "aclsoc_probe K drv h = (r, drv', h')"
  shows "run_state (card_probe K) (running drv h) = (r, running drv' h')"
proof -
  obtain p h1 where kz: "kzalloc K (sizeof_aclsoc_dev K) h = (p, h1)" by force
  obtain am h2 where ka: "kzalloc K (of_nat (sizeof_addr_map_elem * MAX_ADDR_MAP_ENTRIES)) h1 = (am, h2)"
    by force
  obtain b h3 where kb: "kmalloc K (of_nat BUF_SIZE) h2 = (b, h3)" by force
  define ams where "ams = (if am = 0 then [] else replicate MAX_ADDR_MAP_ENTRIES zero_elem)"
  define d where "d = zero_dev\<lparr>user_pid := -1, addr_map := am, addr_map_mem := ams, buffer := b,
    buffer_mem := uninit K BUF_SIZE h3\<rparr>"
  let ?drv = "drv\<lparr>aclsoc := p, aclsoc_obj := Some d\<rparr>"
  have start: "run_state (card_probe K) (running drv h) =
      run_state (card_probe_rest K) (running ?drv h3)" if "p \<noteq> 0" "b \<noteq> 0"
    using kz ka kb that
    by (simp add: card_probe_def run_simps Let_def run_at_dev_upd d_def ams_def card_probe_rest_def
        split del: if_split)
  have probe: "aclsoc_probe K drv h = probe_rest K (drv\<lparr>aclsoc := p, aclsoc_obj := None\<rparr>) d h3"
    if "p \<noteq> 0" "b \<noteq> 0"
    using kz ka kb that
    by (simp add: aclsoc_probe_def probe_rest_def Let_def d_def ams_def split del: if_split)
  consider "p = 0" | "p \<noteq> 0" "b = 0" | "p \<noteq> 0" "b \<noteq> 0" by blast
  then show ?thesis
  proof cases
    case 3
    then show ?thesis
      using assms run_probe_rest [of K ?drv d h3 r drv' h'] by (simp add: start probe)
  qed (use assms kz ka kb in \<open>auto simp: card_probe_def aclsoc_probe_def run_simps run_at_dev_upd Let_def\<close>)
qed

lemma run_remove:
  assumes "aclsoc_remove drv h = Some (drv', h')"
  shows "run_state card_remove (running drv h) = ((), running drv' h')"
proof (cases "aclsoc drv = 0")
  case True
  with assms show ?thesis by (simp add: card_remove_def aclsoc_remove_def run_simps)
next
  case False
  with assms obtain d where d: "aclsoc_obj drv = Some d" by (auto simp: aclsoc_remove_def bind_Some_iff)
  let ?h = "kfree (buffer d) (iounmap (mapped_region d 2) (iounmap (mapped_region d 0)
    (unregister_chrdev_region (cdev_num d) 1 (cdev_del (class_destroy (aclsoc_class drv)
      (device_destroy (aclsoc_class drv) (cdev_num d) (release_irq d h)))))))"
  from assms False d obtain d1 h1 where f: "free_contiguous_memory d ?h = Some (d1, h1)"
    "drv' = drv\<lparr>aclsoc := 0, aclsoc_obj := None\<rparr>" "h' = kfree (aclsoc drv) (kfree (addr_map d1) h1)"
    by (auto simp: aclsoc_remove_def Let_def bind_Some_iff)
  show ?thesis
    using False f(2,3)
    by (simp add: card_remove_def run_simps d run_at_dev_upd run_at_dev [OF _ run_release_irq]
        run_at_dev [OF _ run_free_contiguous_memory [OF f(1)]] driver_swap)
qed

subsection \<open>Unloading faults in both copies or in neither\<close>

lemma sticky_card_remove_parts [sticky_intros]:
  "sticky card_mask_irq" "sticky card_release_irq" "sticky (entry i)" "sticky (set_entry i f)"
  "sticky (card_free_map_info i)" "sticky card_free_contiguous_memory" "sticky free_dev"
  by (auto simp: card_mask_irq_def card_get_interrupt_enable_addr_def card_release_irq_def entry_def
      set_entry_def card_free_map_info_def card_free_contiguous_memory_def free_dev_def
      intro!: sticky_intros)

lemma sticky_at_dev [sticky_intros]: "sticky m \<Longrightarrow> sticky (at_dev m)"
  by (simp add: at_dev_def sticky_intros)

lemma at_dev_dangling: "aclsoc_obj drv = None \<Longrightarrow> faulted (snd (run_state (at_dev m) (running drv h)))"
  by (simp add: at_dev_def on_part_def running_def)

lemma at_dev_fault:
  assumes "aclsoc_obj drv = Some d" "faulted (snd (run_state m (running d h)))"
  shows "faulted (snd (run_state (at_dev m) (running drv h)))"
  using assms by (simp add: at_dev_def on_part_def running_def split_def Let_def)

lemma run_entry_fault: "slot d i = None \<Longrightarrow> faulted (snd (run_state (entry i) (running d h)))"
  by (auto simp: entry_def slot_def run_simps fault_def split: if_splits)

lemma free_from_fault:
  assumes "free_from i d h = None" "i + n = MAX_ADDR_MAP_ENTRIES"
  shows "faulted (snd (run_state (for_loop i n card_free_map_info) (running d h)))"
  using assms
proof (induction n arbitrary: i d h)
  case 0
  then show ?case by (simp add: free_from.simps)
next
  case (Suc n)
  have sticky: "sticky (for_loop (Suc i) n card_free_map_info)" by (intro sticky_intros)
  show ?case
  proof (cases "slot d i")
    case None
    have "faulted (snd (run_state (card_free_map_info i) (running d h)))"
      unfolding card_free_map_info_def
      by (rule faulted_bind [OF run_entry_fault [OF None]]) (intro sticky_intros)
    with sticky show ?thesis by (simp add: sticky_def split_def)
  next
    case (Some e)
    obtain e' h1 where f: "free_map_info e h = (e', h1)" by force
    with Suc.prems Some have "free_from (Suc i) (set_slot d i e') h1 = None"
      by (simp add: free_from.simps [of i])
    with Suc.IH [of "Suc i"] Suc.prems(2) show ?thesis
      by (simp add: run_free_map_info [OF Some f])
  qed
qed


definition card_remove_tail :: "(driver, unit) prog" where
  "card_remove_tail = do {
     at_dev card_free_contiguous_memory;
     am \<leftarrow> at_dev (fld addr_map);
     exec (kfree am);
     free_dev;
     upd (\<lambda>drv. drv\<lparr>aclsoc := 0\<rparr>)
   }"

lemma remove_fault:
  assumes "aclsoc_remove drv h = None"
  shows "faulted (snd (run_state card_remove (running drv h)))"
proof -
  have p: "aclsoc drv \<noteq> 0" using assms by (auto simp: aclsoc_remove_def)
  show ?thesis
  proof (cases "aclsoc_obj drv")
    case None
    define rest where "rest = (\<lambda>_ :: unit. do {
       cls \<leftarrow> fld aclsoc_class;
       num \<leftarrow> at_dev (fld cdev_num);
       exec (device_destroy cls num);
       exec (class_destroy cls);
       exec cdev_del;
       exec (unregister_chrdev_region num 1);
       regions \<leftarrow> at_dev (fld mapped_region);
       exec (iounmap (regions 0));
       exec (iounmap (regions 2));
       b \<leftarrow> at_dev (fld buffer);
       exec (kfree b);
       card_remove_tail
     })"
    have "run_state card_remove (running drv h) = run_state (at_dev card_release_irq \<bind> rest) (running drv h)"
      using p by (simp add: card_remove_def rest_def card_remove_tail_def run_simps)
    moreover have "faulted (snd (run_state (at_dev card_release_irq \<bind> rest) (running drv h)))"
      unfolding rest_def card_remove_tail_def
      by (rule faulted_bind [OF at_dev_dangling [OF None]]) (intro sticky_intros)
    ultimately show ?thesis by simp
  next
    case (Some d)
    let ?h = "kfree (buffer d) (iounmap (mapped_region d 2) (iounmap (mapped_region d 0)
      (unregister_chrdev_region (cdev_num d) 1 (cdev_del (class_destroy (aclsoc_class drv)
        (device_destroy (aclsoc_class drv) (cdev_num d) (release_irq d h)))))))"
    have "free_from 0 d ?h = None"
      using assms p Some
      by (cases "free_from 0 d ?h") (auto simp: aclsoc_remove_def free_contiguous_memory_def Let_def)
    then have "faulted (snd (run_state card_free_contiguous_memory (running d ?h)))"
      unfolding card_free_contiguous_memory_def by (rule free_from_fault) simp
    then have "faulted (snd (run_state card_remove_tail (running drv ?h)))"
      unfolding card_remove_tail_def
      by (intro faulted_bind [OF at_dev_fault [OF Some]] sticky_intros)
    moreover have "run_state card_remove (running drv h) = run_state card_remove_tail (running drv ?h)"
      using p Some
      by (simp add: card_remove_def card_remove_tail_def run_simps run_at_dev_upd
          run_at_dev [OF Some run_release_irq] driver_same)
    ultimately show ?thesis by simp
  qed
qed

text \<open>So the whole module runs alike in the two copies, faults included.\<close>

lemma card_exit_agrees:
  "outcome card_exit drv h = map_option (\<lambda>(drv, h). ((), drv, h)) (aclsoc_exit drv h)"
proof (cases "aclsoc_exit drv h")
  case None
  then show ?thesis by (simp add: card_exit_def aclsoc_exit_def outcome_fault remove_fault)
next
  case (Some x)
  then show ?thesis
    by (cases x) (simp add: card_exit_def aclsoc_exit_def outcome_running run_remove)
qed

lemma card_init_agrees: "outcome (card_init K) drv h = Some (aclsoc_init K drv h)"
proof -
  obtain r drv' h' where "aclsoc_probe K drv h = (r, drv', h')" by (rule prod_cases3)
  from this run_probe [OF this] show ?thesis
    by (simp add: card_init_def aclsoc_init_def outcome_def run_simps) (simp add: running_def)
qed

text \<open>The entry points of an open device.\<close>

lemma card_mmap_agrees:
  assumes "dev_wf d"
  shows "outcome (card_mmap K v) d h = map_option (\<lambda>(r, v, d, h). ((r, v), d, h)) (aclsoc_mmap K v d h)"
proof -
  have "aclsoc_mmap K v d h \<noteq> None"
    by (simp add: aclsoc_mmap_eq [OF assms] Let_def split: prod.split)
  then obtain r v' d' h' where "aclsoc_mmap K v d h = Some (r, v', d', h')" by auto
  with run_mmap [OF assms this] show ?thesis by (simp add: outcome_running)
qed

lemma card_open_agrees: "outcome (card_open K pid cur) d h = Some (aclsoc_open K pid cur d h)"
  by (cases "aclsoc_open K pid cur d h") (simp add: outcome_running run_open)

lemma card_close_agrees: "outcome (card_close K) d h = Some (aclsoc_close K d h)"
  by (cases "aclsoc_close K d h") (simp add: outcome_running run_close)

lemma card_irq_agrees:
  "\<exists>r d' h'. aclsoc_irq K (Some d) h = (r, Some d', h') \<and> outcome (card_irq K False) d h = Some (r, d', h')"
proof -
  obtain r x h' where i: "aclsoc_irq K (Some d) h = (r, x, h')" by (rule prod_cases3)
  then obtain d' where "x = Some d'" using aclsoc_irq_dev [OF i] by auto
  with i run_irq [of K d h r d' h'] show ?thesis by (simp add: outcome_running)
qed

end
