(* ===== verification/Card_System.thy ===== *)
theory Card_System
  imports Card_Module Acl_System
begin

section \<open>The installed driver as a state machine\<close>

text \<open>
  The entry points of the card's driver in any order, as in \<^theory_text>\<open>Acl_System\<close>, with what each
  program shows to the kernel. Every step is a step of that theory up to the version string, so
  the invariant holds of every state the installed driver reaches, and no entry point faults.
\<close>

inductive card_step :: "kernel \<Rightarrow> sys \<Rightarrow> sys \<Rightarrow> bool" for K where
  card_open_step: "outcome (card_open K pid cur) (sdev s) (shist s) = Some (r, d, h) \<Longrightarrow>
    card_step K s (s\<lparr>sdev := d, shist := h\<rparr>)"
| card_close_step: "outcome (card_close K) (sdev s) (shist s) = Some (r, d, h) \<Longrightarrow>
    card_step K s (s\<lparr>sdev := d, shist := h\<rparr>)"
| card_read_step: "outcome (card_read K buf) (sdev s) (shist s) = Some (r, d, h) \<Longrightarrow>
    card_step K s (s\<lparr>sdev := d, shist := h\<rparr>)"
| card_write_step: "outcome (card_write K buf) (sdev s) (shist s) = Some (r, d, h) \<Longrightarrow>
    card_step K s (s\<lparr>sdev := d, shist := h\<rparr>)"
| card_mmap_step: "outcome (card_mmap K v) (sdev s) (shist s) = Some ((r, v'), d, h) \<Longrightarrow>
    vma_start v \<noteq> 0 \<Longrightarrow> length (maps s) < MAX_MAPS \<Longrightarrow>
    card_step K s \<lparr>sdev = d, shist = h, maps = (if r = 0 then v' # maps s else maps s)\<rparr>"
| card_vma_open_step: "v \<in> set (maps s) \<Longrightarrow> vma_private v' = vma_private v \<Longrightarrow>
    outcome (card_vma_open K v') (sdev s) (shist s) = Some (u, d, h) \<Longrightarrow> length (maps s) < MAX_MAPS \<Longrightarrow>
    card_step K s \<lparr>sdev = d, shist = h, maps = v' # maps s\<rparr>"
| card_vma_close_step: "v \<in> set (maps s) \<Longrightarrow>
    outcome (card_vma_close K v) (sdev s) (shist s) = Some (u, d, h) \<Longrightarrow>
    card_step K s \<lparr>sdev = d, shist = h, maps = remove1 v (maps s)\<rparr>"
| card_irq_step: "outcome (card_irq K False) (sdev s) (shist s) = Some (r, d, h) \<Longrightarrow>
    card_step K s (s\<lparr>sdev := d, shist := h\<rparr>)"

inductive card_reachable :: "kernel \<Rightarrow> sys \<Rightarrow> sys \<Rightarrow> bool" for K where
  card_start: "card_reachable K s s"
| card_more: "card_reachable K s t \<Longrightarrow> card_step K t u \<Longrightarrow> card_reachable K s u"

subsection \<open>Each entry point against the functions\<close>

text \<open>What a copy to the user says is of no matter to the invariant.\<close>

lemma sys_ok_copied:
  "sys_ok R (s\<lparr>sdev := d, shist := Up # Copy_to_user p a l # h\<rparr>) =
   sys_ok R (s\<lparr>sdev := d, shist := Up # Copy_to_user p b k # h\<rparr>)"
  by (simp add: sys_ok_def ledger_ok_def)

lemma card_rw_ok:
  assumes "sys_ok R s" "outcome (card_rw K buf reading) (sdev s) (shist s) = Some (r, d, h)"
  shows "sys_ok R (s\<lparr>sdev := d, shist := h\<rparr>)"
proof -
  have wf: "dev_wf (sdev s)" using assms(1) by (simp add: sys_ok_def)
  have ok: "sys_ok R (s\<lparr>sdev := d', shist := h'\<rparr>)"
    if "aclsoc_rw K buf reading (sdev s) (shist s) = Some (r', d', h')" for r' d' h'
    using rw_contract [OF wf, of K buf reading "shist s"] call_ok [OF assms(1)] that by auto
  show ?thesis
  proof (cases "asks_version K buf (shist s)")
    case False
    with card_rw_agrees [OF wf False, of reading] assms(2) ok show ?thesis by (auto simp: outcome_running)
  next
    case True
    obtain h2 p left where
      c: "run_state (card_rw K buf reading) (running (sdev s) (shist s)) =
        (sint left, running (sdev s) (Up # Copy_to_user p (c_string CARD_DRIVER_VERSION) left # h2))"
      and "aclsoc_rw K buf reading (sdev s) (shist s) =
        (let left' = ans_copy_to_user K h2 p (c_string ACL_DRIVER_VERSION)
         in Some (sint left', sdev s, Up # Copy_to_user p (c_string ACL_DRIVER_VERSION) left' # h2))"
      using run_rw_version [OF True] by blast
    then have "sys_ok R (s\<lparr>sdev := sdev s, shist := Up # Copy_to_user p (c_string ACL_DRIVER_VERSION)
        (ans_copy_to_user K h2 p (c_string ACL_DRIVER_VERSION)) # h2\<rparr>)"
      by (intro ok) (simp add: Let_def)
    then have "sys_ok R (s\<lparr>sdev := sdev s, shist := Up # Copy_to_user p (c_string CARD_DRIVER_VERSION) left # h2\<rparr>)"
      using sys_ok_copied by blast
    then show ?thesis using outcome_running [OF c] assms(2) by auto
  qed
qed

lemma vma_open_private: "vma_private v' = vma_private v \<Longrightarrow> aclsoc_vma_open K v' d = aclsoc_vma_open K v d"
  by (simp add: aclsoc_vma_open_def)

lemma card_vma_open_agrees:
  assumes "sys_ok R s" "v \<in> set (maps s)" "vma_private v' = vma_private v"
  shows "\<exists>d. aclsoc_vma_open K v' (sdev s) = Some d \<and>
    outcome (card_vma_open K v') (sdev s) h = Some ((), d, h)"
proof -
  obtain d where "aclsoc_vma_open K v (sdev s) = Some d" using sys_ok_calls(5) [OF assms(1,2)] by blast
  then have "aclsoc_vma_open K v' (sdev s) = Some d" using vma_open_private [OF assms(3)] by simp
  with outcome_running [OF run_vma_open] show ?thesis by blast
qed

lemma card_vma_close_agrees:
  assumes "sys_ok R s" "v \<in> set (maps s)"
  shows "\<exists>d h. aclsoc_vma_close K v (sdev s) (shist s) = Some (d, h) \<and>
    outcome (card_vma_close K v) (sdev s) (shist s) = Some ((), d, h)"
proof -
  obtain d h where "aclsoc_vma_close K v (sdev s) (shist s) = Some (d, h)"
    using sys_ok_calls(6) [OF assms] by fast
  with outcome_running [OF run_vma_close] show ?thesis by blast
qed

subsection \<open>Every step keeps the invariant\<close>

lemma card_step_ok:
  assumes "kref_ok K" "card_step K s t" "sys_ok R s"
  shows "sys_ok R t"
  using assms(2,3)
proof cases
  case (card_open_step pid cur r d h)
  then show ?thesis
    using step_ok [OF assms(1) open_step assms(3)] by (simp add: card_open_agrees)
next
  case (card_close_step r d h)
  then show ?thesis
    using step_ok [OF assms(1) close_step assms(3)] by (simp add: card_close_agrees)
next
  case (card_read_step buf r d h)
  then show ?thesis using card_rw_ok [OF assms(3)] by (simp add: card_read_def)
next
  case (card_write_step buf r d h)
  then show ?thesis using card_rw_ok [OF assms(3)] by (simp add: card_write_def)
next
  case (card_mmap_step v r v' d h)
  have "dev_wf (sdev s)" using assms(3) by (simp add: sys_ok_def)
  then have "aclsoc_mmap K v (sdev s) (shist s) = Some (r, v', d, h)"
    using card_mmap_step(2) by (auto simp: card_mmap_agrees)
  then show ?thesis using step_ok [OF assms(1) mmap_step assms(3)] card_mmap_step by simp
next
  case (card_vma_open_step v v' u d h)
  with card_vma_open_agrees [OF assms(3) card_vma_open_step(2,3), of K "shist s"]
  have "aclsoc_vma_open K v' (sdev s) = Some d" "h = shist s" by auto
  then show ?thesis
    using step_ok [OF assms(1) vma_open_step assms(3)] card_vma_open_step
    by (cases s) auto
next
  case (card_vma_close_step v u d h)
  with card_vma_close_agrees [OF assms(3) card_vma_close_step(2), of K]
  have "aclsoc_vma_close K v (sdev s) (shist s) = Some (d, h)" by auto
  then show ?thesis
    using step_ok [OF assms(1) vma_close_step assms(3)] card_vma_close_step by simp
next
  case (card_irq_step r d h)
  then have "aclsoc_irq K (Some (sdev s)) (shist s) = (r, Some d, h)"
    using card_irq_agrees [of K "sdev s" "shist s"] by auto
  then show ?thesis using step_ok [OF assms(1) irq_step assms(3)] card_irq_step by simp
qed

lemma card_reachable_ok: "card_reachable K s t \<Longrightarrow> kref_ok K \<Longrightarrow> sys_ok R s \<Longrightarrow> sys_ok R t"
  by (induction rule: card_reachable.induct) (auto intro: card_step_ok)

subsection \<open>No entry point of the installed driver faults\<close>

lemma card_rw_returns:
  assumes "sys_ok R s"
  shows "outcome (card_rw K buf reading) (sdev s) (shist s) \<noteq> None"
proof (cases "asks_version K buf (shist s)")
  case True
  obtain h2 p left where "run_state (card_rw K buf reading) (running (sdev s) (shist s)) =
      (sint left, running (sdev s) (Up # Copy_to_user p (c_string CARD_DRIVER_VERSION) left # h2))"
    using run_rw_version [OF True] by blast
  from outcome_running [OF this] show ?thesis by simp
next
  case False
  have "dev_wf (sdev s)" using assms by (simp add: sys_ok_def)
  then show ?thesis using card_rw_agrees [OF _ False, of "sdev s" reading] by (auto dest: outcome_running)
qed

lemma card_sys_calls:
  assumes "sys_ok R s"
  shows "outcome (card_read K buf) (sdev s) (shist s) \<noteq> None"
    "outcome (card_write K buf) (sdev s) (shist s) \<noteq> None"
    "outcome (card_mmap K v) (sdev s) (shist s) \<noteq> None"
    "w \<in> set (maps s) \<Longrightarrow> outcome (card_vma_open K w) (sdev s) (shist s) \<noteq> None"
    "w \<in> set (maps s) \<Longrightarrow> outcome (card_vma_close K w) (sdev s) (shist s) \<noteq> None"
proof -
  show "outcome (card_read K buf) (sdev s) (shist s) \<noteq> None"
    "outcome (card_write K buf) (sdev s) (shist s) \<noteq> None"
    using card_rw_returns [OF assms] by (simp_all add: card_read_def card_write_def)
  have "dev_wf (sdev s)" using assms by (simp add: sys_ok_def)
  then show "outcome (card_mmap K v) (sdev s) (shist s) \<noteq> None"
    using sys_ok_calls(3) [OF assms] by (simp add: card_mmap_agrees)
  assume "w \<in> set (maps s)"
  from card_vma_open_agrees [OF assms this refl] card_vma_close_agrees [OF assms this]
  show "outcome (card_vma_open K w) (sdev s) (shist s) \<noteq> None"
    "outcome (card_vma_close K w) (sdev s) (shist s) \<noteq> None"
    by (metis option.distinct(1))+
qed

subsection \<open>From loading to unloading\<close>

lemma card_probe_probe:
  assumes "outcome (card_probe K) drv h = Some (r, drv', h')"
  shows "aclsoc_probe K drv h = (r, drv', h')"
proof -
  obtain r' drv2 h2 where p: "aclsoc_probe K drv h = (r', drv2, h2)" by (rule prod_cases3)
  from outcome_running [OF run_probe [OF p]] assms show ?thesis using p by simp
qed

lemma card_loaded_ok:
  assumes "outcome (card_probe K) unloaded [] = Some (0, drv, h)" "aclsoc_obj drv = Some d" "addr_map d \<noteq> 0"
  shows "sys_ok (mapped_region d) (loaded d h)"
  using fresh_ok [OF probe_fresh [OF card_probe_probe [OF assms(1)] assms(2,3)]] by (simp add: loaded_def)

lemma card_unload:
  assumes "sys_ok R s" "outcome (card_probe K) unloaded [] = Some (0, drv, h)"
  shows "\<exists>drv' h'. outcome card_exit (drv\<lparr>aclsoc_obj := Some (sdev s)\<rparr>) (shist s) = Some ((), drv', h') \<and>
    aclsoc drv' = 0 \<and> dma_live h' = leaked (shist s)"
proof -
  have "aclsoc drv \<noteq> 0" using probe_ok [OF card_probe_probe [OF assms(2)]] by (auto simp: probed_def)
  from remove_ledger [OF assms(1) this] show ?thesis by (auto simp: card_exit_agrees)
qed

end
