(* ===== verification/Acl_Roundtrip.thy ===== *)
theory Acl_Roundtrip
  imports User_Test Acl_Request
begin

section \<open>A write and a read after it\<close>

text \<open>
  What \<open>write()\<close> puts on the board, \<open>read()\<close> brings back: any part of it, in the same call
  history, to any address of the process.
\<close>

text \<open>Two requests of which the second is for a part, from byte \<open>i\<close> on, of what the first wrote.\<close>

definition part_of_request :: "nat \<Rightarrow> acl_cmd \<Rightarrow> acl_cmd \<Rightarrow> bool" where
  "part_of_request i cr cw \<longleftrightarrow>
     rw_target cr = rw_target cw \<and> rw_target cw \<noteq> Refused \<and>
     device_addr cr = device_addr cw + of_nat i \<and> i + unat (cmd_size cr) \<le> unat (cmd_size cw)"

text \<open>Both requests are in the memory of the process.\<close>

definition requests_at :: "mem \<Rightarrow> ptr \<Rightarrow> acl_cmd \<Rightarrow> ptr \<Rightarrow> acl_cmd \<Rightarrow> bool" where
  "requests_at um wbuf cw rbuf cr \<longleftrightarrow>
     load um wbuf sizeof_acl_cmd = encode_cmd cw \<and> load um rbuf sizeof_acl_cmd = encode_cmd cr \<and>
     bar_id cw \<noteq> ACLPCI_CMD_BAR \<and> bar_id cr \<noteq> ACLPCI_CMD_BAR \<and> no_wrap cw \<and> no_wrap cr"

lemma accepted_size:
  assumes "rw_target c \<noteq> Refused"
  shows "unat (cmd_size c) \<le> 0x40000"
  using assms by (auto simp: rw_target_def Let_def split: if_split_asm)

lemma region_of_keeps: "keeps d d' \<Longrightarrow> region_of d' t = region_of d t"
  by (simp add: keeps_def region_of_def split: target.split)

lemma write_read_back:
  assumes "dev_wf d" "backed K um dm" "requests_at um wbuf cw rbuf cr" "part_of_request i cr cw"
  shows "\<exists>d1 h1 d2 h2. aclsoc_write K wbuf d [] = Some (0, d1, h1) \<and> user_view um h1 = um \<and> dev_wf d1 \<and>
    aclsoc_read K rbuf d1 h1 = Some (0, d2, h2) \<and> dev_view dm h2 = dev_view dm h1 \<and>
    load (user_view um h2) (user_addr cr) (unat (cmd_size cr)) =
      load um (user_addr cw + of_nat i) (unat (cmd_size cr))"
proof -
  let ?a = "region_of d (rw_target cw) + device_addr cw" and ?n = "unat (cmd_size cr)"
  have mem: "load um wbuf sizeof_acl_cmd = encode_cmd cw" "load um rbuf sizeof_acl_cmd = encode_cmd cr"
    and ok: "bar_id cw \<noteq> ACLPCI_CMD_BAR" "bar_id cr \<noteq> ACLPCI_CMD_BAR" "no_wrap cw" "no_wrap cr"
    using assms(3) by (simp_all add: requests_at_def)
  have t: "rw_target cr = rw_target cw" "rw_target cw \<noteq> Refused"
    and a: "device_addr cr = device_addr cw + of_nat i" and part: "i + ?n \<le> unat (cmd_size cw)"
    using assms(4) by (simp_all add: part_of_request_def)
  have addr: "request_addr c d' = (region_of d' (rw_target c) + device_addr c, 0)"
    if "no_wrap c" "dev_wf d'" "rw_target c \<noteq> Refused" for c d'
    using request_addr_target [OF that(1,2)] that(3) by (simp add: region_of_def split: target.splits)
  obtain d1 h1 where w: "aclsoc_write K wbuf d [] = Some (0, d1, h1)" "keeps d d1" "answered K h1"
    "dev_view dm h1 = store ?a (load um (user_addr cw) (stored_bytes (cmd_size cw))) dm" "user_view um h1 = um"
    using write_call_backed [OF assms(1,2) _ _ ok(1) addr [OF ok(3) assms(1) t(2)], of "[]" wbuf] mem(1)
    by auto
  have wf: "dev_wf d1" using w(2) assms(1) by (simp add: keeps_def)
  have reg: "region_of d1 (rw_target cr) + device_addr cr = ?a + of_nat i"
    using region_of_keeps [OF w(2)] t(1) a by (simp add: add.assoc)
  obtain d2 h2 where r: "aclsoc_read K rbuf d1 h1 = Some (0, d2, h2)" "dev_view dm h2 = dev_view dm h1"
    "user_view um h2 = store (user_addr cr) (load (dev_view dm h1) (?a + of_nat i) ?n) um"
    using aclsoc_read_backed [OF wf assms(2) w(3) _ ok(2) addr [OF ok(4) wf], of rbuf] mem(2) w(5) t reg
    by auto
  have len: "stored_bytes (cmd_size cw) \<le> 2 ^ 31" "i + ?n \<le> stored_bytes (cmd_size cw)"
    using accepted_size [OF t(2)] part by (auto simp: stored_bytes_def)
  have "load (user_view um h2) (user_addr cr) ?n = load (dev_view dm h1) (?a + of_nat i) ?n"
    using load_store [of "load (dev_view dm h1) (?a + of_nat i) ?n" "user_addr cr" um] len r(3) by simp
  also have "\<dots> = load um (user_addr cw + of_nat i) ?n"
    unfolding w(4) by (rule load_store_sub [OF len(2,1)])
  finally show ?thesis using w(1,5) wf r(1,2) by blast
qed

end
