(* ===== verification/Card_Contract.thy ===== *)
theory Card_Contract
  imports Card_System Acl_Exclusion Acl_Roundtrip
begin

section \<open>The contracts of the installed driver\<close>

text \<open>
  The installed entry points keep the contract of \<^theory_text>\<open>Acl_Lock\<close>, version requests included, so
  its lemmas hold of them and their calls exclude one another too. On memory that keeps what is
  stored a request reads and writes as in the other copy.
\<close>

subsection \<open>The semaphore\<close>

text \<open>Another copy to the user in the place of the last one leaves a locked section locked.\<close>

lemma locked_swap:
  assumes "Up # Copy_to_user p bs l # h2 = rev tr @ h" "locked_section tr"
  shows "\<exists>tr'. Up # Copy_to_user p bs' l' # h2 = rev tr' @ h \<and> locked_section tr'"
proof -
  consider q where "tr = [Down q]" | body where "tr = Down 0 # body @ [Up]" "\<forall>e \<in> set body. plain_call e"
    using assms(2) unfolding locked_section_def by blast
  then show ?thesis
  proof cases
    case 1
    with assms(1) show ?thesis by simp
  next
    case (2 body)
    then have h: "Copy_to_user p bs l # h2 = rev body @ Down 0 # h" using assms(1) by simp
    then obtain body' where body: "body = body' @ [Copy_to_user p bs l]" by (cases body rule: rev_cases) auto
    have "locked_section (Down 0 # (body' @ [Copy_to_user p bs' l']) @ [Up])"
      by (rule locked_body) (use 2(2) body in auto)
    moreover have "Up # Copy_to_user p bs' l' # h2 = rev (Down 0 # (body' @ [Copy_to_user p bs' l']) @ [Up]) @ h"
      using h body by simp
    ultimately show ?thesis by blast
  qed
qed

lemma card_rw_contract:
  assumes "dev_wf d"
  shows "\<exists>r d' tr. outcome (card_rw K buf reading) d h = Some (r, d', rev tr @ h) \<and> keeps d d' \<and> locked_section tr"
proof -
  obtain r d' tr where a: "aclsoc_rw K buf reading d h = Some (r, d', rev tr @ h)" "keeps d d'" "locked_section tr"
    using rw_contract [OF assms] by blast
  show ?thesis
  proof (cases "asks_version K buf h")
    case False
    with card_rw_agrees [OF assms False, of reading] a show ?thesis by (auto dest: outcome_running)
  next
    case True
    obtain h2 p left where c: "run_state (card_rw K buf reading) (running d h) =
        (sint left, running d (Up # Copy_to_user p (c_string CARD_DRIVER_VERSION) left # h2))"
      and "aclsoc_rw K buf reading d h =
        (let left' = ans_copy_to_user K h2 p (c_string ACL_DRIVER_VERSION)
         in Some (sint left', d, Up # Copy_to_user p (c_string ACL_DRIVER_VERSION) left' # h2))"
      using run_rw_version [OF True] by blast
    with a(1) have "Up # Copy_to_user p (c_string ACL_DRIVER_VERSION)
        (ans_copy_to_user K h2 p (c_string ACL_DRIVER_VERSION)) # h2 = rev tr @ h"
      by (simp add: Let_def)
    from locked_swap [OF this a(3)] obtain tr' where
      "Up # Copy_to_user p (c_string CARD_DRIVER_VERSION) left # h2 = rev tr' @ h" "locked_section tr'" by blast
    with outcome_running [OF c] show ?thesis by (intro exI [of _ "sint left"] exI [of _ d] exI [of _ tr']) simp
  qed
qed

interpretation card_rd: guarded_call "\<lambda>K. outcome (card_read K buf)" for buf
  by unfold_locales (simp add: card_read_def card_rw_contract)

interpretation card_wr: guarded_call "\<lambda>K. outcome (card_write K buf)" for buf
  by unfold_locales (simp add: card_write_def card_rw_contract)

interpretation card_opn: guarded_call "\<lambda>K. outcome (card_open K pid cur)" for pid cur
  using open_contract by unfold_locales (simp add: card_open_agrees)

interpretation card_cls: guarded_call "\<lambda>K. outcome (card_close K)"
  using close_contract by unfold_locales (simp add: card_close_agrees)

subsection \<open>Calls of several processes\<close>

inductive card_call_trace :: "kevent list \<Rightarrow> bool" where
  card_read_leaves: "dev_wf d \<Longrightarrow> outcome (card_read K buf) d h = Some (r, d', rev tr @ h) \<Longrightarrow> card_call_trace tr"
| card_write_leaves: "dev_wf d \<Longrightarrow> outcome (card_write K buf) d h = Some (r, d', rev tr @ h) \<Longrightarrow> card_call_trace tr"
| card_open_leaves: "dev_wf d \<Longrightarrow> outcome (card_open K pid cur) d h = Some (r, d', rev tr @ h) \<Longrightarrow> card_call_trace tr"
| card_close_leaves: "dev_wf d \<Longrightarrow> outcome (card_close K) d h = Some (r, d', rev tr @ h) \<Longrightarrow> card_call_trace tr"

inductive card_unlocked_trace :: "kevent list \<Rightarrow> bool" where
  card_irq_leaves: "outcome (card_irq K False) d h = Some (r, d', rev tr @ h) \<Longrightarrow> card_unlocked_trace tr"
| card_mmap_leaves: "dev_wf d \<Longrightarrow> outcome (card_mmap K v) d h = Some ((r, v'), d', rev tr @ h) \<Longrightarrow> card_unlocked_trace tr"
| card_vma_close_leaves: "outcome (card_vma_close K v) d h = Some (u, d', rev tr @ h) \<Longrightarrow> card_unlocked_trace tr"

lemma card_call_trace_section: "card_call_trace tr \<Longrightarrow> locked_section tr"
proof (induction rule: card_call_trace.induct)
  case (card_read_leaves d K buf h r d' tr)
  then show ?case using card_rd.contract [OF card_read_leaves(1), of K buf h] by auto
next
  case (card_write_leaves d K buf h r d' tr)
  then show ?case using card_wr.contract [OF card_write_leaves(1), of K buf h] by auto
next
  case (card_open_leaves d K pid cur h r d' tr)
  then show ?case using card_opn.contract [OF card_open_leaves(1), of K pid cur h] by auto
next
  case (card_close_leaves d K h r d' tr)
  then show ?case using card_cls.contract [OF card_close_leaves(1), of K h] by auto
qed

text \<open>Unmapping runs alike in both copies, faults included.\<close>

lemma sticky_release: "sticky (card_release_mmap_memory i)"
  by (simp add: card_release_mmap_memory_def sticky_intros)

lemma card_vma_close_outcome:
  "outcome (card_vma_close K v) d h = map_option (\<lambda>(d, h). ((), d, h)) (aclsoc_vma_close K v d h)"
proof (cases "aclsoc_vma_close K v d h")
  case (Some x)
  then obtain d' h' where "aclsoc_vma_close K v d h = Some (d', h')" by (cases x) auto
  from outcome_running [OF run_vma_close [OF this]] this show ?thesis by simp
next
  case None
  show ?thesis
  proof (cases "vma_private v")
    case None
    then have "faulted (snd (run_state (info_of v) (running d h)))" by (simp add: info_of_def fault_def)
    then have "faulted (snd (run_state (card_vma_close K v) (running d h)))"
      unfolding card_vma_close_def by (rule faulted_bind) (intro sticky_intros sticky_release)
    with \<open>aclsoc_vma_close K v d h = None\<close> show ?thesis by (simp add: outcome_fault)
  next
    case (Some i)
    with None have "slot d i = None" by (cases "slot d i") (auto simp: aclsoc_vma_close_def Let_def split: prod.splits)
    then have "faulted (snd (run_state (entry i) (running d h)))" by (rule run_entry_fault)
    then have "faulted (snd (run_state (entry i \<bind> (\<lambda>info. do {
        set_entry i (\<lambda>info. info\<lparr>ref := fst (kr_put K (ref info))\<rparr>);
        if snd (kr_put K (ref info)) then card_release_mmap_memory i else skip })) (running d h)))"
      by (rule faulted_bind) (intro sticky_intros sticky_release)
    then have "faulted (snd (run_state (card_vma_close K v) (running d h)))"
      using Some by (simp add: card_vma_close_def info_of_def run_simps)
    with None show ?thesis by (simp add: outcome_fault)
  qed
qed

lemma card_vma_open_outcome:
  "outcome (card_vma_open K v) d h = map_option (\<lambda>d. ((), d, h)) (aclsoc_vma_open K v d)"
proof (cases "aclsoc_vma_open K v d")
  case (Some d')
  then show ?thesis using outcome_running [OF run_vma_open [OF Some]] by simp
next
  case None
  show ?thesis
  proof (cases "vma_private v")
    case None
    then have "faulted (snd (run_state (info_of v) (running d h)))" by (simp add: info_of_def fault_def)
    then have "faulted (snd (run_state (card_vma_open K v) (running d h)))"
      unfolding card_vma_open_def by (rule faulted_bind) (intro sticky_intros)
    with \<open>aclsoc_vma_open K v d = None\<close> show ?thesis by (simp add: outcome_fault)
  next
    case (Some i)
    with None have "slot d i = None" by (cases "slot d i") (auto simp: aclsoc_vma_open_def Let_def)
    then have "faulted (snd (run_state (entry i) (running d h)))" by (rule run_entry_fault)
    then have "faulted (snd (run_state (set_entry i (\<lambda>info. info\<lparr>ref := kr_get K (ref info)\<rparr>)) (running d h)))"
      unfolding set_entry_def by (rule faulted_bind) (intro sticky_intros)
    then have "faulted (snd (run_state (card_vma_open K v) (running d h)))"
      using Some by (simp add: card_vma_open_def info_of_def run_simps)
    with None show ?thesis by (simp add: outcome_fault)
  qed
qed

lemma card_unlocked_is_unlocked: "card_unlocked_trace tr \<Longrightarrow> unlocked_trace tr"
proof (induction rule: card_unlocked_trace.induct)
  case (card_irq_leaves K d h r d' tr)
  then have "aclsoc_irq K (Some d) h = (r, Some d', rev tr @ h)" using card_irq_agrees [of K d h] by auto
  then show ?case by (rule irq_leaves)
next
  case (card_mmap_leaves d K v h r v' d' tr)
  then have "aclsoc_mmap K v d h = Some (r, v', d', rev tr @ h)" by (auto simp: card_mmap_agrees)
  with card_mmap_leaves(1) show ?case by (rule mmap_leaves)
next
  case (card_vma_close_leaves K v d h u d' tr)
  then have "aclsoc_vma_close K v d h = Some (d', rev tr @ h)" by (auto simp: card_vma_close_outcome)
  then show ?case by (rule vma_close_leaves)
qed

lemma card_calls_serial:
  assumes "sem_ok 1 m" "schedule_of card_call_trace card_unlocked_trace C m"
  shows "\<exists>order. distinct order \<and> set order = {i \<in> C. last (trace_of i m) = Up} \<and>
    filter (counts C) m = concat (map (\<lambda>i. map (Pair i) (trace_of i m)) order)"
  by (rule scheduled_calls_serial [OF assms])
    (auto intro: card_call_trace_section dest: card_unlocked_is_unlocked unlocked_trace_free)

subsection \<open>Requests on memory that keeps what is stored\<close>

text \<open>Whether a request asks for the version can be read off the command in memory.\<close>

lemma asks_version_backed:
  assumes "backed K um dm" "load (user_view um h) buf sizeof_acl_cmd = encode_cmd c"
  shows "asks_version K buf h \<longleftrightarrow> bar_id c = ACLPCI_CMD_BAR \<and> command c = ACLPCI_CMD_GET_DRIVER_VERSION"
proof -
  note k = assms(1) [unfolded backed_def, rule_format]
  have v: "user_view um (Down 0 # h) = user_view um h" by (simp add: view_Cons)
  have "fst (snd (copy_from_user K buf (uninit K sizeof_acl_cmd (Down 0 # h)) (Down 0 # h))) = encode_cmd c"
    "fst (copy_from_user K buf (uninit K sizeof_acl_cmd (Down 0 # h)) (Down 0 # h)) = 0"
    using k v assms(2) by (simp_all add: copy_from_user_def load_def Let_def)
  then show ?thesis
    using k by (simp add: asks_version_def down_interruptible_def decode_encode_cmd Let_def split_def)
qed

lemma card_rw_backed:
  assumes "dev_wf d" "backed K um dm" "load (user_view um h) buf sizeof_acl_cmd = encode_cmd c"
    "\<not> (bar_id c = ACLPCI_CMD_BAR \<and> command c = ACLPCI_CMD_GET_DRIVER_VERSION)"
  shows "outcome (card_rw K buf reading) d h = aclsoc_rw K buf reading d h"
proof -
  have "\<not> asks_version K buf h" using asks_version_backed [OF assms(2,3)] assms(4) by simp
  from card_rw_agrees [OF assms(1) this, of reading] show ?thesis by (auto dest: outcome_running)
qed

lemma card_write_read_back:
  assumes "dev_wf d" "backed K um dm" "requests_at um wbuf cw rbuf cr" "part_of_request i cr cw"
  shows "\<exists>d1 h1 d2 h2. outcome (card_write K wbuf) d [] = Some (0, d1, h1) \<and>
    outcome (card_read K rbuf) d1 h1 = Some (0, d2, h2) \<and>
    load (user_view um h2) (user_addr cr) (unat (cmd_size cr)) =
      load um (user_addr cw + of_nat i) (unat (cmd_size cr))"
proof -
  obtain d1 h1 d2 h2 where w: "aclsoc_write K wbuf d [] = Some (0, d1, h1)" "user_view um h1 = um" "dev_wf d1"
    "aclsoc_read K rbuf d1 h1 = Some (0, d2, h2)"
    "load (user_view um h2) (user_addr cr) (unat (cmd_size cr)) =
      load um (user_addr cw + of_nat i) (unat (cmd_size cr))"
    using write_read_back [OF assms] by blast
  have "outcome (card_write K wbuf) d [] = Some (0, d1, h1)"
    using card_rw_backed [OF assms(1,2), of "[]" wbuf cw False] assms(3) w(1)
    by (simp add: requests_at_def card_write_def aclsoc_write_def)
  moreover have "outcome (card_read K rbuf) d1 h1 = Some (0, d2, h2)"
    using card_rw_backed [OF w(3) assms(2), of h1 rbuf cr True] assms(3) w(2,4)
    by (simp add: requests_at_def card_read_def aclsoc_read_def)
  ultimately show ?thesis using w(5) by blast
qed

lemma card_refused_command:
  assumes "arrives K buf h c" "bar_id c = ACLPCI_CMD_BAR" "command c \<notin> set supported_commands"
  shows "outcome (card_rw K buf reading) d h = Some (- EFAULT, d, rev (request_trace buf c []) @ h)"
proof -
  have "\<not> asks_version K buf h"
    using assms(1,3)
    by (auto simp: asks_version_def arrives_def supported_commands_def down_interruptible_def Let_def
        decode_encode_cmd split: prod.splits)
  from outcome_running [OF run_rw [OF refused_command [OF assms] this]] show ?thesis .
qed

end
