(* ===== verification/Card_Platform.thy ===== *)
theory Card_Platform
  imports Card_User Card_Contract
begin

section \<open>The installed tester on the installed driver\<close>

text \<open>
  The machine of \<^theory_text>\<open>User_Machine\<close> with the card's driver in the kernel: the same memory,
  mappings and files, and tables of operations that run the programs of \<^theory_text>\<open>Card_Aclsoc\<close> and
  \<^theory_text>\<open>Card_Fileio\<close>. A program that faults in the kernel has no result; \<open>open()\<close> and
  \<open>close()\<close> never fault. The machine satisfies the same contracts, \<open>memory_board\<close> and
  \<open>register_board\<close>, so what is proved from them holds of the installed driver too.
\<close>

definition card_fileops :: file_operations where
  "card_fileops =
     \<lparr>op_read = (\<lambda>K buf. outcome (card_read K buf)), op_write = (\<lambda>K buf. outcome (card_write K buf)),
      op_open = (\<lambda>K pid current. outcome (card_open K pid current)),
      op_release = (\<lambda>K. outcome (card_close K)),
      op_mmap = (\<lambda>K v d h. map_option (\<lambda>((r, v), d, h). (r, v, d, h)) (outcome (card_mmap K v) d h))\<rparr>"

definition card_vm_ops :: vm_operations where
  "card_vm_ops =
     \<lparr>vm_open = (\<lambda>K v d h. map_option snd (outcome (card_vma_open K v) d h)),
      vm_close = (\<lambda>K v d h. map_option snd (outcome (card_vma_close K v) d h))\<rparr>"

abbreviation card_io where "card_io \<equiv> dev_io card_fileops"
abbreviation card_proc where "card_proc \<equiv> dev_proc card_fileops card_vm_ops"

subsection \<open>Its calls\<close>

lemma card_ops:
  "op_open card_fileops K pid cur d h = op_open aclsoc_fileops K pid cur d h"
  "op_release card_fileops K d h = op_release aclsoc_fileops K d h"
  "dev_wf d \<Longrightarrow> op_mmap card_fileops K v d h = op_mmap aclsoc_fileops K v d h"
  "vm_close card_vm_ops = vm_close aclsoc_vm_ops"
  by (simp_all add: card_fileops_def card_vm_ops_def card_open_agrees card_close_agrees card_mmap_agrees
      card_vma_close_outcome fun_eq_iff option.map_comp comp_def split_def option.map_ident)

lemma card_open_file_eq: "dev_open_file card_fileops = open_file"
  by (intro ext) (simp add: dev_open_file_def card_ops(1) Let_def)

lemma card_close_file_eq: "dev_close_file card_fileops = close_file"
  by (intro ext) (simp add: dev_close_file_def card_ops(2) Let_def)

lemma card_map_file_eq: "dev_wf (mdev m) \<Longrightarrow> dev_map_file card_fileops S fd n off m = map_file S fd n off m"
  by (simp add: dev_map_file_def card_ops(3) Let_def)

lemma card_unmap_eq: "dev_unmap card_vm_ops = unmap"
  by (intro ext) (unfold dev_unmap_def card_ops(4), rule refl)

lemma card_calls_agree:
  assumes "dev_wf (mdev m)" "load (view m) buf sizeof_acl_cmd = encode_cmd c"
    "\<not> (bar_id c = ACLPCI_CMD_BAR \<and> command c = ACLPCI_CMD_GET_DRIVER_VERSION)"
  shows "sys_read (card_io K) fd buf n m = sys_read (driver_io K) fd buf n m"
    "sys_write (card_io K) fd buf n m = sys_write (driver_io K) fd buf n m"
proof -
  have "backed (kernel_of K m) (view m) (bmem m)" unfolding kernel_of_def by (rule backed_ram)
  then have "outcome (card_rw (kernel_of K m) buf b) (mdev m) [] = aclsoc_rw (kernel_of K m) buf b (mdev m) []" for b
    by (rule card_rw_backed [OF assms(1) _ _ assms(3)]) (simp add: assms(2))
  then show "sys_read (card_io K) fd buf n m = sys_read (driver_io K) fd buf n m"
    "sys_write (card_io K) fd buf n m = sys_write (driver_io K) fd buf n m"
    by (simp_all add: dev_io_def card_fileops_def card_read_def card_write_def aclsoc_read_def aclsoc_write_def)
qed

subsection \<open>The installed driver is a board with memory\<close>

interpretation cboard: memory_board "card_io K" fd "board_state fd ps es sh" global_mem
  for K fd ps es sh
proof
  fix w :: machine and p bs
  assume o: "board_state fd ps es sh w"
  then show "board_state fd ps es sh (poke (card_io K) p bs w)"
    "global_mem (poke (card_io K) p bs w) = global_mem w"
    "peek (card_io K) (poke (card_io K) p bs w) = store p bs (peek (card_io K) w)"
    using board.ok_poke [OF o] board.gmem_poke [OF o] board.peek_poke [OF o] by simp_all
next
  fix w :: machine and buf c
  assume o: "board_state fd ps es sh w" and l: "load (peek (card_io K) w) buf sizeof_acl_cmd = encode_cmd c"
    and t: "rw_target c = GlobalMem"
  have wf: "dev_wf (mdev w)" using o by (simp add: board_state_def board_open_def)
  have l': "load (view w) buf sizeof_acl_cmd = encode_cmd c" using l by simp
  note same = card_calls_agree [OF wf l'] target_fits(2) [OF t]
  show "\<exists>w'. sys_read (card_io K) fd buf (of_nat sizeof_acl_cmd) w = Some (0, w') \<and>
      board_state fd ps es sh w' \<and> global_mem w' = global_mem w \<and>
      peek (card_io K) w' = store (user_addr c)
        (load (global_mem w) (device_addr c) (unat (cmd_size c))) (peek (card_io K) w)"
    using board.read_law [OF o _ t, of K buf] l' same by simp
  show "\<exists>w'. sys_write (card_io K) fd buf (of_nat sizeof_acl_cmd) w = Some (0, w') \<and>
      board_state fd ps es sh w' \<and> peek (card_io K) w' = peek (card_io K) w \<and>
      global_mem w' = store (device_addr c)
        (load (peek (card_io K) w) (user_addr c) (stored_bytes (cmd_size c))) (global_mem w)"
    using board.write_law [OF o _ t, of K buf] l' same by simp
qed

interpretation cregs: register_board "card_io K" fd "board_state fd ps es sh" global_mem
  for K fd ps es sh
proof
  fix w :: machine and buf c
  assume o: "board_state fd ps es sh w" and l: "load (peek (card_io K) w) buf sizeof_acl_cmd = encode_cmd c"
    and bar: "bar_id c \<noteq> ACLPCI_CMD_BAR" and t: "rw_target c = Control"
  have wf: "dev_wf (mdev w)" using o by (simp add: board_state_def board_open_def)
  have l': "load (view w) buf sizeof_acl_cmd = encode_cmd c" using l by simp
  show "\<exists>w'. sys_write (card_io K) fd buf (of_nat sizeof_acl_cmd) w = Some (0, w') \<and>
      board_state fd ps es sh w' \<and> peek (card_io K) w' = peek (card_io K) w"
    using regs.reg_law [OF o _ bar t, of K buf] l' card_calls_agree [OF wf l'] bar by simp
qed

subsection \<open>The tester runs through\<close>

lemma card_memory_eq: "fill_bytes (card_io K) = fill_bytes (driver_io K)" "bytes_match (card_io K) = bytes_match (driver_io K)"
proof -
  have "fill_bytes (card_io K) a n w = fill_bytes (driver_io K) a n w" for a n w by (induction n) simp_all
  then show "fill_bytes (card_io K) = fill_bytes (driver_io K)" by (intro ext)
  show "bytes_match (card_io K) = bytes_match (driver_io K)" by (intro ext) (simp add: bytes_match_def)
qed

lemma sys_write_keeps_wf:
  assumes "dev_wf (mdev m)" "sys_write (driver_io K) fd buf n m = Some (r, m')"
  shows "dev_wf (mdev m')"
proof -
  obtain r' d' tr where "aclsoc_rw (kernel_of K m) buf False (mdev m) [] = Some (r', d', rev tr @ [])"
    "keeps (mdev m) d'" using rw_contract [OF assms(1)] by blast
  with assms show ?thesis
    by (auto simp: dev_io_def aclsoc_write_def after_call_def keeps_def split: if_split_asm)
qed

lemma open_mem_file: "mdev (snd (open_file S mem_file m)) = mdev m"
  by (simp add: dev_open_file_def mem_file_def board_file_def Let_def)

lemma test_mmap_installed:
  assumes "board_open f m" "pages m = []" "addr_map_mem (mdev m) = zero_elem # es"
    "mmap_granted S" "test_mmap (board_proc S) fr f m = Some m'"
  shows "test_mmap (card_proc S) fr f m = Some m'"
proof -
  let ?N = "of_nat buffer_size :: u32" and ?io = "driver_io (sy_kernel S)"
  let ?m1 = "poke ?io (phys_at fr) (bytes_u32 0) m"
  have o1: "board_open f ?m1" "pages ?m1 = []" "addr_map_mem (mdev ?m1) = zero_elem # es"
    using assms(1-3) by simp_all
  obtain a p e where m2: "map_file S f ?N 0 ?m1 =
      Some (a, ?m1\<lparr>mdev := (mdev m)\<lparr>addr_map_mem := e # es\<rparr>, pages := [p]\<rparr>)"
    using map_buffer [OF o1 assms(4)] by auto
  have wf: "dev_wf (mdev m)" "dev_wf ((mdev m)\<lparr>addr_map_mem := e # es\<rparr>)"
    using assms(1,3) by (simp_all add: board_open_def dev_wf_def)
  define w1 where "w1 = fill_bytes ?io a buffer_size
    (poke ?io (mem_at fr) (bytes_u32 a) (?m1\<lparr>mdev := (mdev m)\<lparr>addr_map_mem := e # es\<rparr>, pages := [p]\<rparr>))"
  let ?w2 = "poke ?io (mcmd_at fr) (encode_cmd (phys_cmd fr)) w1"
  have w1: "dev_wf (mdev w1)" "length (pages w1) \<le> 1" using wf(2) by (simp_all add: w1_def)
  have c: "load (view ?w2) (mcmd_at fr) sizeof_acl_cmd = encode_cmd (phys_cmd fr)"
    using w1(2) load_store [of "encode_cmd (phys_cmd fr)" "mcmd_at fr" "view w1"]
    by (simp add: view_poke_bytes store_def sizeof_acl_cmd_def)
  from assms(5) m2 have na: "a \<noteq> MAP_FAILED" and ma: "bytes_match ?io a buffer_size w1"
    by (auto simp: test_mmap_def dev_proc_def Let_def w1_def split: if_split_asm)
  from assms(5) m2 obtain r w3 where w3: "sys_write ?io f (mcmd_at fr) (of_nat sizeof_acl_cmd) ?w2 = Some (r, w3)"
    by (auto simp: test_mmap_def dev_proc_def bind_Some_iff Let_def w1_def split: if_split_asm)
  obtain fd w4 where w4: "open_file S mem_file w3 = (fd, w4)" by force
  let ?phys = "u32_bytes (load (view w3) (phys_at fr) 4)"
  from assms(5) m2 w3 w4 obtain q w5 w6 where q: "map_file S fd ?N ?phys w4 = Some (q, w5)" "q \<noteq> MAP_FAILED"
    "bytes_match ?io q buffer_size w5" "unmap S q ?N w5 = Some w6"
    "unmap S a ?N (close_file S fd w6) = Some m'"
    by (auto simp: test_mmap_def dev_proc_def bind_Some_iff Let_def w1_def split: if_split_asm)
  have "dev_wf (mdev w4)"
    using sys_write_keeps_wf [OF _ w3] w1(1) open_mem_file [of S w3] w4 by simp
  then show ?thesis
    using card_map_file_eq [of ?m1 S f ?N 0] wf(1) m2 na ma w3 w4 q
      card_calls_agree(2) [OF _ c, of "sy_kernel S" f "of_nat sizeof_acl_cmd"] w1(1)
      card_map_file_eq [of w4 S fd ?N ?phys]
    by (simp add: test_mmap_def dev_proc_def card_memory_eq card_open_file_eq card_close_file_eq
        card_unmap_eq phys_cmd_def Let_def w1_def [unfolded driver_io_simps, symmetric] hw_consts)
qed

lemma installed_tester_passes:
  assumes "main_env S fr fr' mf" "dev_wf (mdev m)" "pages m = []" "addr_map_mem (mdev m) = zero_elem # es"
  shows "\<exists>m'. passes_tests (card_proc S) fr fr' mf m m' \<and> dev_wf (mdev m') \<and>
    addr_map_mem (mdev m') = addr_map_mem (mdev m) \<and> pages m' = [] \<and>
    shell m' = bridge_commands @ shell m"
proof (rule machine_passes [OF assms])
  let ?f = "sy_open S board_file"
  have g: "mmap_granted S" "mmap_placed S mf ?f" using assms(1) by (simp_all add: main_env_def)
  show "sys_open (card_proc S) = open_file S" "sys_close (card_proc S) = close_file S"
    "run_shell (card_proc S) = shell_command"
    by (simp_all add: dev_proc_def card_open_file_eq card_close_file_eq)
  show "memory_board (base (card_proc S)) ?f (board_state ?f [] es sh) global_mem" for es sh
    by (simp add: dev_proc_def cboard.memory_board_axioms)
  show "\<exists>m'. test_mmap (card_proc S) mf ?f m = Some m' \<and> board_open ?f m' \<and> mdev m' = mdev m \<and>
      pages m' = [] \<and> shell m' = shell m"
    if "board_open ?f m" "pages m = []" "addr_map_mem (mdev m) = zero_elem # es" for m
    using test_mmap_run [OF that g] test_mmap_installed [OF that g(1)] by metis
qed

end
