(* ===== verification/C_Language.thy ===== *)
theory C_Language
  imports Acl_Prelude
begin

section \<open>Headers in C\<close>

text \<open>
  What a header says to the compiler: constant expressions in the types of C (\<^verbatim>\<open>int\<close>,
  \<^verbatim>\<open>unsigned\<close> and \<^verbatim>\<open>long long\<close> with their overflow), macros and the preprocessor with its
  conditional groups, and the layout of structures on the target, 32-bit ARM.
\<close>

subsection \<open>Constant expressions\<close>

text \<open>
  An expression of a macro. \<open>Int_const\<close> is a literal of type \<^verbatim>\<open>int\<close>, or \<^verbatim>\<open>unsigned\<close> when it is
  hexadecimal and does not fit, \<open>Long_long_const\<close> one with the suffix \<^verbatim>\<open>ll\<close>. The two assignments
  have the value that is assigned.
\<close>

datatype mexpr =
    Int_const int
  | Long_long_const int
  | Name string
  | Mul mexpr mexpr
  | Add mexpr mexpr
  | Sub mexpr mexpr
  | Shl mexpr mexpr
  | Shr mexpr mexpr
  | Band mexpr mexpr
  | Bnot mexpr
  | To_unsigned mexpr
  | Or_assign mexpr mexpr
  | And_assign mexpr mexpr

datatype ityp = Int32 | Uint32 | Int64

text \<open>A value has a type. Signed overflow is undefined, unsigned arithmetic wraps.\<close>

definition norm :: "ityp \<Rightarrow> int \<Rightarrow> (ityp \<times> int) option" where
  "norm t n =
     (case t of
        Int32 \<Rightarrow> if - (2 ^ 31) \<le> n \<and> n < 2 ^ 31 then Some (Int32, n) else None
      | Uint32 \<Rightarrow> Some (Uint32, n mod 2 ^ 32)
      | Int64 \<Rightarrow> if - (2 ^ 63) \<le> n \<and> n < 2 ^ 63 then Some (Int64, n) else None)"

definition int_const :: "int \<Rightarrow> (ityp \<times> int) option" where
  "int_const n = (if n < 2 ^ 31 then norm Int32 n else if n < 2 ^ 32 then norm Uint32 n else norm Int64 n)"

text \<open>The usual arithmetic conversions, and the rule that a shift has the type of its left side.\<close>

definition common :: "ityp \<Rightarrow> ityp \<Rightarrow> ityp" where
  "common s t = (if s = Int64 \<or> t = Int64 then Int64 else if s = Uint32 \<or> t = Uint32 then Uint32 else Int32)"

definition converted :: "(int \<Rightarrow> int \<Rightarrow> int) \<Rightarrow> ityp \<times> int \<Rightarrow> ityp \<times> int \<Rightarrow> (ityp \<times> int) option" where
  "converted f a b =
     (let t = common (fst a) (fst b)
      in case (norm t (snd a), norm t (snd b)) of
           (Some (_, m), Some (_, n)) \<Rightarrow> norm t (f m n)
         | _ \<Rightarrow> None)"

definition width :: "ityp \<Rightarrow> int" where
  "width t = (if t = Int64 then 64 else 32)"

definition shift_left :: "ityp \<times> int \<Rightarrow> ityp \<times> int \<Rightarrow> (ityp \<times> int) option" where
  "shift_left a b =
     (if 0 \<le> snd b \<and> snd b < width (fst a) \<and> 0 \<le> snd a then norm (fst a) (snd a * 2 ^ nat (snd b)) else None)"

definition shift_right :: "ityp \<times> int \<Rightarrow> ityp \<times> int \<Rightarrow> (ityp \<times> int) option" where
  "shift_right a b =
     (if 0 \<le> snd b \<and> snd b < width (fst a) then norm (fst a) (snd a div 2 ^ nat (snd b)) else None)"

definition assigned :: "(int \<Rightarrow> int \<Rightarrow> int) \<Rightarrow> ityp \<times> int \<Rightarrow> ityp \<times> int \<Rightarrow> (ityp \<times> int) option" where
  "assigned f a b = (case converted f a b of None \<Rightarrow> None | Some (t, n) \<Rightarrow> norm (fst a) n)"

fun both :: "('a \<Rightarrow> 'a \<Rightarrow> 'a option) \<Rightarrow> 'a option \<Rightarrow> 'a option \<Rightarrow> 'a option" where
  "both f (Some a) (Some b) = f a b"
| "both f _ _ = None"

text \<open>
  The replacement of a macro: an expression, one with parameters, a string, other text, nothing,
  or a statement that only writes to the log, of which no more is kept.
\<close>

datatype macro =
    Object mexpr
  | Function "string list" mexpr
  | String_lit string
  | Text_of string
  | Log_statement
  | Empty

lemma filter_name_shorter:
  "map_of env x = Some m \<Longrightarrow> length (filter (\<lambda>(y, m). y \<noteq> x) env) < length env"
  by (induction env) (auto split: if_splits simp: less_Suc_eq_le)

text \<open>
  The value of an expression. A name is a parameter or a macro; a macro is not replaced again
  inside its own replacement, so the evaluation ends.
\<close>

function meval ::
  "(string \<times> macro) list \<Rightarrow> (string \<times> (ityp \<times> int)) list \<Rightarrow> mexpr \<Rightarrow> (ityp \<times> int) option" where
  "meval env ps (Int_const n) = int_const n"
| "meval env ps (Long_long_const n) = norm Int64 n"
| "meval env ps (Name x) =
     (case map_of ps x of
        Some v \<Rightarrow> Some v
      | None \<Rightarrow>
          (case map_of env x of
             Some (Object e) \<Rightarrow> meval (filter (\<lambda>(y, m). y \<noteq> x) env) [] e
           | _ \<Rightarrow> None))"
| "meval env ps (Mul a b) = both (converted (*)) (meval env ps a) (meval env ps b)"
| "meval env ps (Add a b) = both (converted (+)) (meval env ps a) (meval env ps b)"
| "meval env ps (Sub a b) = both (converted (-)) (meval env ps a) (meval env ps b)"
| "meval env ps (Shl a b) = both shift_left (meval env ps a) (meval env ps b)"
| "meval env ps (Shr a b) = both shift_right (meval env ps a) (meval env ps b)"
| "meval env ps (Band a b) = both (converted (AND)) (meval env ps a) (meval env ps b)"
| "meval env ps (Bnot a) = (case meval env ps a of None \<Rightarrow> None | Some (t, n) \<Rightarrow> norm t (NOT n))"
| "meval env ps (To_unsigned a) = (case meval env ps a of None \<Rightarrow> None | Some (t, n) \<Rightarrow> norm Uint32 n)"
| "meval env ps (Or_assign a b) = both (assigned (OR)) (meval env ps a) (meval env ps b)"
| "meval env ps (And_assign a b) = both (assigned (AND)) (meval env ps a) (meval env ps b)"
  by pat_completeness auto
termination
  by (relation "measures [\<lambda>(env, ps, e). length env, \<lambda>(env, ps, e). size e]")
    (auto dest: filter_name_shorter)

text \<open>The number a macro stands for, and the value of a macro applied to arguments.\<close>

definition macro_value :: "(string \<times> macro) list \<Rightarrow> string \<Rightarrow> (ityp \<times> int) option" where
  "macro_value env x = meval env [] (Name x)"

definition macro_call :: "(string \<times> macro) list \<Rightarrow> string \<Rightarrow> (ityp \<times> int) list \<Rightarrow> (ityp \<times> int) option" where
  "macro_call env f vs =
     (case map_of env f of
        Some (Function ps e) \<Rightarrow>
          if length ps = length vs then meval (filter (\<lambda>(y, m). y \<noteq> f) env) (zip ps vs) e else None
      | _ \<Rightarrow> None)"

subsection \<open>The preprocessor\<close>

datatype directive =
    Define string macro
  | Ifdef string
  | Ifndef string
  | If_nonzero mexpr
  | Else
  | Endif
  | Include string

text \<open>
  The state is the conditions of the open groups, innermost first, and the macros defined so
  far. A name that is not defined counts as 0 in a condition. The headers a file includes are
  given by \<open>file\<close>. The macros of the compiler and of the kernel's headers are no code of the
  repository: they are the environment in which a file is read.
\<close>

definition holds_if :: "(string \<times> macro) list \<Rightarrow> mexpr \<Rightarrow> bool" where
  "holds_if env e \<longleftrightarrow> (case meval env [] e of None \<Rightarrow> False | Some (t, n) \<Rightarrow> n \<noteq> 0)"

fun pp_line :: "directive \<Rightarrow> bool list \<times> (string \<times> macro) list \<Rightarrow> (bool list \<times> (string \<times> macro) list) option" where
  "pp_line (Define x m) (gs, env) = Some (gs, if list_all id gs then (x, m) # env else env)"
| "pp_line (Ifdef x) (gs, env) = Some ((map_of env x \<noteq> None) # gs, env)"
| "pp_line (Ifndef x) (gs, env) = Some ((map_of env x = None) # gs, env)"
| "pp_line (If_nonzero e) (gs, env) = Some (holds_if env e # gs, env)"
| "pp_line Else (g # gs, env) = Some ((\<not> g) # gs, env)"
| "pp_line Endif (g # gs, env) = Some (gs, env)"
| "pp_line (Include f) s = Some s"
| "pp_line d ([], env) = None"

fun pp_lines :: "directive list \<Rightarrow> bool list \<times> (string \<times> macro) list \<Rightarrow> (bool list \<times> (string \<times> macro) list) option" where
  "pp_lines [] s = Some s"
| "pp_lines (d # ds) s = (case pp_line d s of None \<Rightarrow> None | Some s' \<Rightarrow> pp_lines ds s')"

text \<open>A file with the local headers it includes put in their places; these include none themselves.\<close>

definition with_headers :: "(string \<rightharpoonup> directive list) \<Rightarrow> directive list \<Rightarrow> directive list" where
  "with_headers file ds =
     concat (map (\<lambda>d. case d of Include f \<Rightarrow> (case file f of None \<Rightarrow> [] | Some es \<Rightarrow> es) | _ \<Rightarrow> [d]) ds)"

definition preprocess :: "directive list \<Rightarrow> (string \<times> macro) list \<Rightarrow> (string \<times> macro) list option" where
  "preprocess ds env = (case pp_lines ds ([], env) of Some ([], env') \<Rightarrow> Some env' | _ \<Rightarrow> None)"

lemma pp_lines_append:
  "pp_lines (ds @ es) s = (case pp_lines ds s of None \<Rightarrow> None | Some s' \<Rightarrow> pp_lines es s')"
  by (induction ds arbitrary: s) (auto split: option.split)

subsubsection \<open>Runs of definitions\<close>

fun entries :: "directive list \<Rightarrow> (string \<times> macro) list" where
  "entries (Define x m # ds) = (x, m) # entries ds"
| "entries (d # ds) = entries ds"
| "entries [] = []"

fun is_define :: "directive \<Rightarrow> bool" where
  "is_define (Define x m) = True"
| "is_define d = False"

lemma pp_defines:
  "list_all is_define ds \<Longrightarrow>
   pp_lines ds (gs, env) = Some (gs, if list_all id gs then rev (entries ds) @ env else env)"
proof (induction ds arbitrary: env)
  case (Cons d ds)
  then obtain x m where "d = Define x m" by (cases d) auto
  with Cons show ?case by (simp add: id_def)
qed simp

text \<open>A file between its guards, which define a name the first time the file is read.\<close>

definition guarded :: "string \<Rightarrow> directive list \<Rightarrow> directive list" where
  "guarded x ds = [Ifndef x, Define x Empty] @ ds @ [Endif]"

lemma pp_guarded:
  assumes "list_all id gs" "map_of env x = None"
    "pp_lines ds (True # gs, (x, Empty) # env) = Some (True # gs, env')"
  shows "pp_lines (guarded x ds) (gs, env) = Some (gs, env')"
  using assms by (simp add: guarded_def pp_lines_append)

text \<open>Between guards that are defined already nothing is read.\<close>

lemma pp_guarded_again:
  assumes "\<And>gs. \<not> list_all id gs \<Longrightarrow> pp_lines ds (gs, env) = Some (gs, env)"
    "map_of env x \<noteq> None \<or> \<not> list_all id gs"
  shows "pp_lines (guarded x ds) (gs, env) = Some (gs, env)"
  using assms(1) [of "(map_of env x = None) # gs"] assms(2) by (auto simp: guarded_def pp_lines_append)

lemma with_headers_append:
  "with_headers file (ds @ es) = with_headers file ds @ with_headers file es"
  by (simp add: with_headers_def)

lemma with_headers_guarded: "with_headers file (guarded x ds) = guarded x (with_headers file ds)"
  by (simp add: with_headers_def guarded_def)

text \<open>Distinct names are told apart by a number.\<close>

definition key :: "string \<Rightarrow> nat" where
  "key s = fold (\<lambda>c k. 2 * k + of_char c) s 0"

lemma fresh_name: "key x \<notin> set (map (key \<circ> fst) env) \<Longrightarrow> map_of env x = None"
  by (induction env) auto

lemma distinct_names: "distinct (map (key \<circ> fst) env) \<Longrightarrow> distinct (map fst env)"
  by (induction env) (auto simp: image_iff)

lemma entries_append [simp]: "entries (ds @ es) = entries ds @ entries es"
  by (induction ds rule: entries.induct) auto

subsubsection \<open>Macros that stand for a number\<close>

fun literals :: "directive list \<Rightarrow> (string \<times> int) list" where
  "literals (Define x (Object (Int_const n)) # ds) = (x, n) # literals ds"
| "literals (Define x (Object (Long_long_const n)) # ds) = (x, n) # literals ds"
| "literals (d # ds) = literals ds"
| "literals [] = []"

lemma literals_entries:
  "(x, n) \<in> set (literals ds) \<Longrightarrow>
   (x, Object (Int_const n)) \<in> set (entries ds) \<or> (x, Object (Long_long_const n)) \<in> set (entries ds)"
  by (induction ds rule: literals.induct) auto

text \<open>Only the first definition of a name counts, and other names do not disturb it.\<close>

lemma defined_first: "distinct (map fst new) \<Longrightarrow> (x, m) \<in> set new \<Longrightarrow> map_of (new @ env) x = Some m"
  by (simp add: map_add_Some_iff)

lemma other_name: "x \<noteq> y \<Longrightarrow> map_of (filter (\<lambda>(z, m). z \<noteq> x) env) y = map_of env y"
  by (induction env) auto

lemma literal_value:
  assumes "\<And>x m. (x, m) \<in> set (entries ds) \<Longrightarrow> map_of env x = Some m" "(x, n) \<in> set (literals ds)"
    "0 \<le> n" "n < 2 ^ 32"
  shows "map_option snd (macro_value env x) = Some n"
proof -
  obtain e where e: "map_of env x = Some (Object e)" "e = Int_const n \<or> e = Long_long_const n"
    using literals_entries [OF assms(2)] assms(1) by blast
  then show ?thesis using assms(3,4) by (auto simp: macro_value_def int_const_def norm_def)
qed

lemma nested_value:
  assumes "map_of env x = Some (Object e)" "x \<noteq> y" "map_of env y = Some (Object (Int_const n))"
  shows "macro_value env x = meval (filter (\<lambda>(z, m). z \<noteq> x) env) [] e"
    "meval (filter (\<lambda>(z, m). z \<noteq> x) env) [] (Name y) = int_const n"
  using assms other_name [OF assms(2), of env] by (simp_all add: macro_value_def)

subsubsection \<open>Operations on an unsigned word\<close>

lemma norm_word: "norm Uint32 n = Some (Uint32, uint (word_of_int n :: u32))"
  by (simp add: norm_def uint_word_of_int)

lemma one_shifted: "(2 :: int) ^ b < 2147483648 \<longleftrightarrow> b < 31"
  using power_strict_increasing_iff [of "2::int" b 31] by simp

lemma shift_one:
  "shift_left (Int32, 1) (Int32, int b) = (if b < 31 then Some (Int32, 2 ^ b) else None)"
proof -
  have "- 2147483648 \<le> (2 :: int) ^ b" using zero_le_power [of "2 :: int" b] by linarith
  then show ?thesis by (simp add: shift_left_def width_def norm_def one_shifted)
qed

lemma shift_word:
  "shift_right (Uint32, uint w) (Int32, int b) = (if b < 32 then Some (Uint32, uint (drop_bit b w)) else None)"
  for w :: u32
proof -
  have "uint w div 2 ^ b = uint (drop_bit b w)"
    using uint_bounded [of w] by (simp add: unsigned_drop_bit_eq take_bit_int_eq_self flip: drop_bit_eq_div)
  then show ?thesis by (simp add: shift_right_def width_def norm_word)
qed

lemma converted_word:
  fixes w :: u32
  assumes "- (2 ^ 31) \<le> n" "n < 2 ^ 31"
  shows "converted (AND) (Uint32, uint w) (Int32, n) = Some (Uint32, uint (w AND word_of_int n))"
    "converted (OR) (Uint32, uint w) (Int32, n) = Some (Uint32, uint (w OR word_of_int n))"
  by (simp_all add: converted_def common_def norm_word of_int_and_eq of_int_or_eq)

lemma word_assigned:
  fixes w :: u32
  assumes "- (2 ^ 31) \<le> n" "n < 2 ^ 31"
  shows "assigned (AND) (Uint32, uint w) (Int32, n) = Some (Uint32, uint (w AND word_of_int n))"
    "assigned (OR) (Uint32, uint w) (Int32, n) = Some (Uint32, uint (w OR word_of_int n))"
  using converted_word [OF assms] by (simp_all add: assigned_def norm_word)

lemma small_power:
  "b < 31 \<Longrightarrow> - 2147483648 \<le> (2 :: int) ^ b \<and> - 2147483648 < (2 :: int) ^ b \<and> (2 :: int) ^ b < 2147483648"
  using zero_le_power [of "2 :: int" b] one_shifted [of b] by linarith

lemmas macro_steps = macro_call_def int_const_def norm_def [of Int32] shift_one shift_word converted_word word_assigned

subsection \<open>Structures\<close>

text \<open>
  The types of the members. A structure of the kernel, and \<^verbatim>\<open>dma_addr_t\<close>, whose width the kernel
  is configured with, have a size and an alignment given by \<open>K\<close>.
\<close>

datatype ctype =
    Char
  | Signed_int
  | Unsigned_int
  | Unsigned_long
  | Size_t
  | Dev_t
  | U64
  | Pointer
  | Array ctype nat
  | Kernel_type string

type_synonym layout = "string \<Rightarrow> nat \<times> nat"

primrec csize :: "layout \<Rightarrow> ctype \<Rightarrow> nat" where
  "csize K Char = 1"
| "csize K Signed_int = 4"
| "csize K Unsigned_int = 4"
| "csize K Unsigned_long = 4"
| "csize K Size_t = 4"
| "csize K Dev_t = 4"
| "csize K U64 = 8"
| "csize K Pointer = 4"
| "csize K (Array t n) = n * csize K t"
| "csize K (Kernel_type s) = fst (K s)"

primrec calign :: "layout \<Rightarrow> ctype \<Rightarrow> nat" where
  "calign K Char = 1"
| "calign K Signed_int = 4"
| "calign K Unsigned_int = 4"
| "calign K Unsigned_long = 4"
| "calign K Size_t = 4"
| "calign K Dev_t = 4"
| "calign K U64 = 8"
| "calign K Pointer = 4"
| "calign K (Array t n) = calign K t"
| "calign K (Kernel_type s) = snd (K s)"

type_synonym members = "(string \<times> ctype) list"

text \<open>
  A member starts at the next multiple of its alignment; the structure ends at a multiple of the
  largest. \<open>place_members\<close> gives each member its offset and its size, from an offset on.
\<close>

definition pad :: "nat \<Rightarrow> nat \<Rightarrow> nat" where
  "pad a n = (n + a - 1) div a * a"

primrec place_members :: "layout \<Rightarrow> nat \<Rightarrow> members \<Rightarrow> (string \<times> nat \<times> nat) list" where
  "place_members K off [] = []"
| "place_members K off (m # ms) =
     (let o1 = pad (calign K (snd m)) off
      in (fst m, o1, csize K (snd m)) # place_members K (o1 + csize K (snd m)) ms)"

primrec end_of :: "layout \<Rightarrow> nat \<Rightarrow> members \<Rightarrow> nat" where
  "end_of K off [] = off"
| "end_of K off (m # ms) = end_of K (pad (calign K (snd m)) off + csize K (snd m)) ms"

definition struct_align :: "layout \<Rightarrow> members \<Rightarrow> nat" where
  "struct_align K ms = fold max (map (calign K \<circ> snd) ms) 1"

definition sizeof_struct :: "layout \<Rightarrow> members \<Rightarrow> nat" where
  "sizeof_struct K ms = pad (struct_align K ms) (end_of K 0 ms)"

text \<open>The bytes of a member in the bytes of a structure.\<close>

definition member_bytes :: "layout \<Rightarrow> members \<Rightarrow> string \<Rightarrow> 'a list \<Rightarrow> 'a list option" where
  "member_bytes K ms f bs =
     map_option (\<lambda>(off, n). take n (drop off bs)) (map_of (place_members K 0 ms) f)"

subsubsection \<open>Any layout is sound\<close>

definition positive :: "layout \<Rightarrow> members \<Rightarrow> bool" where
  "positive K ms \<longleftrightarrow> list_all (\<lambda>m. 0 < calign K (snd m)) ms"

lemma pad_ge: "0 < a \<Longrightarrow> n \<le> pad a n"
proof -
  assume "0 < a"
  have "n + a - 1 = (n + a - 1) div a * a + (n + a - 1) mod a" by simp
  moreover have "(n + a - 1) mod a \<le> a - 1"
    using mod_less_divisor [OF \<open>0 < a\<close>, of "n + a - 1"] by linarith
  ultimately show ?thesis using \<open>0 < a\<close> unfolding pad_def by linarith
qed

lemma pad_less: "0 < a \<Longrightarrow> pad a n < n + a"
proof -
  assume "0 < a"
  have "(n + a - 1) div a * a \<le> n + a - 1" by (rule div_times_less_eq_dividend)
  with \<open>0 < a\<close> show ?thesis unfolding pad_def by linarith
qed

lemma pad_dvd: "a dvd pad a n"
  by (simp add: pad_def)

lemma end_of_ge: "positive K ms \<Longrightarrow> off \<le> end_of K off ms"
proof (induction ms arbitrary: off)
  case (Cons m ms)
  then have "off \<le> pad (calign K (snd m)) off" by (intro pad_ge) (simp add: positive_def)
  moreover have "pad (calign K (snd m)) off + csize K (snd m) \<le> end_of K (pad (calign K (snd m)) off + csize K (snd m)) ms"
    using Cons by (simp add: positive_def)
  ultimately show ?case by simp
qed simp

lemma place_members_bounds:
  assumes "positive K ms" "(f, o1, n) \<in> set (place_members K off ms)"
  shows "off \<le> o1 \<and> o1 + n \<le> end_of K off ms \<and> (\<exists>t. (f, t) \<in> set ms \<and> n = csize K t \<and> calign K t dvd o1)"
  using assms
proof (induction ms arbitrary: off)
  case (Cons m ms)
  let ?o = "pad (calign K (snd m)) off"
  have p: "positive K ms" "off \<le> ?o" using Cons.prems(1) pad_ge by (simp_all add: positive_def)
  show ?case
  proof (cases "(f, o1, n) = (fst m, ?o, csize K (snd m))")
    case True
    then show ?thesis using p end_of_ge [OF p(1)] pad_dvd by (auto intro!: exI [of _ "snd m"])
  next
    case False
    then have "(f, o1, n) \<in> set (place_members K (?o + csize K (snd m)) ms)"
      using Cons.prems(2) by (auto simp: Let_def)
    from Cons.IH [OF p(1) this] p(2) show ?thesis by auto
  qed
qed simp

lemma place_members_apart:
  "positive K ms \<Longrightarrow> sorted_wrt (\<lambda>(f, a, n) (g, b, m). a + n \<le> b) (place_members K off ms)"
proof (induction ms arbitrary: off)
  case (Cons m ms)
  then have p: "positive K ms" by (simp add: positive_def)
  show ?case
    using Cons.IH [OF p] place_members_bounds [OF p] by (fastforce simp: Let_def)
qed simp

lemma sizeof_end: "positive K ms \<Longrightarrow> end_of K 0 ms \<le> sizeof_struct K ms"
proof -
  have "1 \<le> fold max xs n" if "1 \<le> n" for xs and n :: nat
    using that by (induction xs arbitrary: n) (simp_all add: le_max_iff_disj)
  then have "0 < struct_align K ms" by (simp add: struct_align_def Suc_le_eq)
  then show ?thesis unfolding sizeof_struct_def by (rule pad_ge)
qed

lemma pad_id: "0 < a \<Longrightarrow> a dvd n \<Longrightarrow> pad a n = n"
  using pad_less [of a n] pad_ge [of a n] pad_dvd [of a n]
  by (metis add.commute dvd_add_right_iff dvd_imp_le le_add_diff_inverse less_diff_conv2 linorder_not_less
      nat_less_le zero_less_diff)

text \<open>How to place members one by one.\<close>

lemma pad_to: "a dvd o1 \<Longrightarrow> n \<le> o1 \<Longrightarrow> o1 < n + a \<Longrightarrow> pad a n = o1"
proof -
  assume a: "a dvd o1" "n \<le> o1" "o1 < n + a"
  then obtain k where k: "o1 = k * a" by (metis dvd_div_mult_self)
  have "(n + a - 1) div a = k"
  proof (rule div_nat_eqI)
    show "a * k \<le> n + a - 1" "n + a - 1 < a * Suc k" using a k by (simp_all add: mult.commute)
  qed
  then show ?thesis by (simp add: pad_def k)
qed

lemma place_step:
  "calign K t dvd o1 \<Longrightarrow> off \<le> o1 \<Longrightarrow> o1 < off + calign K t \<Longrightarrow> csize K t = n \<Longrightarrow>
   place_members K (o1 + n) ms = rest \<Longrightarrow> place_members K off ((f, t) # ms) = (f, o1, n) # rest"
  by (simp add: pad_to)

lemma end_step: "place_members K off ms = ps @ [(f, o1, n)] \<Longrightarrow> end_of K off ms = o1 + n"
proof (induction ms arbitrary: off ps)
  case (Cons m ms)
  then show ?case
    by (cases ms; cases ps) (auto simp: Let_def)
qed simp

end
