(* ===== verification/Card_Headers.thy ===== *)
theory Card_Headers
  imports C_Language Acl_Board Acl_Module Card_Cmd
begin

section \<open>The headers on the card\<close>

text \<open>
  The headers of the installed copy as text: \<^verbatim>\<open>hw_pcie_constants.h\<close>,
  \<^verbatim>\<open>pcie_linux_driver_exports.h\<close>, \<^verbatim>\<open>version.h\<close> and \<^verbatim>\<open>aclsoc.h\<close> as lists of preprocessor
  directives and of typed members, line by line. What the compiler makes of them is what the
  other theories use: the constants, the bit macros and the sizes and offsets of the structures.
\<close>

subsection \<open>The files\<close>

text \<open>\<^verbatim>\<open>hw_pcie_constants.h\<close>: the bit macros, identities and addresses, the branch without QSYS, and the registers.\<close>

definition card_bit_macros :: "directive list" where
  "card_bit_macros =
    [Define ''ACL_PCIE_READ_BIT''
     (Function [''w'', ''b''] (Band (Shr (Name ''w'') (Name ''b'')) (Int_const 1))),
     Define ''ACL_PCIE_READ_BIT_RANGE''
     (Function [''w'', ''h'', ''l'']
       (Band (Shr (Name ''w'') (Name ''l''))
         (Sub (Shl (Int_const 1) (Add (Sub (Name ''h'') (Name ''l'')) (Int_const 1))) (Int_const 1)))),
     Define ''ACL_PCIE_SET_BIT''
     (Function [''w'', ''b''] (Or_assign (Name ''w'') (Shl (Int_const 1) (Name ''b'')))),
     Define ''ACL_PCIE_CLEAR_BIT''
     (Function [''w'', ''b''] (And_assign (Name ''w'') (Bnot (Shl (Int_const 1) (Name ''b''))))),
     Define ''ACL_PCIE_GET_BIT''
     (Function [''b''] (To_unsigned (Shl (Int_const 1) (Name ''b''))))]"

definition card_address_map :: "directive list" where
  "card_address_map =
    [Define ''QSYS_IFACE'' (Object (Int_const 1)),
     Define ''ACL_PCI_NUM_BARS'' (Object (Int_const 4)),
     Define ''ACL_PCI_ALTERA_VENDOR_ID'' (Object (Int_const 0x1172)),
     Define ''ACL_C5DK_DEVICE_ID'' (Object (Int_const 0xC500)),
     Define ''ACL_PCI_BSP_DEVICE_ID'' (Object (Name ''ACL_C5DK_DEVICE_ID'')),
     Define ''ACL_PCI_SUBSYSTEM_VENDOR_ID'' (Object (Int_const 0x1172)),
     Define ''ACL_PCI_SUBSYSTEM_DEVICE_ID'' (Object (Int_const 0x0004)),
     Define ''ACL_BOARD_PKG_NAME'' (String_lit ''c5dk''),
     Define ''ACL_VENDOR_NAME'' (String_lit ''Altera Corporation''),
     Define ''ACL_BOARD_NAME'' (String_lit ''Cyclone V SoC Development Kit''),
     Define ''ACL_PCI_GLOBAL_MEM_BAR'' (Object (Int_const 0)),
     Define ''ACL_PCI_CRA_BAR'' (Object (Int_const 0)),
     Define ''ACL_PCI_CRA_OFFSET'' (Object (Int_const 0)),
     Define ''ACL_PCI_CRA_SIZE'' (Object (Int_const 0x4000)),
     Define ''ACL_KERNEL_CSR_BAR'' (Object (Int_const 0)),
     Define ''ACL_KERNEL_CSR_OFFSET'' (Object (Int_const 0x4000)),
     Define ''ACL_PCIE_DMA_BAR'' (Object (Int_const 0)),
     Define ''ACL_PCIE_DMA_OFFSET'' (Object (Int_const 0x0c800)),
     Define ''ACL_PCIE_DMA_DESCRIPTOR_BAR'' (Object (Int_const 0)),
     Define ''ACL_PCIE_DMA_DESCRIPTOR_OFFSET'' (Object (Int_const 0x0c820)),
     Define ''ACL_PCIE_TX_PORT'' (Object (Long_long_const 0x80000000)),
     Define ''ACL_PCIE_MEMWINDOW_BAR'' (Object (Int_const 0)),
     Define ''ACL_PCIE_MEMWINDOW_CRA'' (Object (Int_const 0x0c870)),
     Define ''ACL_PCIE_MEMWINDOW_BASE'' (Object (Int_const 0x10000)),
     Define ''ACL_PCIE_MEMWINDOW_SIZE'' (Object (Int_const 0x10000)),
     Define ''PCIE_CRA_IRQ_STATUS'' (Object (Int_const 0x0040)),
     Define ''PCIE_CRA_IRQ_ENABLE'' (Object (Int_const 0x0050)),
     Define ''PCIE_CRA_ADDR_TRANS'' (Object (Int_const 0x1000)),
     Define ''ACL_PCIE_KERNEL_IRQ_VEC'' (Object (Int_const 0)),
     Define ''ACL_PCIE_DMA_IRQ_VEC'' (Object (Int_const 1)),
     Define ''USE_KERNELPLL_RECONFIG'' (Object (Int_const 0)),
     Define ''ACL_PCIE_KERNELPLL_RECONFIG_BAR'' (Object (Int_const 0)),
     Define ''ACL_PCIE_KERNELPLL_RECONFIG_OFFSET'' (Object (Int_const 0x0c000))]"

definition card_irq_bits :: "directive list" where
  "card_irq_bits =
    [Ifndef ''QSYS_IFACE'',
     Define ''PCIE_CRA_IRQ_RXMIRQ'' (Object (Int_const 7)),
     Define ''PCIE_CRA_AVL_IRQ_VEC_LO'' (Object (Int_const 8)),
     Define ''PCIE_CRA_AVL_IRQ_VEC_HI'' (Object (Int_const 13)),
     Endif]"

definition card_register_bits :: "directive list" where
  "card_register_bits =
    [Define ''DMA_ALIGNMENT_BYTES'' (Object (Int_const 64)),
     Define ''DMA_ALIGNMENT_BYTE_MASK'' (Object (Sub (Name ''DMA_ALIGNMENT_BYTES'') (Int_const 1))),
     Define ''DMA_DC_TRANSFER_COMPLETE_IRQ_MASK'' (Object (Int_const 14)),
     Define ''DMA_DC_EARLY_DONE_ENABLE'' (Object (Int_const 24)),
     Define ''DMA_DC_GO'' (Object (Int_const 31)),
     Define ''DMA_CSR_STATUS'' (Object (Int_const 0x00)),
     Define ''DMA_CSR_CONTROL'' (Object (Int_const 0x04)),
     Define ''DMA_STATUS_BUSY'' (Object (Int_const 0)),
     Define ''DMA_STATUS_DESCRIPTOR_EMPTY'' (Object (Int_const 1)),
     Define ''DMA_STATUS_RESETTING'' (Object (Int_const 6)),
     Define ''DMA_STATUS_IRQ'' (Object (Int_const 9)),
     Define ''DMA_STATUS_COUNT_LO'' (Object (Int_const 16)),
     Define ''DMA_STATUS_COUNT_HI'' (Object (Int_const 31)),
     Define ''DMA_CTRL_STOP'' (Object (Int_const 0)),
     Define ''DMA_CTRL_RESET'' (Object (Int_const 1)),
     Define ''DMA_CTRL_IRQ_ENABLE'' (Object (Int_const 4)),
     Define ''PIO_DATA'' (Object (Mul (Int_const 0) (Int_const 4))),
     Define ''PIO_SET'' (Object (Mul (Int_const 4) (Int_const 4))),
     Define ''PIO_CLR'' (Object (Mul (Int_const 5) (Int_const 4))),
     Define ''ACL_PCIE_HAS_TEMP_SENSOR'' (Object (Int_const 1)),
     Define ''ACL_PCIE_TEMP_SENSOR_ADDRESS'' (Object (Int_const 0xcff0)),
     Define ''ACL_VERSIONID_BAR'' (Object (Int_const 0)),
     Define ''ACL_VERSIONID_OFFSET'' (Object (Int_const 0xcfc0)),
     Define ''ACL_VERSIONID'' (Object (Int_const 0xA0C7C1E0)),
     Define ''ACL_UNIPHYSTATUS_BAR'' (Object (Int_const 0)),
     Define ''ACL_UNIPHYSTATUS_OFFSET'' (Object (Int_const 0xcfe0))]"

text \<open>\<^verbatim>\<open>pcie_linux_driver_exports.h\<close>: the special regions, the command numbers and the signal.\<close>

definition card_commands :: "directive list" where
  "card_commands =
    [Define ''ACLPCI_CMD_BAR'' (Object (Int_const 23)),
     Define ''ACLPCI_DMA_BAR'' (Object (Int_const 25)),
     Define ''ACLPCI_CMD_DEFAULT'' (Object (Int_const 0)),
     Define ''ACLPCI_CMD_SAVE_PCI_CONTROL_REGS'' (Object (Int_const 1)),
     Define ''ACLPCI_CMD_LOAD_PCI_CONTROL_REGS'' (Object (Int_const 2)),
     Define ''ACLPCI_CMD_PIN_USER_ADDR'' (Object (Int_const 3)),
     Define ''ACLPCI_CMD_UNPIN_USER_ADDR'' (Object (Int_const 4)),
     Define ''ACLPCI_CMD_GET_DMA_IDLE_STATUS'' (Object (Int_const 5)),
     Define ''ACLPCI_CMD_DMA_UPDATE'' (Object (Int_const 6)),
     Define ''ACLPCI_CMD_GET_DEVICE_ID'' (Object (Int_const 7)),
     Define ''ACLPCI_CMD_GET_VENDOR_ID'' (Object (Int_const 8)),
     Define ''ACLPCI_CMD_DO_CVP'' (Object (Int_const 9)),
     Define ''ACLPCI_CMD_GET_PCI_GEN'' (Object (Int_const 10)),
     Define ''ACLPCI_CMD_GET_PCI_NUM_LANES'' (Object (Int_const 11)),
     Define ''ACLPCI_CMD_SET_SIGNAL_PAYLOAD'' (Object (Int_const 12)),
     Define ''ACLPCI_CMD_GET_DRIVER_VERSION'' (Object (Int_const 13)),
     Define ''ACLPCI_CMD_ENABLE_KERNEL_IRQ'' (Object (Int_const 14)),
     Define ''ACLPCI_CMD_REPROGRAM_VIA_FPGA_MANAGER'' (Object (Int_const 15)),
     Define ''ACLPCI_CMD_GET_PHYS_PTR_FROM_VIRT'' (Object (Int_const 16)),
     Define ''ACLPCI_CMD_GET_PCI_SLOT_INFO'' (Object (Int_const 17)),
     Define ''ACLPCI_CMD_DMA_STOP'' (Object (Int_const 18)),
     Define ''ACLPCI_CMD_MAX_CMD'' (Object (Int_const 19)),
     Define ''SIG_INT_NOTIFY'' (Object (Int_const 44))]"

definition card_version_h :: "directive list" where
  "card_version_h =
    [Define ''ACL_DRIVER_VERSION'' (String_lit ''14.1.9'')]"

text \<open>\<^verbatim>\<open>aclsoc.h\<close>: the includes, then the switches. The logging macros are statements that only write to the log.\<close>

definition card_includes :: "directive list" where
  "card_includes =
    [Include ''linux/kobject.h'',
     Include ''linux/kdev_t.h'',
     Include ''linux/list.h'',
     Include ''linux/kernel.h'',
     Include ''linux/fs.h'',
     Include ''linux/cdev.h'',
     Include ''linux/platform_device.h'',
     Include ''linux/delay.h'',
     Include ''linux/dma-mapping.h'',
     Include ''linux/delay.h'',
     Include ''linux/init.h'',
     Include ''linux/interrupt.h'',
     Include ''linux/io.h'',
     Include ''linux/jiffies.h'',
     Include ''linux/kref.h'',
     Include ''linux/module.h'',
     Include ''linux/pci.h'',
     Include ''linux/uaccess.h'',
     Include ''linux/sched.h'',
     Include ''linux/slab.h'',
     Include ''hw_pcie_constants.h'',
     Include ''pcie_linux_driver_exports.h'',
     Include ''version.h'']"

definition card_switches :: "directive list" where
  "card_switches =
    [Ifdef ''ACLPCI_BIGENDIAN'',
     Define ''USE_DMA'' (Object (Int_const 0)),
     Else,
     Define ''USE_DMA'' (Object (Int_const 0)),
     Endif,
     Define ''DRIVER_NAME'' (String_lit ''aclsoc''),
     Define ''BOARD_NAME'' (String_lit ''acl''),
     Define ''POLLING'' (Object (Int_const 0)),
     Define ''VERBOSE_DEBUG'' (Object (Int_const 0)),
     Define ''ACL_DEBUG'' Log_statement,
     If_nonzero (Name ''VERBOSE_DEBUG''),
     Define ''ACL_VERBOSE_DEBUG'' (Text_of ''ACL_DEBUG(__VA_ARGS__)''),
     Else,
     Define ''ACL_VERBOSE_DEBUG'' Empty,
     Endif,
     Define ''assert'' Log_statement,
     Define ''MAX_ADDR_MAP_ENTRIES'' (Text_of ''(PAGE_SIZE/sizeof(struct addr_map_elem))'')]"

text \<open>The files, between their guards.\<close>

definition card_hw_constants_h :: "directive list" where
  "card_hw_constants_h =
     guarded ''HW_PCIE_CONSTANTS_H'' (card_bit_macros @ card_address_map @ card_irq_bits @ card_register_bits)"

definition card_exports_h :: "directive list" where
  "card_exports_h = guarded ''PCIE_LINUX_DRIVER_EXPORTS_H'' card_commands"

definition card_aclsoc_h :: "directive list" where
  "card_aclsoc_h = guarded ''ACLPCI_H'' (card_includes @ card_switches)"

subsection \<open>What the compiler sees\<close>

definition card_file :: "string \<rightharpoonup> directive list" where
  "card_file f =
     (if f = ''hw_pcie_constants.h'' then Some card_hw_constants_h
      else if f = ''pcie_linux_driver_exports.h'' then Some card_exports_h
      else if f = ''version.h'' then Some card_version_h
      else None)"

definition card_macros :: "(string \<times> macro) list \<Rightarrow> (string \<times> macro) list option" where
  "card_macros given = preprocess (with_headers card_file card_aclsoc_h) given"

definition card_guards :: "string list" where
  "card_guards = [''ACLPCI_H'', ''HW_PCIE_CONSTANTS_H'', ''PCIE_LINUX_DRIVER_EXPORTS_H'']"

text \<open>
  The constants of the other theories under the names of the headers, in the order of the files.
\<close>

definition address_numbers :: "(string \<times> int) list" where
  "address_numbers =
    [(''QSYS_IFACE'', uint QSYS_IFACE),
     (''ACL_PCI_NUM_BARS'', uint ACL_PCI_NUM_BARS),
     (''ACL_PCI_ALTERA_VENDOR_ID'', uint ACL_PCI_ALTERA_VENDOR_ID),
     (''ACL_C5DK_DEVICE_ID'', uint ACL_C5DK_DEVICE_ID),
     (''ACL_PCI_SUBSYSTEM_VENDOR_ID'', uint ACL_PCI_SUBSYSTEM_VENDOR_ID),
     (''ACL_PCI_SUBSYSTEM_DEVICE_ID'', uint ACL_PCI_SUBSYSTEM_DEVICE_ID),
     (''ACL_PCI_GLOBAL_MEM_BAR'', uint ACL_PCI_GLOBAL_MEM_BAR),
     (''ACL_PCI_CRA_BAR'', uint ACL_PCI_CRA_BAR),
     (''ACL_PCI_CRA_OFFSET'', uint ACL_PCI_CRA_OFFSET),
     (''ACL_PCI_CRA_SIZE'', uint ACL_PCI_CRA_SIZE),
     (''ACL_KERNEL_CSR_BAR'', uint ACL_KERNEL_CSR_BAR),
     (''ACL_KERNEL_CSR_OFFSET'', uint ACL_KERNEL_CSR_OFFSET),
     (''ACL_PCIE_DMA_BAR'', uint ACL_PCIE_DMA_BAR),
     (''ACL_PCIE_DMA_OFFSET'', uint ACL_PCIE_DMA_OFFSET),
     (''ACL_PCIE_DMA_DESCRIPTOR_BAR'', uint ACL_PCIE_DMA_DESCRIPTOR_BAR),
     (''ACL_PCIE_DMA_DESCRIPTOR_OFFSET'', uint ACL_PCIE_DMA_DESCRIPTOR_OFFSET),
     (''ACL_PCIE_TX_PORT'', uint ACL_PCIE_TX_PORT),
     (''ACL_PCIE_MEMWINDOW_BAR'', uint ACL_PCIE_MEMWINDOW_BAR),
     (''ACL_PCIE_MEMWINDOW_CRA'', uint ACL_PCIE_MEMWINDOW_CRA),
     (''ACL_PCIE_MEMWINDOW_BASE'', uint ACL_PCIE_MEMWINDOW_BASE),
     (''ACL_PCIE_MEMWINDOW_SIZE'', uint ACL_PCIE_MEMWINDOW_SIZE),
     (''PCIE_CRA_IRQ_STATUS'', uint PCIE_CRA_IRQ_STATUS),
     (''PCIE_CRA_IRQ_ENABLE'', uint PCIE_CRA_IRQ_ENABLE),
     (''PCIE_CRA_ADDR_TRANS'', uint PCIE_CRA_ADDR_TRANS),
     (''ACL_PCIE_KERNEL_IRQ_VEC'', uint ACL_PCIE_KERNEL_IRQ_VEC),
     (''ACL_PCIE_DMA_IRQ_VEC'', uint ACL_PCIE_DMA_IRQ_VEC),
     (''USE_KERNELPLL_RECONFIG'', uint USE_KERNELPLL_RECONFIG),
     (''ACL_PCIE_KERNELPLL_RECONFIG_BAR'', uint ACL_PCIE_KERNELPLL_RECONFIG_BAR),
     (''ACL_PCIE_KERNELPLL_RECONFIG_OFFSET'', uint ACL_PCIE_KERNELPLL_RECONFIG_OFFSET)]"

definition register_numbers :: "(string \<times> int) list" where
  "register_numbers =
    [(''DMA_ALIGNMENT_BYTES'', uint DMA_ALIGNMENT_BYTES),
     (''DMA_DC_TRANSFER_COMPLETE_IRQ_MASK'', int DMA_DC_TRANSFER_COMPLETE_IRQ_MASK),
     (''DMA_DC_EARLY_DONE_ENABLE'', int DMA_DC_EARLY_DONE_ENABLE),
     (''DMA_DC_GO'', int DMA_DC_GO),
     (''DMA_CSR_STATUS'', uint DMA_CSR_STATUS),
     (''DMA_CSR_CONTROL'', uint DMA_CSR_CONTROL),
     (''DMA_STATUS_BUSY'', int DMA_STATUS_BUSY),
     (''DMA_STATUS_DESCRIPTOR_EMPTY'', int DMA_STATUS_DESCRIPTOR_EMPTY),
     (''DMA_STATUS_RESETTING'', int DMA_STATUS_RESETTING),
     (''DMA_STATUS_IRQ'', int DMA_STATUS_IRQ),
     (''DMA_STATUS_COUNT_LO'', int DMA_STATUS_COUNT_LO),
     (''DMA_STATUS_COUNT_HI'', int DMA_STATUS_COUNT_HI),
     (''DMA_CTRL_STOP'', int DMA_CTRL_STOP),
     (''DMA_CTRL_RESET'', int DMA_CTRL_RESET),
     (''DMA_CTRL_IRQ_ENABLE'', int DMA_CTRL_IRQ_ENABLE),
     (''ACL_PCIE_HAS_TEMP_SENSOR'', uint ACL_PCIE_HAS_TEMP_SENSOR),
     (''ACL_PCIE_TEMP_SENSOR_ADDRESS'', uint ACL_PCIE_TEMP_SENSOR_ADDRESS),
     (''ACL_VERSIONID_BAR'', uint ACL_VERSIONID_BAR),
     (''ACL_VERSIONID_OFFSET'', uint ACL_VERSIONID_OFFSET),
     (''ACL_VERSIONID'', uint ACL_VERSIONID),
     (''ACL_UNIPHYSTATUS_BAR'', uint ACL_UNIPHYSTATUS_BAR),
     (''ACL_UNIPHYSTATUS_OFFSET'', uint ACL_UNIPHYSTATUS_OFFSET)]"

definition command_numbers :: "(string \<times> int) list" where
  "command_numbers =
    [(''ACLPCI_CMD_BAR'', uint ACLPCI_CMD_BAR),
     (''ACLPCI_DMA_BAR'', uint ACLPCI_DMA_BAR),
     (''ACLPCI_CMD_DEFAULT'', uint ACLPCI_CMD_DEFAULT),
     (''ACLPCI_CMD_SAVE_PCI_CONTROL_REGS'', uint ACLPCI_CMD_SAVE_PCI_CONTROL_REGS),
     (''ACLPCI_CMD_LOAD_PCI_CONTROL_REGS'', uint ACLPCI_CMD_LOAD_PCI_CONTROL_REGS),
     (''ACLPCI_CMD_PIN_USER_ADDR'', uint ACLPCI_CMD_PIN_USER_ADDR),
     (''ACLPCI_CMD_UNPIN_USER_ADDR'', uint ACLPCI_CMD_UNPIN_USER_ADDR),
     (''ACLPCI_CMD_GET_DMA_IDLE_STATUS'', uint ACLPCI_CMD_GET_DMA_IDLE_STATUS),
     (''ACLPCI_CMD_DMA_UPDATE'', uint ACLPCI_CMD_DMA_UPDATE),
     (''ACLPCI_CMD_GET_DEVICE_ID'', uint ACLPCI_CMD_GET_DEVICE_ID),
     (''ACLPCI_CMD_GET_VENDOR_ID'', uint ACLPCI_CMD_GET_VENDOR_ID),
     (''ACLPCI_CMD_DO_CVP'', uint ACLPCI_CMD_DO_CVP),
     (''ACLPCI_CMD_GET_PCI_GEN'', uint ACLPCI_CMD_GET_PCI_GEN),
     (''ACLPCI_CMD_GET_PCI_NUM_LANES'', uint ACLPCI_CMD_GET_PCI_NUM_LANES),
     (''ACLPCI_CMD_SET_SIGNAL_PAYLOAD'', uint ACLPCI_CMD_SET_SIGNAL_PAYLOAD),
     (''ACLPCI_CMD_GET_DRIVER_VERSION'', uint ACLPCI_CMD_GET_DRIVER_VERSION),
     (''ACLPCI_CMD_ENABLE_KERNEL_IRQ'', uint ACLPCI_CMD_ENABLE_KERNEL_IRQ),
     (''ACLPCI_CMD_REPROGRAM_VIA_FPGA_MANAGER'', uint ACLPCI_CMD_REPROGRAM_VIA_FPGA_MANAGER),
     (''ACLPCI_CMD_GET_PHYS_PTR_FROM_VIRT'', uint ACLPCI_CMD_GET_PHYS_PTR_FROM_VIRT),
     (''ACLPCI_CMD_GET_PCI_SLOT_INFO'', uint ACLPCI_CMD_GET_PCI_SLOT_INFO),
     (''ACLPCI_CMD_DMA_STOP'', uint ACLPCI_CMD_DMA_STOP),
     (''ACLPCI_CMD_MAX_CMD'', uint ACLPCI_CMD_MAX_CMD),
     (''SIG_INT_NOTIFY'', SIG_INT_NOTIFY)]"

definition agrees :: "(string \<times> macro) list \<Rightarrow> (string \<times> int) list \<Rightarrow> bool" where
  "agrees env ns \<longleftrightarrow> list_all (\<lambda>(x, n). map_option snd (macro_value env x) = Some n) ns"

subsubsection \<open>The chunks of the headers\<close>

lemmas card_chunks = card_bit_macros_def card_address_map_def card_register_bits_def card_commands_def

lemma chunks_define:
  "list_all is_define card_bit_macros" "list_all is_define card_address_map"
  "list_all is_define card_register_bits" "list_all is_define card_commands"
  "list_all is_define card_version_h"
  by (simp_all add: card_chunks card_version_h_def)

definition hw_env :: "(string \<times> macro) list" where
  "hw_env = rev (entries card_bit_macros @ entries card_address_map @ entries card_register_bits)"

lemma qsys_defined: "map_of (rev (entries card_address_map) @ env) ''QSYS_IFACE'' \<noteq> None"
proof -
  have "''QSYS_IFACE'' \<in> fst ` set (rev (entries card_address_map) @ env)"
    by (simp add: card_address_map_def)
  then show ?thesis by (auto simp: map_of_eq_None_iff)
qed

text \<open>The branch for boards without the QSYS interface defines nothing.\<close>

lemma pp_irq_bits:
  "map_of env ''QSYS_IFACE'' \<noteq> None \<Longrightarrow> pp_lines card_irq_bits (gs, env) = Some (gs, env)"
  by (simp add: card_irq_bits_def)

lemma pp_hw:
  assumes "list_all id gs" "map_of env ''HW_PCIE_CONSTANTS_H'' = None"
  shows "pp_lines card_hw_constants_h (gs, env) = Some (gs, hw_env @ (''HW_PCIE_CONSTANTS_H'', Empty) # env)"
  unfolding card_hw_constants_h_def using assms
  by (intro pp_guarded)
    (simp_all add: pp_lines_append pp_defines chunks_define pp_irq_bits qsys_defined hw_env_def del: map_of_append)

lemma pp_exports:
  assumes "list_all id gs" "map_of env ''PCIE_LINUX_DRIVER_EXPORTS_H'' = None"
  shows "pp_lines card_exports_h (gs, env) =
    Some (gs, rev (entries card_commands) @ (''PCIE_LINUX_DRIVER_EXPORTS_H'', Empty) # env)"
  unfolding card_exports_h_def using assms
  by (intro pp_guarded) (simp_all add: pp_defines chunks_define)

lemma local_headers:
  "with_headers card_file card_includes = card_hw_constants_h @ card_exports_h @ card_version_h"
  by (simp add: with_headers_def card_includes_def card_file_def)

text \<open>The numbers of the names, in the order of the files.\<close>

lemma chunk_keys:
  "map (key \<circ> fst) (entries card_bit_macros) = [9097350, 582235795, 4549126, 18191974, 4548358]"
  "map (key \<circ> fst) (entries card_address_map) = [84655, 4553947, 1165246546, 18024394, 145679306, 9327351890, 9327347658, 18117859, 2282051,
     1132227, 291341060, 2275940, 18208474, 4552133, 18178708, 145430618, 4548100, 36385754,
     9314693588, 74517549658, 4549924, 291114788, 291114809, 582229647, 582229829, 39550005,
     39549357, 39540259, 582214701, 72771885, 345887473, 149046506468, 1192372052698]"
  "map (key \<circ> fst) (entries card_register_bits) = [37580789, 601293933, 617225334381, 1204309933, 36689, 1180085, 2359250, 2371827, 9715042521,
     75902407, 1185889, 37950147, 37950133, 589766, 1179474, 37745069, 19997, 10034, 9982,
     1164395036, 18633354525, 9137204, 73098586, 570998, 73140260, 585123034]"
  "map (key \<circ> fst) (entries card_commands) = [1118708, 1118724, 17900488, 293301740725, 293296104629, 1145717218, 4582957538, 73323081269,
     143207665, 1145672650, 1145676882, 8950576, 286418780, 18330811005, 36663214994,
     36661572456, 18330422769, 9385655722688, 586586742044, 18330811275, 35801894, 17901378,
     1300761]"
  by (simp_all add: card_chunks key_def)

subsubsection \<open>The whole\<close>

text \<open>The macros the driver's files see, the last one first.\<close>

definition header_env :: "(string \<times> macro) list" where
  "header_env =
     (''ACL_DRIVER_VERSION'', String_lit ''14.1.9'') # rev (entries card_commands) @
     (''PCIE_LINUX_DRIVER_EXPORTS_H'', Empty) # hw_env @
     [(''HW_PCIE_CONSTANTS_H'', Empty), (''ACLPCI_H'', Empty)]"

definition card_env :: "(string \<times> macro) list" where
  "card_env =
     [(''MAX_ADDR_MAP_ENTRIES'', Text_of ''(PAGE_SIZE/sizeof(struct addr_map_elem))''),
      (''assert'', Log_statement),
      (''ACL_VERBOSE_DEBUG'', Empty),
      (''ACL_DEBUG'', Log_statement),
      (''VERBOSE_DEBUG'', Object (Int_const 0)), (''POLLING'', Object (Int_const 0)),
      (''BOARD_NAME'', String_lit ''acl''), (''DRIVER_NAME'', String_lit ''aclsoc''),
      (''USE_DMA'', Object (Int_const 0))] @ header_env"

lemma header_keys:
  "set (map (key \<circ> fst) header_env) =
   set (map key [''ACL_DRIVER_VERSION'', ''PCIE_LINUX_DRIVER_EXPORTS_H'', ''HW_PCIE_CONSTANTS_H'', ''ACLPCI_H'']) \<union>
   set (map (key \<circ> fst) (entries card_bit_macros)) \<union> set (map (key \<circ> fst) (entries card_address_map)) \<union>
   set (map (key \<circ> fst) (entries card_register_bits)) \<union> set (map (key \<circ> fst) (entries card_commands))"
  by (auto simp: header_env_def hw_env_def)

lemma exports_guard_free:
  "map_of (hw_env @ [(''HW_PCIE_CONSTANTS_H'', Empty), (''ACLPCI_H'', Empty)]) ''PCIE_LINUX_DRIVER_EXPORTS_H'' = None"
  by (rule fresh_name, simp only: hw_env_def map_append rev_map [symmetric] chunk_keys, simp add: key_def)

text \<open>
  The headers are read after those of the kernel. They put their macros before the ones that were
  there, provided these are not the guards; \<^verbatim>\<open>ACLPCI_BIGENDIAN\<close> makes no difference.
\<close>

lemma pp_headers:
  assumes "map_of given ''HW_PCIE_CONSTANTS_H'' = None" "map_of given ''PCIE_LINUX_DRIVER_EXPORTS_H'' = None"
  shows "pp_lines (card_hw_constants_h @ card_exports_h @ card_version_h) ([True], (''ACLPCI_H'', Empty) # given) =
    Some ([True], header_env @ given)"
proof -
  have "map_of (hw_env @ (''HW_PCIE_CONSTANTS_H'', Empty) # (''ACLPCI_H'', Empty) # given)
      ''PCIE_LINUX_DRIVER_EXPORTS_H'' = None"
    using exports_guard_free assms(2) by (simp add: map_add_None)
  then show ?thesis
    using assms(1)
    by (simp add: pp_lines_append pp_hw pp_exports card_version_h_def header_env_def del: map_of_append)
qed

lemma pp_switches:
  "pp_lines card_switches ([True], header_env @ given) = Some ([True], card_env @ given)"
  by (cases "map_of (header_env @ given) ''ACLPCI_BIGENDIAN'' = None")
    (simp_all add: card_switches_def card_env_def holds_if_def int_const_def norm_def del: map_of_append)

lemma local_switches: "with_headers card_file card_switches = card_switches"
  by (simp add: with_headers_def card_switches_def)

lemma card_macros_lines:
  "card_macros given =
   preprocess (guarded ''ACLPCI_H'' ((card_hw_constants_h @ card_exports_h @ card_version_h) @ card_switches)) given"
  by (simp add: card_macros_def card_aclsoc_h_def with_headers_guarded with_headers_append local_headers local_switches)

lemma card_macros_eq:
  assumes "\<forall>g \<in> set card_guards. map_of given g = None"
  shows "card_macros given = Some (card_env @ given)"
proof -
  have g: "map_of given ''ACLPCI_H'' = None" "map_of given ''HW_PCIE_CONSTANTS_H'' = None"
    "map_of given ''PCIE_LINUX_DRIVER_EXPORTS_H'' = None"
    using assms by (simp_all add: card_guards_def)
  have "pp_lines (guarded ''ACLPCI_H'' ((card_hw_constants_h @ card_exports_h @ card_version_h) @ card_switches)) ([], given) =
      Some ([], card_env @ given)"
    by (rule pp_guarded, simp, rule g(1))
      (simp only: pp_lines_append [of _ card_switches] pp_headers [OF g(2,3)] pp_switches option.case)
  then show ?thesis by (simp add: card_macros_lines preprocess_def)
qed

text \<open>A second inclusion changes nothing.\<close>

lemma pp_closed:
  assumes "\<not> list_all id gs"
  shows "pp_lines ((card_hw_constants_h @ card_exports_h @ card_version_h) @ card_switches) (gs, env) = Some (gs, env)"
proof -
  have hw: "pp_lines card_hw_constants_h (gs, env) = Some (gs, env)"
    unfolding card_hw_constants_h_def using assms
    by (intro pp_guarded_again) (simp_all add: pp_lines_append pp_defines chunks_define card_irq_bits_def)
  have ex: "pp_lines card_exports_h (gs, env) = Some (gs, env)"
    unfolding card_exports_h_def using assms by (intro pp_guarded_again) (simp_all add: pp_defines chunks_define)
  show ?thesis
    using assms by (simp add: pp_lines_append hw ex pp_defines chunks_define card_switches_def)
qed

lemma card_macros_again:
  assumes "map_of env ''ACLPCI_H'' \<noteq> None"
  shows "card_macros env = Some env"
proof -
  have "pp_lines (guarded ''ACLPCI_H'' ((card_hw_constants_h @ card_exports_h @ card_version_h) @ card_switches)) ([], env) =
      Some ([], env)"
    by (rule pp_guarded_again [OF pp_closed]) (simp_all add: assms)
  then show ?thesis by (simp add: card_macros_lines preprocess_def)
qed

lemma card_names_distinct: "distinct (map fst card_env)"
proof (rule distinct_names)
  show "distinct (map (key \<circ> fst) card_env)"
    unfolding card_env_def header_env_def hw_env_def
    by (simp only: map_append rev_map [symmetric] entries_append rev_append chunk_keys list.map append.simps
        o_apply fst_conv rev_append) (simp add: key_def)
qed

subsection \<open>The values\<close>

lemma chunk_literals:
  "literals card_address_map = address_numbers"
  "literals card_register_bits = register_numbers"
  "literals card_commands = command_numbers"
  by (simp_all add: card_chunks address_numbers_def register_numbers_def command_numbers_def
      board_constants DMA_ALIGNMENT_BYTES_def hw_consts)

lemma chunks_in_env:
  "set (entries card_bit_macros) \<subseteq> set card_env" "set (entries card_address_map) \<subseteq> set card_env"
  "set (entries card_register_bits) \<subseteq> set card_env" "set (entries card_commands) \<subseteq> set card_env"
  by (auto simp: card_env_def header_env_def hw_env_def)

lemma card_value: "(x, m) \<in> set card_env \<Longrightarrow> map_of (card_env @ given) x = Some m"
  by (rule defined_first [OF card_names_distinct])

lemma numbers_small:
  "list_all (\<lambda>(x, n). 0 \<le> n \<and> n < 2 ^ 32) (address_numbers @ register_numbers @ command_numbers)"
  by (simp add: address_numbers_def register_numbers_def command_numbers_def board_constants DMA_ALIGNMENT_BYTES_def hw_consts)

lemma numbers_agree: "agrees (card_env @ given) (address_numbers @ register_numbers @ command_numbers)"
proof -
  have "map_option snd (macro_value (card_env @ given) x) = Some n"
    if "(x, n) \<in> set (literals ds)" "set (entries ds) \<subseteq> set card_env" "0 \<le> n" "n < 2 ^ 32" for x n ds
    using literal_value [OF _ that(1,3,4), of "card_env @ given"] that(2) card_value by blast
  then have "map_option snd (macro_value (card_env @ given) x) = Some n"
    if "(x, n) \<in> set (address_numbers @ register_numbers @ command_numbers)" for x n
    using that numbers_small chunks_in_env by (fastforce simp: list_all_iff simp flip: chunk_literals)
  then show ?thesis by (auto simp: agrees_def list_all_iff)
qed

text \<open>The macros whose replacement is an expression.\<close>

lemma address_members:
  "(''ACL_PCI_BSP_DEVICE_ID'', Object (Name ''ACL_C5DK_DEVICE_ID'')) \<in> set card_env"
  "(''ACL_C5DK_DEVICE_ID'', Object (Int_const 0xC500)) \<in> set card_env"
  by (rule subsetD [OF chunks_in_env(2)], simp add: card_address_map_def)+

lemma register_members:
  "(''DMA_ALIGNMENT_BYTE_MASK'', Object (Sub (Name ''DMA_ALIGNMENT_BYTES'') (Int_const 1))) \<in> set card_env"
  "(''DMA_ALIGNMENT_BYTES'', Object (Int_const 64)) \<in> set card_env"
  "(''PIO_DATA'', Object (Mul (Int_const 0) (Int_const 4))) \<in> set card_env"
  "(''PIO_SET'', Object (Mul (Int_const 4) (Int_const 4))) \<in> set card_env"
  "(''PIO_CLR'', Object (Mul (Int_const 5) (Int_const 4))) \<in> set card_env"
  by (rule subsetD [OF chunks_in_env(3)], simp add: card_register_bits_def)+

definition expression_numbers :: "(string \<times> int) list" where
  "expression_numbers =
    [(''ACL_PCI_BSP_DEVICE_ID'', uint ACL_PCI_BSP_DEVICE_ID),
     (''DMA_ALIGNMENT_BYTE_MASK'', uint DMA_ALIGNMENT_BYTE_MASK),
     (''PIO_DATA'', uint PIO_DATA), (''PIO_SET'', uint PIO_SET), (''PIO_CLR'', uint PIO_CLR)]"

lemma expressions_agree: "agrees (card_env @ given) expression_numbers"
proof -
  let ?env = "card_env @ given"
  note m = register_members [THEN card_value, of given] and a = address_members [THEN card_value, of given]
  have "macro_value ?env ''PIO_DATA'' = Some (Int32, 0)" "macro_value ?env ''PIO_SET'' = Some (Int32, 16)"
    "macro_value ?env ''PIO_CLR'' = Some (Int32, 20)"
    using m(3,4,5) by (simp_all add: macro_value_def int_const_def norm_def converted_def common_def del: map_of_append)
  moreover have "macro_value ?env ''ACL_PCI_BSP_DEVICE_ID'' = Some (Int32, 0xC500)"
    using nested_value [OF a(1) _ a(2)] by (simp add: int_const_def norm_def del: meval.simps)
  moreover have "macro_value ?env ''DMA_ALIGNMENT_BYTE_MASK'' = Some (Int32, 63)"
    using nested_value [OF m(1) _ m(2)]
    by (simp add: int_const_def norm_def converted_def common_def del: meval.simps(3))
  ultimately show ?thesis
    by (simp add: agrees_def expression_numbers_def board_constants DMA_ALIGNMENT_BYTES_def hw_consts)
qed

text \<open>The names are those the models use; the version is the one of the card.\<close>

definition card_names :: "(string \<times> string) list" where
  "card_names =
    [(''ACL_BOARD_PKG_NAME'', ACL_BOARD_PKG_NAME), (''ACL_VENDOR_NAME'', ACL_VENDOR_NAME),
     (''ACL_BOARD_NAME'', ACL_BOARD_NAME), (''ACL_DRIVER_VERSION'', CARD_DRIVER_VERSION),
     (''DRIVER_NAME'', DRIVER_NAME), (''BOARD_NAME'', BOARD_NAME)]"

lemma names_agree: "(x, n) \<in> set card_names \<Longrightarrow> map_of (card_env @ given) x = Some (String_lit n)"
proof (rule card_value)
  assume "(x, n) \<in> set card_names"
  moreover have "{(''ACL_BOARD_PKG_NAME'', String_lit ''c5dk''), (''ACL_VENDOR_NAME'', String_lit ''Altera Corporation''),
      (''ACL_BOARD_NAME'', String_lit ''Cyclone V SoC Development Kit'')} \<subseteq> set card_env"
    by (rule subset_trans [OF _ chunks_in_env(2)]) (simp add: card_address_map_def)
  moreover have "{(''ACL_DRIVER_VERSION'', String_lit ''14.1.9''), (''DRIVER_NAME'', String_lit ''aclsoc''),
      (''BOARD_NAME'', String_lit ''acl'')} \<subseteq> set card_env"
    by (simp add: card_env_def header_env_def)
  ultimately show "(x, String_lit n) \<in> set card_env"
    by (auto simp: card_names_def ACL_BOARD_PKG_NAME_def ACL_VENDOR_NAME_def ACL_BOARD_NAME_def
        CARD_DRIVER_VERSION_def DRIVER_NAME_def BOARD_NAME_def)
qed

text \<open>The macros of the branch for boards without QSYS keep the meaning they had before.\<close>

lemma excluded_branch:
  "map (map_of (card_env @ given)) [''PCIE_CRA_IRQ_RXMIRQ'', ''PCIE_CRA_AVL_IRQ_VEC_LO'', ''PCIE_CRA_AVL_IRQ_VEC_HI''] =
   map (map_of given) [''PCIE_CRA_IRQ_RXMIRQ'', ''PCIE_CRA_AVL_IRQ_VEC_LO'', ''PCIE_CRA_AVL_IRQ_VEC_HI'']"
proof -
  have "map_of header_env ''PCIE_CRA_IRQ_RXMIRQ'' = None" "map_of header_env ''PCIE_CRA_AVL_IRQ_VEC_LO'' = None"
    "map_of header_env ''PCIE_CRA_AVL_IRQ_VEC_HI'' = None"
    by (rule fresh_name, simp only: header_keys chunk_keys, simp add: key_def)+
  then show ?thesis by (simp add: card_env_def map_add_def)
qed

lemma switched_off:
  "map (macro_value (card_env @ given)) [''USE_DMA'', ''POLLING'', ''VERBOSE_DEBUG''] = replicate 3 (Some (Int32, 0))"
  by (simp add: macro_value_def card_env_def int_const_def norm_def numeral_3_eq_3)

subsection \<open>The bit macros\<close>

text \<open>
  The macros applied to an unsigned word and positions of type \<^verbatim>\<open>int\<close> have the values of the
  functions on words as long as C defines them. The literal 1 they shift is an \<^verbatim>\<open>int\<close>: it cannot
  be shifted into the sign bit, so bit 31 can be read but not set, cleared or made.
\<close>

lemma bit_macro_members:
  "(''ACL_PCIE_READ_BIT'', Function [''w'', ''b''] (Band (Shr (Name ''w'') (Name ''b'')) (Int_const 1))) \<in> set card_env"
  "(''ACL_PCIE_READ_BIT_RANGE'', Function [''w'', ''h'', ''l'']
     (Band (Shr (Name ''w'') (Name ''l''))
       (Sub (Shl (Int_const 1) (Add (Sub (Name ''h'') (Name ''l'')) (Int_const 1))) (Int_const 1)))) \<in> set card_env"
  "(''ACL_PCIE_SET_BIT'', Function [''w'', ''b''] (Or_assign (Name ''w'') (Shl (Int_const 1) (Name ''b'')))) \<in> set card_env"
  "(''ACL_PCIE_CLEAR_BIT'', Function [''w'', ''b''] (And_assign (Name ''w'') (Bnot (Shl (Int_const 1) (Name ''b''))))) \<in> set card_env"
  "(''ACL_PCIE_GET_BIT'', Function [''b''] (To_unsigned (Shl (Int_const 1) (Name ''b'')))) \<in> set card_env"
  by (rule subsetD [OF chunks_in_env(1)], simp add: card_bit_macros_def)+

lemma read_bit_macro:
  "macro_call (card_env @ given) ''ACL_PCIE_READ_BIT'' [(Uint32, uint w), (Int32, int b)] =
     (if b < 32 then Some (Uint32, uint (ACL_PCIE_READ_BIT w b)) else None)"
  by (simp add: card_value [OF bit_macro_members(1), of given] macro_steps ACL_PCIE_READ_BIT_def
      del: map_of_append)

lemma get_bit_macro:
  "macro_call (card_env @ given) ''ACL_PCIE_GET_BIT'' [(Int32, int b)] =
     (if b < 31 then Some (Uint32, uint (ACL_PCIE_GET_BIT b)) else None)"
  by (simp add: card_value [OF bit_macro_members(5), of given] macro_steps norm_word ACL_PCIE_GET_BIT_def
      del: map_of_append)

lemma set_bit_macro:
  "macro_call (card_env @ given) ''ACL_PCIE_SET_BIT'' [(Uint32, uint w), (Int32, int b)] =
     (if b < 31 then Some (Uint32, uint (ACL_PCIE_SET_BIT w b)) else None)"
  using small_power [of b]
  by (cases "b < 31") (simp_all add: card_value [OF bit_macro_members(3), of given] macro_steps ACL_PCIE_SET_BIT_def
      del: map_of_append)

lemma clear_bit_macro:
  "macro_call (card_env @ given) ''ACL_PCIE_CLEAR_BIT'' [(Uint32, uint w), (Int32, int b)] =
     (if b < 31 then Some (Uint32, uint (ACL_PCIE_CLEAR_BIT w b)) else None)"
proof -
  have "- 2147483648 \<le> NOT ((2 :: int) ^ b) \<and> NOT ((2 :: int) ^ b) < 2147483648" if "b < 31"
    using small_power [OF that] by (simp add: not_int_def)
  then show ?thesis
    by (simp add: card_value [OF bit_macro_members(4), of given] macro_steps of_int_not_eq ACL_PCIE_CLEAR_BIT_def
      del: map_of_append)
qed

lemma read_bit_range_macro:
  assumes "l \<le> h" "h < 32"
  shows "macro_call (card_env @ given) ''ACL_PCIE_READ_BIT_RANGE'' [(Uint32, uint w), (Int32, int h), (Int32, int l)] =
     (if h - l + 1 < 31 then Some (Uint32, uint (ACL_PCIE_READ_BIT_RANGE w h l)) else None)"
proof -
  define k where "k = h - l + 1"
  have c: "converted (-) (Int32, int h) (Int32, int l) = Some (Int32, int h - int l)"
    "converted (+) (Int32, int h - int l) (Int32, 1) = Some (Int32, int k)"
    using assms by (simp_all add: k_def converted_def common_def norm_def)
  note steps = card_value [OF bit_macro_members(2), of given] macro_call_def int_const_def norm_def [of Int32]
    shift_one shift_word c
  show ?thesis
  proof (cases "k < 31")
    case True
    have "converted (-) (Int32, 2 ^ k) (Int32, 1) = Some (Int32, 2 ^ k - 1)"
      using small_power [OF True] by (simp add: converted_def common_def norm_def)
    moreover have "converted (AND) (Uint32, uint (drop_bit l w)) (Int32, 2 ^ k - 1) =
        Some (Uint32, uint (drop_bit l w AND word_of_int (2 ^ k - 1)))"
      using small_power [OF True] by (intro converted_word) simp_all
    ultimately have "macro_call (card_env @ given) ''ACL_PCIE_READ_BIT_RANGE'' [(Uint32, uint w), (Int32, int h), (Int32, int l)] =
        Some (Uint32, uint (drop_bit l w AND (2 ^ k - 1)))"
      using True assms by (simp add: steps del: map_of_append)
    then show ?thesis using True by (simp only: k_def ACL_PCIE_READ_BIT_RANGE_def push_bit_of_1 if_True)
  next
    case False
    then have "macro_call (card_env @ given) ''ACL_PCIE_READ_BIT_RANGE'' [(Uint32, uint w), (Int32, int h), (Int32, int l)] = None"
      using assms by (simp add: steps del: map_of_append)
    then show ?thesis using False by (simp only: k_def if_False)
  qed
qed

subsection \<open>The structures of the headers\<close>

text \<open>\<^verbatim>\<open>struct acl_cmd\<close>, \<^verbatim>\<open>struct addr_map_elem\<close> and \<^verbatim>\<open>struct aclsoc_dev\<close>.\<close>

definition card_acl_cmd :: members where
  "card_acl_cmd =
    [(''bar_id'', Unsigned_int),
     (''command'', Unsigned_int),
     (''device_addr'', Pointer),
     (''user_addr'', Pointer),
     (''size'', Size_t),
     (''is_diff_endian'', Signed_int)]"

definition card_addr_map_elem :: members where
  "card_addr_map_elem =
    [(''vm_start'', Unsigned_long),
     (''size'', Size_t),
     (''cpu_addr'', Pointer),
     (''dma_handle'', Kernel_type ''dma_addr_t''),
     (''ref'', Kernel_type ''struct kref'')]"

definition card_aclsoc_dev :: members where
  "card_aclsoc_dev =
    [(''mapped_region'', Array Pointer 3),
     (''mapped_region_size'', Array Size_t 3),
     (''addr_map'', Pointer),
     (''global_mem_segment'', U64),
     (''saved_kernel_irq_mask'', Char),
     (''global_mem_segment_addr'', Pointer),
     (''buffer'', Pointer),
     (''sem'', Kernel_type ''struct semaphore''),
     (''user_pid'', Signed_int),
     (''cdev_num'', Dev_t),
     (''cdev'', Kernel_type ''struct cdev''),
     (''my_class'', Pointer),
     (''device'', Pointer),
     (''signal_info'', Kernel_type ''struct siginfo''),
     (''user_task'', Pointer),
     (''user_filehandle'', Signed_int),
     (''num_handled_interrupts'', Size_t),
     (''num_undelivered_signals'', Size_t)]"

text \<open>\<^verbatim>\<open>BUF_SIZE\<close> and \<^verbatim>\<open>MAX_ADDR_MAP_ENTRIES\<close>.\<close>

definition CARD_BUF_SIZE :: nat where "CARD_BUF_SIZE = PAGE_SIZE"

definition CARD_MAX_ADDR_MAP_ENTRIES :: "layout \<Rightarrow> nat" where
  "CARD_MAX_ADDR_MAP_ENTRIES K = PAGE_SIZE div sizeof_struct K card_addr_map_elem"

text \<open>
  The structures of the kernel inside \<^verbatim>\<open>struct aclsoc_dev\<close> consist of words on the target; their
  numbers of words are not known here.
\<close>

definition words_layout :: "layout \<Rightarrow> nat \<Rightarrow> nat \<Rightarrow> nat \<Rightarrow> bool" where
  "words_layout K s c i \<longleftrightarrow> K ''struct semaphore'' = (4 * s, 4) \<and> K ''struct cdev'' = (4 * c, 4) \<and>
     K ''struct siginfo'' = (4 * i, 4)"

lemma acl_cmd_placed:
  "place_members K 0 card_acl_cmd =
     [(''bar_id'', 0, 4), (''command'', 4, 4), (''device_addr'', 8, 4), (''user_addr'', 12, 4),
      (''size'', 16, 4), (''is_diff_endian'', 20, 4)]"
  "sizeof_struct K card_acl_cmd = 24"
  by (simp_all add: card_acl_cmd_def pad_def sizeof_struct_def struct_align_def)

text \<open>
  A reference counter is one \<^verbatim>\<open>int\<close>. A bus address has 32 bits, or 64 with the large address
  extension; the models are of the former. With the latter the table has 128 entries, the number
  at which the search of \<^verbatim>\<open>aclsoc_cmd.c\<close> stops.
\<close>

lemma addr_map_elem_placed:
  assumes "K ''dma_addr_t'' = (4, 4)" "K ''struct kref'' = (4, 4)"
  shows "place_members K 0 card_addr_map_elem =
     [(''vm_start'', 0, 4), (''size'', 4, 4), (''cpu_addr'', 8, 4), (''dma_handle'', 12, 4), (''ref'', 16, 4)]"
    "sizeof_struct K card_addr_map_elem = 20" "CARD_MAX_ADDR_MAP_ENTRIES K = 204"
  using assms
  by (simp_all add: card_addr_map_elem_def pad_def sizeof_struct_def struct_align_def
      CARD_MAX_ADDR_MAP_ENTRIES_def hw_consts)

lemma addr_map_elem_placed_wide:
  assumes "K ''dma_addr_t'' = (8, 8)" "K ''struct kref'' = (4, 4)"
  shows "place_members K 0 card_addr_map_elem =
     [(''vm_start'', 0, 4), (''size'', 4, 4), (''cpu_addr'', 8, 4), (''dma_handle'', 16, 8), (''ref'', 24, 4)]"
    "sizeof_struct K card_addr_map_elem = 32" "CARD_MAX_ADDR_MAP_ENTRIES K = 128"
  using assms
  by (simp_all add: card_addr_map_elem_def pad_def sizeof_struct_def struct_align_def
      CARD_MAX_ADDR_MAP_ENTRIES_def hw_consts)

text \<open>The 64-bit \<open>global_mem_segment\<close> leaves four bytes before it and aligns the structure.\<close>

lemma aclsoc_dev_placed:
  assumes "words_layout K s c i"
  shows "place_members K 0 card_aclsoc_dev =
    [(''mapped_region'', 0, 12), (''mapped_region_size'', 12, 12), (''addr_map'', 24, 4),
     (''global_mem_segment'', 32, 8), (''saved_kernel_irq_mask'', 40, 1), (''global_mem_segment_addr'', 44, 4),
     (''buffer'', 48, 4), (''sem'', 52, 4 * s), (''user_pid'', 52 + 4 * s, 4), (''cdev_num'', 56 + 4 * s, 4),
     (''cdev'', 60 + 4 * s, 4 * c), (''my_class'', 60 + 4 * (s + c), 4), (''device'', 64 + 4 * (s + c), 4),
     (''signal_info'', 68 + 4 * (s + c), 4 * i), (''user_task'', 68 + 4 * (s + c + i), 4),
     (''user_filehandle'', 72 + 4 * (s + c + i), 4), (''num_handled_interrupts'', 76 + 4 * (s + c + i), 4),
     (''num_undelivered_signals'', 80 + 4 * (s + c + i), 4)]"
proof -
  have l: "K ''struct semaphore'' = (4 * s, 4)" "K ''struct cdev'' = (4 * c, 4)" "K ''struct siginfo'' = (4 * i, 4)"
    using assms by (simp_all add: words_layout_def)
  have d: "4 dvd 4 * n + k \<longleftrightarrow> 4 dvd k" for n k :: nat by presburger
  show ?thesis
    unfolding card_aclsoc_dev_def by (intro place_step) (simp_all add: l d add.commute)
qed

lemma aclsoc_dev_size:
  assumes "words_layout K s c i"
  shows "sizeof_struct K card_aclsoc_dev = 84 + 4 * (s + c + i) + (if even (s + c + i) then 4 else 0)"
proof -
  have "end_of K 0 card_aclsoc_dev = 80 + 4 * (s + c + i) + 4"
    by (rule end_step [where ps = "butlast (place_members K 0 card_aclsoc_dev)"])
      (simp add: aclsoc_dev_placed [OF assms])
  moreover have "struct_align K card_aclsoc_dev = 8"
    using assms by (simp add: struct_align_def card_aclsoc_dev_def words_layout_def)
  moreover have "pad 8 (80 + 4 * n + 4) = 84 + 4 * n + (if even n then 4 else 0)" for n
    by (rule pad_to) (simp_all, presburger+)
  ultimately show ?thesis by (simp only: sizeof_struct_def)
qed

text \<open>The encoding of a command puts every field where the compiler does.\<close>

lemma encoded_members:
  "member_bytes K card_acl_cmd ''bar_id'' (encode_cmd c) = Some (bytes_u32 (bar_id c))"
  "member_bytes K card_acl_cmd ''command'' (encode_cmd c) = Some (bytes_u32 (command c))"
  "member_bytes K card_acl_cmd ''device_addr'' (encode_cmd c) = Some (bytes_u32 (device_addr c))"
  "member_bytes K card_acl_cmd ''user_addr'' (encode_cmd c) = Some (bytes_u32 (user_addr c))"
  "member_bytes K card_acl_cmd ''size'' (encode_cmd c) = Some (bytes_u32 (cmd_size c))"
  "member_bytes K card_acl_cmd ''is_diff_endian'' (encode_cmd c) = Some (bytes_u32 (is_diff_endian c))"
  by (simp_all add: member_bytes_def acl_cmd_placed encode_cmd_def)

end
