(* ===== verification/Unused_Headers.thy ===== *)
theory Unused_Headers
  imports C_Language
begin

section \<open>Headers that no file includes\<close>

text \<open>
  \<^verbatim>\<open>hw_pcie_dma.h\<close> and \<^verbatim>\<open>hw_pcie_cvp_constants.h\<close> were taken over from the PCIe version of
  the driver and describe hardware that this board does not have. They are given here as the text
  they are, with what a compiler makes of them: constant objects, an enumeration, two structures
  that hardware reads, and the masks of a register block.
\<close>

subsection \<open>Objects and enumerations\<close>

text \<open>Objects of type \<^verbatim>\<open>static const unsigned int\<close> with their initial values.\<close>

type_synonym objects = "(string \<times> mexpr) list"

definition object_value :: "(string \<times> macro) list \<Rightarrow> objects \<Rightarrow> string \<Rightarrow> int option" where
  "object_value env os x =
     (case map_of os x of
        None \<Rightarrow> None
      | Some e \<Rightarrow> (case meval env [] (To_unsigned e) of None \<Rightarrow> None | Some (t, n) \<Rightarrow> Some n))"

text \<open>An enumerator without a value is one more than the one before it; the first is 0.\<close>

fun enumerators :: "int \<Rightarrow> (string \<times> int option) list \<Rightarrow> (string \<times> int) list" where
  "enumerators n [] = []"
| "enumerators n ((x, None) # es) = (x, n) # enumerators (n + 1) es"
| "enumerators n ((x, Some k) # es) = (x, k) # enumerators (k + 1) es"

subsection \<open>The DMA engine (hw_pcie_dma.h)\<close>

definition dma_objects :: objects where
  "dma_objects =
    [(''ACL_PCIE_DMA_MAX_PINNED_MEM_SIZE'', Mul (Int_const 1024) (Int_const 1024)),
     (''ACL_PCIE_DMA_MAX_PINNED_MEM'', Int_const 64),
     (''ACL_PCIE_DMA_MAX_ATT_PER_DESCRIPTOR'', Int_const 128),
     (''ACL_PCIE_DMA_MAX_DONE_COUNT'', Shl (Int_const 1) (Int_const 16)),
     (''ACL_PCIE_DMA_MAX_ATT_PAGE_SIZE'', Mul (Int_const 4) (Int_const 1024)),
     (''ACL_PCIE_DMA_MAX_ATT_SIZE'', Int_const 256),
     (''ACL_PCIE_DMA_MAX_DESCRIPTORS'', Int_const 128),
     (''ACL_PCIE_DMA_ATT_PAGE_ADDR_MASK'', Sub (Mul (Int_const 4) (Int_const 1024)) (Int_const 1))]"

definition dma_directives :: "directive list" where
  "dma_directives =
    [Ifdef ''LINUX'',
     Define ''cl_ulong'' (Text_of ''unsigned long''),
     Endif]"

definition dma_descriptor :: members where
  "dma_descriptor =
    [(''read_address'', Unsigned_int), (''write_address'', Unsigned_int), (''bytes'', Unsigned_int),
     (''burst'', Unsigned_int), (''stride'', Unsigned_int), (''read_address_hi'', Unsigned_int),
     (''write_address_hi'', Unsigned_int), (''control'', Unsigned_int)]"

text \<open>Where \<^verbatim>\<open>LINUX\<close> is not defined, the type of \<open>start\<close> is the one of the OpenCL headers.\<close>

definition descriptor_update_data :: "(string \<times> macro) list \<Rightarrow> members" where
  "descriptor_update_data env =
    [(''bytes'', Unsigned_int), (''att_entries'', Unsigned_int),
     (''start'', if map_of env ''cl_ulong'' = Some (Text_of ''unsigned long'') then Unsigned_long
                 else Kernel_type ''cl_ulong'')]"

lemma dma_values:
  "map (object_value [] dma_objects) (map fst dma_objects) =
     map Some [0x100000, 64, 128, 0x10000, 0x1000, 256, 128, 0xFFF]"
  by (simp add: object_value_def dma_objects_def int_const_def norm_def converted_def common_def
      shift_left_def width_def)

text \<open>The address mask takes the offset in a page of the translation table.\<close>

lemma page_mask_offset:
  fixes a :: u32
  assumes "object_value [] dma_objects ''ACL_PCIE_DMA_ATT_PAGE_ADDR_MASK'' = Some m"
    "object_value [] dma_objects ''ACL_PCIE_DMA_MAX_ATT_PAGE_SIZE'' = Some n"
  shows "uint (a AND word_of_int m) = uint a mod n"
proof -
  have m: "m = 0xFFF" "n = 0x1000"
    using assms dma_values by (simp_all add: dma_objects_def)
  have "uint (a AND word_of_int m) = take_bit 12 (uint a)"
    using uint_bounded [of a] m(1) by (simp add: uint_and uint_word_of_int take_bit_eq_mask mask_numeral flip: and.assoc)
  then show ?thesis using m(2) by (simp add: take_bit_eq_mod)
qed

text \<open>
  The descriptor is eight words without a gap. On Linux the other structure is three words; with
  the 64-bit type of the OpenCL headers it is four.
\<close>

lemma dma_descriptor_layout:
  "sizeof_struct K dma_descriptor = 32"
  "map (\<lambda>(f, off, n). (off, n)) (place_members K 0 dma_descriptor) = map (\<lambda>i. (4 * i, 4)) [0..<8]"
  by (simp_all add: dma_descriptor_def sizeof_struct_def struct_align_def pad_def upt_rec Let_def)

lemma update_data_layout:
  "pp_lines dma_directives ([], (''LINUX'', Empty) # env) = Some ([], (''cl_ulong'', Text_of ''unsigned long'') # (''LINUX'', Empty) # env)"
  "map_of env ''LINUX'' = None \<Longrightarrow> pp_lines dma_directives ([], env) = Some ([], env)"
  "sizeof_struct K (descriptor_update_data ((''cl_ulong'', Text_of ''unsigned long'') # env)) = 12"
  "map_of env ''cl_ulong'' = None \<Longrightarrow> K ''cl_ulong'' = (8, 8) \<Longrightarrow> sizeof_struct K (descriptor_update_data env) = 16"
  by (simp_all add: dma_directives_def descriptor_update_data_def sizeof_struct_def struct_align_def pad_def Let_def id_def)

subsection \<open>Configuration via protocol (hw_pcie_cvp_constants.h)\<close>

definition cvp_offsets :: "directive list" where
  "cvp_offsets =
    [Define ''OFFSET_NONE'' (Object (Int_const 0x0)),
     Define ''OFFSET_VSEC'' (Object (Int_const 0x200)),
     Define ''OFFSET_ALTERA_MARKER'' (Object (Int_const 0x08)),
     Define ''OFFSET_CVP_STATUS'' (Object (Int_const 0x1E)),
     Define ''OFFSET_CVP_MODE_CTRL'' (Object (Int_const 0x20)),
     Define ''OFFSET_CVP_NUMCLKS'' (Object (Int_const 0x21)),
     Define ''OFFSET_CVP_DATA'' (Object (Int_const 0x28)),
     Define ''OFFSET_CVP_PROG_CTRL'' (Object (Int_const 0x2C)),
     Define ''OFFSET_UNC_IE_STATUS'' (Object (Int_const 0x34)),
     Define ''OFFSET_UNC_IE_MASK'' (Object (Int_const 0x38)),
     Define ''OFFSET_C_IE_STATUS'' (Object (Int_const 0x3C)),
     Define ''OFFSET_C_IE_MASK'' (Object (Int_const 0x40))]"

definition cvp_masks :: "directive list" where
  "cvp_masks =
    [Define ''MASK_DATA_ENCRYPTED'' (Object (Int_const 0x01)),
     Define ''MASK_DATA_COMPRESSED'' (Object (Int_const 0x02)),
     Define ''MASK_CVP_CONFIG_READY'' (Object (Int_const 0x04)),
     Define ''MASK_CVP_CONFIG_ERROR'' (Object (Int_const 0x08)),
     Define ''MASK_CVP_EN'' (Object (Int_const 0x10)),
     Define ''MASK_USER_MODE'' (Object (Int_const 0x20)),
     Define ''MASK_PLD_CLK_IN_USE'' (Object (Int_const 0x01)),
     Define ''MASK_CVP_MODE'' (Object (Int_const 0x01)),
     Define ''MASK_HIP_CLK_SEL'' (Object (Int_const 0x02)),
     Define ''MASK_CVP_CONFIG'' (Object (Int_const 0x01)),
     Define ''MASK_START_XFER'' (Object (Int_const 0x02)),
     Define ''MASK_CVP_CFG_ERR_LATCH'' (Object (Int_const 0x20))]"

definition VSEC_BIT :: "(string \<times> int option) list" where
  "VSEC_BIT =
    [(''DATA_ENCRYPTED'', Some 0), (''DATA_COMPRESSED'', None), (''CVP_CONFIG_READY'', None),
     (''CVP_CONFIG_ERROR'', None), (''CVP_EN'', None), (''USER_MODE'', None),
     (''PLD_CLK_IN_USE'', None), (''CVP_MODE'', None), (''HIP_CLK_SEL'', None),
     (''CVP_CONFIG'', None), (''START_XFER'', None), (''CVP_CFG_ERR_LATCH'', None)]"

text \<open>
  The enumerators are numbered in order. The masks come in the same order; those of the status
  register are the bits with the numbers of their enumerators, and each other mask starts again
  at the bits of its own register.
\<close>

definition mask_numbers :: "(string \<times> int) list" where
  "mask_numbers = literals cvp_masks"

lemma VSEC_BIT_values: "map snd (enumerators 0 VSEC_BIT) = [0..11]"
  by (simp add: VSEC_BIT_def upto_rec1)

lemma masks_in_order:
  "map fst mask_numbers = map (\<lambda>(x, n). ''MASK_'' @ x) (enumerators 0 VSEC_BIT)"
  by (simp add: mask_numbers_def cvp_masks_def VSEC_BIT_def)

lemma status_masks:
  "take 6 (map snd mask_numbers) = map (\<lambda>(x, n). 2 ^ nat n) (take 6 (enumerators 0 VSEC_BIT))"
  by (simp add: mask_numbers_def cvp_masks_def VSEC_BIT_def)

lemma masks_are_bits: "set (map snd mask_numbers) \<subseteq> set (map (\<lambda>b. 2 ^ b) [0..<8])"
  by (simp add: mask_numbers_def cvp_masks_def upt_rec)

end
