(* ===== verification/Card_Reprogram.thy ===== *)
theory Card_Reprogram
  imports Card_Machine Reprogram
begin

section \<open>The reprogramming tool of the card (reprogram.c)\<close>

text \<open>
  The card's copy of \<open>reprogram.c\<close>, statement by statement, with an early \<open>return\<close> as the
  end of a branch and the label \<open>bad_exit\<close> as a program. The host answers as in
  \<^theory_text>\<open>Reprogram\<close>. A string built into the line buffer, and bytes read into memory that was
  not allocated, are faults. The tool keeps no state of its own between its functions.
\<close>

type_synonym 'a tool = "(unit, uhist, 'a) gprog"

subsection \<open>Calls of the tool\<close>

definition t_fopen :: "host \<Rightarrow> string \<Rightarrow> bool tool" where
  "t_fopen H name = call (\<lambda>h. (h_fopen H h name, Fopen name (h_fopen H h name) # h))"

definition t_event :: "uevent \<Rightarrow> unit tool" where
  "t_event e = exec (\<lambda>h. e # h)"

text \<open>\<open>fgets\<close> into a buffer: at most one character less than its size.\<close>

definition t_fgets :: "host \<Rightarrow> nat \<Rightarrow> string \<Rightarrow> string option tool" where
  "t_fgets H n name = call (\<lambda>h.
     let line = map_option (take (n - 1)) (h_fgets H h name) in (line, Fgets name line # h))"

definition t_ftell :: "host \<Rightarrow> string \<Rightarrow> nat tool" where
  "t_ftell H name = call (\<lambda>h. (h_ftell H h name, h))"

definition t_malloc :: "host \<Rightarrow> nat \<Rightarrow> ptr tool" where
  "t_malloc H n = call (\<lambda>h. (h_malloc H h n, Malloc n (h_malloc H h n) # h))"

definition t_fread :: "host \<Rightarrow> ptr \<Rightarrow> nat \<Rightarrow> string \<Rightarrow> u8 list tool" where
  "t_fread H buf n name =
     (if buf = 0 \<and> n \<noteq> 0 then fault []
      else call (\<lambda>h. (take n (h_fread H h name), Fread name (take n (h_fread H h name)) # h)))"

definition t_tmpnam :: "host \<Rightarrow> string tool" where
  "t_tmpnam H = call (\<lambda>h. (h_tmpnam H h, Tmpnam (h_tmpnam H h) # h))"

definition t_open :: "host \<Rightarrow> string \<Rightarrow> int tool" where
  "t_open H name = call (\<lambda>h. (h_open H h name, Open name (h_open H h name) # h))"

definition t_pkg_open :: "host \<Rightarrow> u8 list \<Rightarrow> nat tool" where
  "t_pkg_open H bs = call (\<lambda>h. (h_pkg_open H h bs, Pkg_open bs (h_pkg_open H h bs) # h))"

definition t_section_exists :: "host \<Rightarrow> nat \<Rightarrow> string \<Rightarrow> nat option tool" where
  "t_section_exists H pkg nm = call (\<lambda>h. (h_section_exists H h pkg nm, h))"

definition t_section_transient :: "host \<Rightarrow> nat \<Rightarrow> string \<Rightarrow> u8 list option tool" where
  "t_section_transient H pkg nm = call (\<lambda>h. (h_section_transient H h pkg nm, h))"

definition t_section_to_file :: "host \<Rightarrow> nat \<Rightarrow> string \<Rightarrow> string \<Rightarrow> bool tool" where
  "t_section_to_file H pkg nm file = call (\<lambda>h.
     let ok = h_section_to_file H h pkg nm file in (ok, Pkg_to_file pkg nm file ok # h))"

text \<open>\<open>sprintf\<close> into a buffer of \<open>n\<close> characters.\<close>

definition t_sprintf :: "nat \<Rightarrow> string \<Rightarrow> string tool" where
  "t_sprintf n s = (if length s + 1 > n then fault s else State_Monad.return s)"

lemmas tool_calls =
  t_fopen_def t_event_def t_fgets_def t_ftell_def t_malloc_def t_tmpnam_def t_open_def
  t_pkg_open_def t_section_exists_def t_section_transient_def t_section_to_file_def

subsection \<open>Files and bridges\<close>

definition tool_file_readable :: "host \<Rightarrow> string \<Rightarrow> bool tool" where
  "tool_file_readable H filename = do {
     f \<leftarrow> t_fopen H filename;
     if \<not> f then State_Monad.return False
     else do {
       t_event (Fclose filename);
       State_Monad.return True
     }
   }"

definition tool_disable_bridges :: "unit tool" where
  "tool_disable_bridges = do {
     t_event (System ''echo 0 > /sys/class/fpga-bridge/fpga2hps/enable'');
     t_event (System ''echo 0 > /sys/class/fpga-bridge/hps2fpga/enable'');
     t_event (System ''echo 0 > /sys/class/fpga-bridge/lwhps2fpga/enable'')
   }"

definition tool_enable_bridges :: "unit tool" where
  "tool_enable_bridges = do {
     t_event (System ''echo 1 > /sys/class/fpga-bridge/fpga2hps/enable'');
     t_event (System ''echo 1 > /sys/class/fpga-bridge/hps2fpga/enable'');
     t_event (System ''echo 1 > /sys/class/fpga-bridge/lwhps2fpga/enable'')
   }"

definition tool_fpga_in_user_mode :: "host \<Rightarrow> bool tool" where
  "tool_fpga_in_user_mode H = do {
     let buf_size = 1024;
     let file = ''/sys/class/fpga/fpga0/status'';
     status \<leftarrow> t_fopen H file;
     if \<not> status then State_Monad.return False
     else do {
       fgets_res \<leftarrow> t_fgets H buf_size file;
       t_event (Fclose file);
       case fgets_res of None \<Rightarrow> State_Monad.return False
       | Some buf \<Rightarrow> if \<not> strstr buf ''user mode'' then State_Monad.return False
                     else State_Monad.return True
     }
   }"

definition tool_prepare_fpga_for_reprogramming :: "int \<Rightarrow> unit tool" where
  "tool_prepare_fpga_for_reprogramming f = do {
     let read_cmd = \<lparr>bar_id = ACLPCI_CMD_BAR, command = ACLPCI_CMD_SAVE_PCI_CONTROL_REGS,
       device_addr = 0, user_addr = 0, cmd_size = 0, is_diff_endian = 0\<rparr>;
     t_event (Request f read_cmd);
     tool_disable_bridges
   }"

definition tool_enable_fpga_after_reprogramming :: "int \<Rightarrow> unit tool" where
  "tool_enable_fpga_after_reprogramming f = do {
     let read_cmd = \<lparr>bar_id = ACLPCI_CMD_BAR, command = ACLPCI_CMD_LOAD_PCI_CONTROL_REGS,
       device_addr = 0, user_addr = 0, cmd_size = 0, is_diff_endian = 0\<rparr>;
     tool_enable_bridges;
     t_event (Request f read_cmd)
   }"

definition tool_loadFileIntoMemory :: "host \<Rightarrow> string \<Rightarrow> (ptr \<times> u8 list) option tool" where
  "tool_loadFileIntoMemory H in_file = do {
     f \<leftarrow> t_fopen H in_file;
     if \<not> f then State_Monad.return None
     else do {
       file_size \<leftarrow> t_ftell H in_file;
       buf \<leftarrow> t_malloc H file_size;
       bytes \<leftarrow> t_fread H buf file_size in_file;
       t_event (Fclose in_file);
       if length bytes \<noteq> file_size then State_Monad.return None
       else State_Monad.return (Some (buf, bytes))
     }
   }"

subsection \<open>File names\<close>

definition tool_filename_has_ext :: "string \<Rightarrow> string \<Rightarrow> bool" where
  "tool_filename_has_ext filename ext \<longleftrightarrow>
     \<not> length ext > length filename \<and> drop (length filename - length ext) filename = ext"

text \<open>The three pointers are set one after the other.\<close>

definition tool_map_filenames :: "string \<Rightarrow> string option \<times> string option \<times> string option" where
  "tool_map_filenames filename =
     (let (aocx, rbf, fpga_bin) = (None, None, None);
          rbf = (if tool_filename_has_ext filename ''.rbf'' \<or> tool_filename_has_ext filename ''.RBF''
                 then Some filename else rbf);
          aocx = (if tool_filename_has_ext filename ''.aocx'' \<or> tool_filename_has_ext filename ''.AOCX''
                  then Some filename else aocx);
          fpga_bin = (if tool_filename_has_ext filename ''.bin'' \<or> tool_filename_has_ext filename ''.BIN''
                      then Some filename else fpga_bin)
      in (aocx, rbf, fpga_bin))"

subsection \<open>Reprogramming\<close>

definition tool_with_rbf :: "host \<Rightarrow> int \<Rightarrow> string option \<Rightarrow> int tool" where
  "tool_with_rbf H f rbf =
     (case rbf of None \<Rightarrow> State_Monad.return 1
      | Some name \<Rightarrow> do {
          readable \<leftarrow> tool_file_readable H name;
          if \<not> readable then State_Monad.return 1
          else do {
            buf \<leftarrow> t_sprintf 1024 (''cat '' @ name @ '' > /dev/fpga0'');
            tool_prepare_fpga_for_reprogramming f;
            t_event (System buf);
            tool_enable_fpga_after_reprogramming f;
            user \<leftarrow> tool_fpga_in_user_mode H;
            if user then State_Monad.return 0 else State_Monad.return 1
          }
        })"

definition tool_with_fpga_bin_image :: "host \<Rightarrow> int \<Rightarrow> nat \<Rightarrow> int tool" where
  "tool_with_fpga_bin_image H f pkg = do {
     rbf_size \<leftarrow> t_section_exists H pkg ACL_PKG_SECTION_RBF;
     if rbf_size = None then State_Monad.return 1
     else do {
       tmp_filename \<leftarrow> t_tmpnam H;
       ok \<leftarrow> t_section_to_file H pkg ACL_PKG_SECTION_RBF tmp_filename;
       if \<not> ok then State_Monad.return 1
       else do {
         res \<leftarrow> tool_with_rbf H f (Some tmp_filename);
         t_event (Remove tmp_filename);
         State_Monad.return res
       }
     }
   }"

definition tool_with_fpga_bin :: "host \<Rightarrow> int \<Rightarrow> string \<Rightarrow> int tool" where
  "tool_with_fpga_bin H f fpga_bin = do {
     image \<leftarrow> tool_loadFileIntoMemory H fpga_bin;
     case image of None \<Rightarrow> State_Monad.return 1
     | Some (p, bytes) \<Rightarrow> do {
         pkg \<leftarrow> t_pkg_open H bytes;
         if pkg = 0 then State_Monad.return 1
         else do {
           ret \<leftarrow> tool_with_fpga_bin_image H f pkg;
           t_event (Free p);
           State_Monad.return ret
         }
       }
   }"

definition tool_with_aocx :: "host \<Rightarrow> int \<Rightarrow> string \<Rightarrow> int tool" where
  "tool_with_aocx H f aocx = do {
     let bad_exit = (\<lambda>aocx_image. do { t_event (Free aocx_image); State_Monad.return 1 });
     image \<leftarrow> tool_loadFileIntoMemory H aocx;
     case image of None \<Rightarrow> bad_exit 0
     | Some (p, bytes) \<Rightarrow> do {
         pkg \<leftarrow> t_pkg_open H bytes;
         if pkg = 0 then bad_exit p
         else do {
           found \<leftarrow> t_section_exists H pkg ACL_PKG_SECTION_FPGA_BIN;
           case found of None \<Rightarrow> bad_exit p
           | Some fpga_bin_size \<Rightarrow> do {
               sect \<leftarrow> t_section_transient H pkg ACL_PKG_SECTION_FPGA_BIN;
               case sect of None \<Rightarrow> bad_exit p
               | Some fpga_bin_sect \<Rightarrow> do {
                   bin \<leftarrow> t_pkg_open H (take fpga_bin_size fpga_bin_sect);
                   if bin = 0 then bad_exit p else tool_with_fpga_bin_image H f bin
                 }
             }
         }
       }
   }"

definition tool_main :: "host \<Rightarrow> string list \<Rightarrow> int tool" where
  "tool_main H argv = do {
     t_event (Sigaction SIG_INT_NOTIFY);
     let ret = h_uninit_int H;
     if length argv \<noteq> 3 then State_Monad.return 1
     else do {
       f \<leftarrow> t_open H (argv ! 1);
       if f = -1 then State_Monad.return 1
       else do {
         let filename = argv ! 2;
         let (aocx, rbf, fpga_bin) = tool_map_filenames filename;
         ret \<leftarrow>
           (if rbf \<noteq> None then tool_with_rbf H f rbf
            else if aocx \<noteq> None then tool_with_aocx H f (the aocx)
            else if fpga_bin \<noteq> None then tool_with_fpga_bin H f (the fpga_bin)
            else State_Monad.return ret);
         t_event (Close f);
         State_Monad.return ret
       }
     }
   }"

subsection \<open>Against the functions\<close>

lemma run_calls [run_simps]:
  "run_state (t_fopen H n) (running u h) = (h_fopen H h n, running u (Fopen n (h_fopen H h n) # h))"
  "run_state (t_event e) (running u h) = ((), running u (e # h))"
  "run_state (t_ftell H n) (running u h) = (h_ftell H h n, running u h)"
  "run_state (t_malloc H k) (running u h) = (h_malloc H h k, running u (Malloc k (h_malloc H h k) # h))"
  "run_state (t_tmpnam H) (running u h) = (h_tmpnam H h, running u (Tmpnam (h_tmpnam H h) # h))"
  "run_state (t_open H n) (running u h) = (h_open H h n, running u (Open n (h_open H h n) # h))"
  "run_state (t_pkg_open H bs) (running u h) = (h_pkg_open H h bs, running u (Pkg_open bs (h_pkg_open H h bs) # h))"
  "run_state (t_section_exists H p n) (running u h) = (h_section_exists H h p n, running u h)"
  "run_state (t_section_transient H p n) (running u h) = (h_section_transient H h p n, running u h)"
  by (simp_all add: tool_calls run_simps)

lemma run_file_readable [run_simps]:
  "run_state (tool_file_readable H n) (running u h) =
     (fst (file_readable H n h), running u (snd (file_readable H n h)))"
  by (simp add: tool_file_readable_def file_readable_def run_simps Let_def)

lemma run_bridges [run_simps]:
  "run_state tool_disable_bridges (running u h) = ((), running u (disable_bridges h))"
  "run_state tool_enable_bridges (running u h) = ((), running u (enable_bridges h))"
  by (simp_all add: tool_disable_bridges_def tool_enable_bridges_def disable_bridges_def
      enable_bridges_def run_simps Let_def)

lemma run_board [run_simps]:
  "run_state (tool_prepare_fpga_for_reprogramming f) (running u h) =
     ((), running u (prepare_fpga_for_reprogramming f h))"
  "run_state (tool_enable_fpga_after_reprogramming f) (running u h) =
     ((), running u (enable_fpga_after_reprogramming f h))"
  by (simp_all add: tool_prepare_fpga_for_reprogramming_def tool_enable_fpga_after_reprogramming_def
      prepare_fpga_for_reprogramming_def enable_fpga_after_reprogramming_def board_cmd_def run_simps Let_def)

lemma run_user_mode [run_simps]:
  "run_state (tool_fpga_in_user_mode H) (running u h) =
     (fst (fpga_in_user_mode H h), running u (snd (fpga_in_user_mode H h)))"
  by (simp add: tool_fpga_in_user_mode_def fpga_in_user_mode_def status_file_def LINE_SIZE_def
      t_fgets_def run_simps Let_def split: option.split)

lemma run_load:
  assumes "acl_loadFileIntoMemory H n h = Some (r, h')"
  shows "run_state (tool_loadFileIntoMemory H n) (running u h) = (r, running u h')"
  using assms
  by (auto simp: tool_loadFileIntoMemory_def acl_loadFileIntoMemory_def t_fread_def run_simps Let_def
      split: if_splits)

lemma tool_filename_has_ext_eq: "tool_filename_has_ext = filename_has_ext"
  by (intro ext) (simp add: tool_filename_has_ext_def filename_has_ext_def Let_def)

lemma tool_map_filenames_eq: "tool_map_filenames n = map_filenames_to_aocx_and_rbf n"
  by (simp add: tool_map_filenames_def map_filenames_to_aocx_and_rbf_def tool_filename_has_ext_eq Let_def)

lemma run_with_rbf:
  assumes "reprogram_with_rbf H f rbf h = Some (r, h')"
  shows "run_state (tool_with_rbf H f rbf) (running u h) = (r, running u h')"
  using assms
  by (auto simp: tool_with_rbf_def reprogram_with_rbf_def t_sprintf_def program_cmd_def LINE_SIZE_def
      run_simps Let_def split: option.splits if_splits prod.splits)

lemma run_with_image:
  assumes "reprogram_with_fpga_bin_image H f pkg h = Some (r, h')"
  shows "run_state (tool_with_fpga_bin_image H f pkg) (running u h) = (r, running u h')"
  using assms
  by (auto simp: tool_with_fpga_bin_image_def reprogram_with_fpga_bin_image_def run_simps Let_def
      t_section_to_file_def run_with_rbf split: option.splits if_splits)

lemma run_with_fpga_bin:
  assumes "reprogram_with_fpga_bin H f n h = Some (r, h')"
  shows "run_state (tool_with_fpga_bin H f n) (running u h) = (r, running u h')"
proof -
  obtain image h1 where l: "acl_loadFileIntoMemory H n h = Some (image, h1)"
    using assms by (auto simp: reprogram_with_fpga_bin_def bind_Some_iff)
  show ?thesis
    using assms l run_load [OF l]
    by (auto simp: tool_with_fpga_bin_def reprogram_with_fpga_bin_def bind_Some_iff run_simps Let_def
        run_with_image split: option.splits if_splits)
qed

lemma run_with_aocx:
  assumes "reprogram_with_aocx H f n h = Some (r, h')"
  shows "run_state (tool_with_aocx H f n) (running u h) = (r, running u h')"
proof -
  obtain image h1 where l: "acl_loadFileIntoMemory H n h = Some (image, h1)"
    using assms by (auto simp: reprogram_with_aocx_def bind_Some_iff)
  show ?thesis
    using assms l run_load [OF l]
    by (auto simp: tool_with_aocx_def reprogram_with_aocx_def run_simps Let_def
        run_with_image split: option.splits if_splits)
qed

lemma run_main:
  assumes "reprogram_main H argv h = Some (r, h')"
  shows "run_state (tool_main H argv) (running u h) = (r, running u h')"
  using assms
  by (auto simp: tool_main_def reprogram_main_def run_simps Let_def tool_map_filenames_eq
      run_with_rbf run_with_aocx run_with_fpga_bin split: option.splits if_splits prod.splits)

end
