(* ===== verification/Card_Diagnostic.thy ===== *)
theory Card_Diagnostic
  imports Card_Machine Diagnostic
begin

section \<open>The diagnostic program of the card (diagnostic.c)\<close>

text \<open>
  The card's copy of \<open>diagnostic.c\<close>, statement by statement. The object of the machine holds
  the static variables of the file and the contents of the two buffers; a buffer fresh from
  \<open>malloc\<close> holds whatever the parameter \<open>junk\<close> says. A call of \<open>exit\<close> ends the functions on
  the stack: a program is \<^const>\<open>Inl\<close> of the exit code or \<^const>\<open>Inr\<close> of its result, and
  \<open>and_then\<close> goes on only in the second case.
\<close>

record diag =
  dg_status :: int
  dg_platform :: nat
  dg_device :: nat
  dg_handles :: handles
  dg_buf1 :: "u8 list"
  dg_buf2 :: "u8 list"

type_synonym 'a dprog = "(diag, clhist, 'a) gprog"

definition statics :: diag where
  "statics = \<lparr>dg_status = 0, dg_platform = 0, dg_device = 0, dg_handles = no_handles,
     dg_buf1 = [], dg_buf2 = []\<rparr>"

subsection \<open>Calls\<close>

definition and_then :: "(int + 'a) dprog \<Rightarrow> ('a \<Rightarrow> (int + 'b) dprog) \<Rightarrow> (int + 'b) dprog" where
  "and_then m f = do {
     x \<leftarrow> m;
     case x of Inl e \<Rightarrow> State_Monad.return (Inl e) | Inr v \<Rightarrow> f v
   }"

definition d_event :: "clevent \<Rightarrow> unit dprog" where
  "d_event e = exec (\<lambda>h. e # h)"

text \<open>\<open>status = f(...)\<close>, and a call that returns an object and the status.\<close>

definition d_status :: "(clhist \<Rightarrow> int) \<Rightarrow> (int \<Rightarrow> clevent) \<Rightarrow> unit dprog" where
  "d_status f ev = do {
     st \<leftarrow> call (\<lambda>h. (f h, ev (f h) # h));
     upd (\<lambda>x. x\<lparr>dg_status := st\<rparr>)
   }"

definition d_object :: "(clhist \<Rightarrow> nat \<times> int) \<Rightarrow> (nat \<Rightarrow> int \<Rightarrow> clevent) \<Rightarrow> nat dprog" where
  "d_object f ev = do {
     (ob, st) \<leftarrow> call (\<lambda>h. (f h, ev (fst (f h)) (snd (f h)) # h));
     upd (\<lambda>x. x\<lparr>dg_status := st\<rparr>);
     State_Monad.return ob
   }"

definition d_malloc :: "rt \<Rightarrow> nat \<Rightarrow> ptr dprog" where
  "d_malloc R n = call (\<lambda>h. (r_malloc R h n, Malloc_buf n (r_malloc R h n) # h))"

subsection \<open>The program\<close>

definition diag_freeResources :: "unit dprog" where
  "diag_freeResources = do {
     g \<leftarrow> fld dg_handles;
     (if clkernel g \<noteq> 0 then d_event (Release_kernel (clkernel g)) else skip);
     (if clprogram g \<noteq> 0 then d_event (Release_program (clprogram g)) else skip);
     (if clqueue g \<noteq> 0 then d_event (Release_queue (clqueue g)) else skip);
     (if clcontext g \<noteq> 0 then d_event (Release_context (clcontext g)) else skip)
   }"

definition diag_dump_error :: "(int + 'a) dprog" where
  "diag_dump_error = do {
     diag_freeResources;
     State_Monad.return (Inl (-1))
   }"

text \<open>\<open>if (status != CL_SUCCESS) dump_error(...)\<close>.\<close>

definition diag_check :: "(int + unit) dprog" where
  "diag_check = do {
     st \<leftarrow> fld dg_status;
     if st \<noteq> CL_SUCCESS then diag_dump_error else State_Monad.return (Inr ())
   }"

definition diag_device_init :: "rt \<Rightarrow> (int + unit) dprog" where
  "diag_device_init R = do {
     d_status (r_num_platforms R) Get_platforms;
     and_then diag_check (\<lambda>_. do {
       platform \<leftarrow> d_object (r_platform R) Get_platform;
       upd (\<lambda>x. x\<lparr>dg_platform := platform\<rparr>);
       and_then diag_check (\<lambda>_. do {
         device \<leftarrow> d_object (r_device R) Get_devices;
         upd (\<lambda>x. x\<lparr>dg_device := device\<rparr>);
         and_then diag_check (\<lambda>_. do {
           d_status (r_info R) Device_info;
           d_status (r_info R) Device_info;
           context \<leftarrow> d_object (r_context R) Create_context;
           upd (\<lambda>x. x\<lparr>dg_handles := (dg_handles x)\<lparr>clcontext := context\<rparr>\<rparr>);
           and_then diag_check (\<lambda>_. do {
             queue \<leftarrow> d_object (r_queue R) Create_queue;
             upd (\<lambda>x. x\<lparr>dg_handles := (dg_handles x)\<lparr>clqueue := queue\<rparr>\<rparr>);
             diag_check
           })
         })
       })
     })
   }"

definition diag_basic_tests :: "rt \<Rightarrow> int dprog" where
  "diag_basic_tests R = do {
     let cmd = ''cat /proc/modules | grep \"aclsoc_drv\" > /dev/null'';
     missing \<leftarrow> call (\<lambda>h. (r_system R h cmd, Shell cmd (r_system R h cmd) # h));
     if missing \<noteq> 0 then State_Monad.return (-1)
     else do {
       let dev_name = ''/dev/acl0'';
       f \<leftarrow> call (\<lambda>h. (r_open R h dev_name, Open_dev dev_name (r_open R h dev_name) # h));
       if f = -1 then State_Monad.return (-1)
       else do {
         d_event (Close_dev f);
         State_Monad.return 0
       }
     }
   }"

text \<open>The two loops of the buffer test.\<close>

definition diag_fill :: "unit dprog" where
  "diag_fill = for_loop 0 SHARED_BUFFER_SIZE (\<lambda>i. do {
     upd (\<lambda>x. x\<lparr>dg_buf1 := (dg_buf1 x)[i := of_nat i]\<rparr>);
     upd (\<lambda>x. x\<lparr>dg_buf2 := (dg_buf2 x)[i := -1]\<rparr>)
   })"

definition diag_compare :: "nat \<Rightarrow> nat \<Rightarrow> int option dprog" where
  "diag_compare start n = for_break start n (\<lambda>i. do {
     buf1 \<leftarrow> fld dg_buf1;
     buf2 \<leftarrow> fld dg_buf2;
     if buf1 ! i \<noteq> buf2 ! i then do {
       diag_freeResources;
       State_Monad.return (Some (-1))
     } else State_Monad.return None
   })"

text \<open>The part of \<open>scan_device\<close> after the two allocations.\<close>

definition diag_buffer_test :: "rt \<Rightarrow> (nat \<Rightarrow> u8) \<Rightarrow> ptr \<Rightarrow> ptr \<Rightarrow> (int + int) dprog" where
  "diag_buffer_test R junk p1 p2 = do {
     upd (\<lambda>x. x\<lparr>dg_buf1 := map junk [0..<SHARED_BUFFER_SIZE],
                dg_buf2 := map junk [0..<SHARED_BUFFER_SIZE]\<rparr>);
     diag_fill;
     in1 \<leftarrow> d_object (\<lambda>h. r_buffer R h SHARED_BUFFER_SIZE) (Create_buffer SHARED_BUFFER_SIZE);
     and_then diag_check (\<lambda>_. do {
       buf1 \<leftarrow> fld dg_buf1;
       d_status (\<lambda>h. r_write R h in1 buf1) (Write_buffer in1 buf1);
       and_then diag_check (\<lambda>_. do {
         buf2 \<leftarrow> fld dg_buf2;
         (new, st) \<leftarrow> call (\<lambda>h. (r_read R h in1 buf2,
            Read_buffer in1 (fst (r_read R h in1 buf2)) (snd (r_read R h in1 buf2)) # h));
         upd (\<lambda>x. x\<lparr>dg_buf2 := new, dg_status := st\<rparr>);
         and_then diag_check (\<lambda>_. do {
           left \<leftarrow> diag_compare 0 SHARED_BUFFER_SIZE;
           case left of Some r \<Rightarrow> State_Monad.return (Inr r)
           | None \<Rightarrow> do {
               d_event (Free_buf p1);
               d_event (Free_buf p2);
               d_event (Release_mem in1);
               diag_freeResources;
               State_Monad.return (Inr 0)
             }
         })
       })
     })
   }"

definition diag_scan_device :: "rt \<Rightarrow> (nat \<Rightarrow> u8) \<Rightarrow> (int + int) dprog" where
  "diag_scan_device R junk = and_then (diag_device_init R) (\<lambda>_. do {
     d_status (r_info R) Device_info;
     and_then diag_check (\<lambda>_. do {
       d_status (r_info R) Device_info;
       and_then diag_check (\<lambda>_. do {
         p1 \<leftarrow> d_malloc R SHARED_BUFFER_SIZE;
         p2 \<leftarrow> d_malloc R SHARED_BUFFER_SIZE;
         if p1 = 0 \<or> p2 = 0 then diag_dump_error
         else diag_buffer_test R junk p1 p2
       })
     })
   })"

definition diag_main :: "rt \<Rightarrow> (nat \<Rightarrow> u8) \<Rightarrow> int dprog" where
  "diag_main R junk = do {
     r \<leftarrow> diag_basic_tests R;
     if r \<noteq> 0 then State_Monad.return 1
     else do {
       r \<leftarrow> diag_scan_device R junk;
       case r of Inl e \<Rightarrow> State_Monad.return e
       | Inr r \<Rightarrow> if r \<noteq> 0 then State_Monad.return 1 else State_Monad.return 0
     }
   }"

subsection \<open>Against the functions\<close>

lemma run_diag_calls [run_simps]:
  "run_state (d_event e) (running x h) = ((), running x (e # h))"
  "run_state (d_status f ev) (running x h) = ((), running (x\<lparr>dg_status := f h\<rparr>) (ev (f h) # h))"
  "run_state (d_object q ew) (running x h) =
     (fst (q h), running (x\<lparr>dg_status := snd (q h)\<rparr>) (ew (fst (q h)) (snd (q h)) # h))"
  "run_state (d_malloc R n) (running x h) = (r_malloc R h n, running x (Malloc_buf n (r_malloc R h n) # h))"
  by (simp_all add: d_event_def d_status_def d_object_def d_malloc_def run_simps split_def)

lemma run_and_then [run_simps]:
  "run_state (and_then m f) s =
     (case run_state m s of (Inl e, s) \<Rightarrow> (Inl e, s) | (Inr v, s) \<Rightarrow> run_state (f v) s)"
  by (simp add: and_then_def run_simps split_def split: sum.split)

lemma run_free [run_simps]:
  "run_state diag_freeResources (running x h) = ((), running x (freeResources (dg_handles x) h))"
  by (simp add: diag_freeResources_def freeResources_def run_simps Let_def)

lemma run_dump [run_simps]:
  "run_state diag_dump_error (running x h) = (Inl (-1), running x (freeResources (dg_handles x) h))"
  by (simp add: diag_dump_error_def run_simps)

lemma run_check [run_simps]:
  "run_state diag_check (running x h) =
     (if dg_status x \<noteq> CL_SUCCESS then (Inl (-1), running x (freeResources (dg_handles x) h))
      else (Inr (), running x h))"
  by (simp add: diag_check_def run_simps)

lemma run_basic_tests [run_simps]:
  "run_state (diag_basic_tests R) (running x h) =
     (fst (general_basic_tests R h), running x (snd (general_basic_tests R h)))"
  by (simp add: diag_basic_tests_def general_basic_tests_def run_simps Let_def)

lemma run_device_init:
  "\<exists>y. run_state (diag_device_init R) (running x h) =
      (case ocl_device_init R (dg_handles x) h of
         (Inl e, h') \<Rightarrow> (Inl e, running y h')
       | (Inr g, h') \<Rightarrow> (Inr (), running y h')) \<and>
    (\<forall>g h'. ocl_device_init R (dg_handles x) h = (Inr g, h') \<longrightarrow> dg_handles y = g)"
  by (simp add: diag_device_init_def ocl_device_init_def dump_error_def run_simps Let_def split_def)
    auto

lemma run_fill_from:
  assumes "length (dg_buf1 x) = s + n" "length (dg_buf2 x) = s + n"
    "take s (dg_buf1 x) = map of_nat [0..<s]" "take s (dg_buf2 x) = replicate s (-1)"
  shows "run_state (for_loop s n (\<lambda>i. do {
      upd (\<lambda>x. x\<lparr>dg_buf1 := (dg_buf1 x)[i := of_nat i]\<rparr>);
      upd (\<lambda>x. x\<lparr>dg_buf2 := (dg_buf2 x)[i := -1]\<rparr>)
    })) (running x h) =
    ((), running (x\<lparr>dg_buf1 := map of_nat [0..<s + n], dg_buf2 := replicate (s + n) (-1)\<rparr>) h)"
  using assms
proof (induction n arbitrary: s x)
  case 0
  then have "dg_buf1 x = map of_nat [0..<s]" "dg_buf2 x = replicate s (-1)" by simp_all
  then show ?case by (cases x) (simp add: run_simps)
next
  case (Suc n)
  let ?x = "x\<lparr>dg_buf1 := (dg_buf1 x)[s := of_nat s], dg_buf2 := (dg_buf2 x)[s := -1]\<rparr>"
  have "take (Suc s) (dg_buf1 ?x) = map of_nat [0..<Suc s]" "take (Suc s) (dg_buf2 ?x) = replicate (Suc s) (-1)"
    using Suc.prems by (simp_all add: take_Suc_conv_app_nth replicate_append_same)
  with Suc.prems Suc.IH [where s = "Suc s" and x = ?x] show ?case by (simp add: run_simps)
qed

lemma run_compare:
  "run_state (diag_compare s n) (running x h) =
     (case find (\<lambda>i. dg_buf1 x ! i \<noteq> dg_buf2 x ! i) [s..<s + n] of
        Some i \<Rightarrow> (Some (-1), running x (freeResources (dg_handles x) h))
      | None \<Rightarrow> (None, running x h))"
proof (induction n arbitrary: s)
  case 0
  then show ?case by (simp add: diag_compare_def run_simps)
next
  case (Suc n)
  have u: "[s..<s + Suc n] = s # [Suc s..<Suc s + n]" by (simp add: upt_conv_Cons)
  show ?case
    using Suc.IH [of "Suc s"] unfolding u
    by (auto simp: diag_compare_def run_simps simp del: upt_Suc split: option.splits)
qed

lemma run_fill:
  assumes "length (dg_buf1 x) = SHARED_BUFFER_SIZE" "length (dg_buf2 x) = SHARED_BUFFER_SIZE"
  shows "run_state diag_fill (running x h) =
    ((), running (x\<lparr>dg_buf1 := map of_nat [0..<SHARED_BUFFER_SIZE],
                     dg_buf2 := replicate SHARED_BUFFER_SIZE (-1)\<rparr>) h)"
  using run_fill_from [of x 0 SHARED_BUFFER_SIZE] assms by (simp add: diag_fill_def)

lemma diag_updates:
  "x\<lparr>dg_status := a, dg_buf1 := b\<rparr> = x\<lparr>dg_buf1 := b, dg_status := a\<rparr>"
  "x\<lparr>dg_status := a, dg_buf2 := c\<rparr> = x\<lparr>dg_buf2 := c, dg_status := a\<rparr>"
  by (cases x, simp)+

lemma run_buffer_test:
  "\<exists>y. run_state (diag_buffer_test R junk p1 p2) (running x h) =
     (fst (buffer_test R (dg_handles x) p1 p2 h), running y (snd (buffer_test R (dg_handles x) p1 p2 h)))"
  unfolding diag_buffer_test_def buffer_test_def
  by (simp add: run_simps run_fill run_compare first_mismatch_def dump_error_def Let_def split_def
      split: option.split cong: if_cong) auto

lemma run_scan:
  "\<exists>y. run_state (diag_scan_device R junk) (running statics h) =
     (fst (scan_device R h), running y (snd (scan_device R h)))"
proof -
  obtain res h1 where i: "ocl_device_init R no_handles h = (res, h1)" by force
  have "dg_handles statics = no_handles" by (simp add: statics_def)
  with run_device_init [of R statics h] i obtain y where
    y: "run_state (diag_device_init R) (running statics h) =
      (case res of Inl e \<Rightarrow> Inl e | Inr g \<Rightarrow> Inr (), running y h1)" "\<forall>g. res = Inr g \<longrightarrow> dg_handles y = g"
    by (cases res) auto
  show ?thesis
  proof (cases res)
    case (Inl e)
    with y i show ?thesis
      by (intro exI [of _ y]) (simp add: diag_scan_device_def scan_device_def run_simps)
  next
    case (Inr g)
    have g: "dg_handles y = g" using y(2) Inr by simp
    show ?thesis
      unfolding diag_scan_device_def scan_device_def
      using y(1) i Inr g run_buffer_test [where x = "y\<lparr>dg_status := CL_SUCCESS\<rparr>"]
      by (auto simp: run_simps dump_error_def Let_def)
  qed
qed

lemma run_diag_main:
  "\<exists>y. run_state (diag_main R junk) (running statics h) =
     (fst (diagnostic_main R h), running y (snd (diagnostic_main R h)))"
proof -
  obtain r h1 where t: "general_basic_tests R h = (r, h1)" by force
  show ?thesis
    using run_scan [of R junk h1] t
    by (auto simp: diag_main_def diagnostic_main_def run_simps Let_def split_def split: sum.split)
qed

end
