(* ===== verification/Spec2Isabelle.thy ===== *)
theory Spec2Isabelle
  imports Acl_Example Acl_Board Acl_Race Acl_Exclusion Acl_Signals Card_Platform Card_Headers Unused_Headers Card_Reprogram Card_Diagnostic
begin

text \<open>
  \<^bold>\<open>A verification library for the OpenCL board support package of the Cyclone V SoC board.\<close>

  The repository turns the board into an OpenCL accelerator. Its own program logic is C code:
  a Linux kernel driver (\<^verbatim>\<open>src/c5soc/driver\<close>: \<^verbatim>\<open>aclsoc.c\<close>, \<^verbatim>\<open>aclsoc_fileio.c\<close>,
  \<^verbatim>\<open>aclsoc_cmd.c\<close> and their headers), three programs that use it (\<^verbatim>\<open>user.c\<close>, a tester of the
  board; \<^verbatim>\<open>reprogram.c\<close>, which loads a design into the FPGA; \<^verbatim>\<open>diagnostic.c\<close>, an installation
  check), and a second copy of all of it as it is installed on the SD card
  (\<^verbatim>\<open>src/sd_card/lin_part/opencl_arm32_rte/board/c5soc/driver\<close>).

  \<^bold>\<open>How the parts work together.\<close> A process opens the device file and passes a \<^verbatim>\<open>struct acl_cmd\<close>
  to \<open>read()\<close> or \<open>write()\<close>. The driver takes its semaphore, copies the command in, and either
  runs a special command or checks the address and moves bytes between the process and one of
  two bridges into the FPGA: the window of global memory (region 0) and the control registers
  (region 2). \<open>mmap()\<close> hands out physically contiguous buffers kept in a table with reference
  counts; a command looks the bus address of a buffer up. An interrupt of the FPGA is masked and
  passed to the process as a signal, and the process enables it again. The reprogramming tool
  quiets the board through two of the commands, closes the bridges and sends the design.

  \<^bold>\<open>The environment.\<close> The kernel, the registers and user memory are no code of the repository. They
  are a record \<^typ>\<open>kernel\<close> of answers that may depend on all calls made before
  (\<^theory_text>\<open>Kernel_Env\<close>); every call is recorded in a history. The host of the reprogramming tool
  (\<^typ>\<open>host\<close>, with the package reader \<open>pkg_editor\<close>, which is not in the repository), the OpenCL
  runtime (\<^typ>\<open>rt\<close>) and the operating system under the tester (\<^typ>\<open>system\<close>) are such
  records too. The record \<^typ>\<open>outcomes\<close> says which of the commands and requests of the
  reprogramming tool, whose results it ignores, did their work. What a theorem relies on is a named hypothesis over the answers: \<^const>\<open>backed\<close>
  (memories keep what is stored), \<^const>\<open>kref_ok\<close> (reference counters),
  \<^const>\<open>mmap_granted\<close>, \<^const>\<open>mmap_placed\<close>, \<^const>\<open>mmap_succeeds\<close>, and for the headers
  \<^const>\<open>words_layout\<close> (the structures of the kernel consist of words). Theory
  \<^theory_text>\<open>Acl_Example\<close> and the witnesses have concrete instances of all of them.

  \<^bold>\<open>Faults.\<close> A memory access outside a buffer or through a null or dangling pointer has no value:
  an operation is then \<^const>\<open>None\<close>, so a theorem that says \<^const>\<open>Some\<close> says that the code does
  not fault. Errors of the code are its negative result codes. Machine integers are words of
  their width: sums of addresses wrap as in C.

  \<^bold>\<open>The theories of the driver.\<close>
  \<^item> \<^theory_text>\<open>Acl_Prelude\<close>: types, little-endian encodings, checked buffers, bytes at consecutive
    addresses, and the collections \<open>hw_consts\<close>, \<open>env_simps\<close> and \<open>trace_simps\<close> of simplification
    rules. \<^theory_text>\<open>Acl_Exports\<close>: the headers shared with user space, with the layout of
    \<^verbatim>\<open>struct acl_cmd\<close> and its round trip. \<^theory_text>\<open>Acl_Board\<close>: the remaining constants of
    \<^verbatim>\<open>hw_pcie_constants.h\<close> and its bit macros as functions on words.
  \<^item> \<^theory_text>\<open>Acl_Device\<close>: \<^verbatim>\<open>struct aclsoc_dev\<close> as the record \<^typ>\<open>aclsoc_dev\<close> and the invariant
    \<^const>\<open>dev_wf\<close> of a probed device.
  \<^item> \<^theory_text>\<open>Acl_Irq\<close>, \<^theory_text>\<open>Acl_Mmap\<close>, \<^theory_text>\<open>Acl_Module\<close>: \<^verbatim>\<open>aclsoc.c\<close>, that is interrupts with an
    abstract machine of the line they refine, the table of buffers with its ledger of DMA memory,
    and loading and unloading with every error label.
  \<^item> \<^theory_text>\<open>Acl_Table\<close>: the table as a finite map, the locale \<open>phys_table\<close> of what the lookup command
    relies on, and its interpretation. The command looks at 128 of the 204 slots and stops at the
    first free one, so the laws need a table without holes and room below 128. Series of
    successful calls of \<open>mmap()\<close> are the relation \<^const>\<open>mappings\<close>.
  \<^item> \<^theory_text>\<open>Acl_Fileio\<close>, \<^theory_text>\<open>Acl_Cmd\<close>, \<^theory_text>\<open>Acl_Rw\<close>: \<^verbatim>\<open>aclsoc_fileio.c\<close> and \<^verbatim>\<open>aclsoc_cmd.c\<close>,
    every function and every case of the switch, and the routing of requests with its
    specification over the integers.
  \<^item> \<^theory_text>\<open>Driver_Ops\<close>: the tables of operations the driver registers, through which the kernel
    reaches it.
  \<^item> \<^theory_text>\<open>Acl_Transfer\<close>, \<^theory_text>\<open>Acl_Rw_Correct\<close>, \<^theory_text>\<open>Acl_Request\<close>: transfers of any length against
    a byte-level specification, for every environment; the effect of a whole system call.
  \<^item> \<^theory_text>\<open>Acl_Answers\<close>, \<^theory_text>\<open>Acl_Memory\<close>: the same when memory keeps what is stored, where a
    request is a copy between two memories.
  \<^item> \<^theory_text>\<open>Acl_Lock\<close>: the locale \<open>guarded_call\<close>, the contract of an entry point that runs under the
    semaphore, interpreted for \<open>open\<close>, \<open>close\<close>, \<open>read\<close> and \<open>write\<close>.
  \<^item> \<^theory_text>\<open>Acl_Exclusion\<close>: schedules of single kernel calls of several processes; calls under the
    contract run one after the other.
  \<^item> \<^theory_text>\<open>Acl_Roundtrip\<close>: a read after a write on memory that keeps what is stored.
  \<^item> \<^theory_text>\<open>Acl_Load\<close>, \<^theory_text>\<open>Acl_System\<close>: what loading acquires and unloading releases, and the loaded
    driver as a step relation in which calls, mappings and interrupts come in any order; its
    invariant covers the device, the reference counts, the DMA ledger and the lock.
  \<^item> \<^theory_text>\<open>Acl_Signals\<close>: the entries into the driver as data, with a function that makes them; it
    agrees with the step relation, and the task that gets the signals is followed along sequences.
  \<^item> \<^theory_text>\<open>Acl_Race\<close>: \<open>mmap()\<close> cut into steps, with schedules of two calls.

  \<^bold>\<open>The theories of the programs.\<close> \<^theory_text>\<open>User_Test\<close> has the accessors and memory tests of \<^verbatim>\<open>user.c\<close>
  over the locale \<open>memory_board\<close> and its extension \<open>register_board\<close>; \<^theory_text>\<open>User_Machine\<close> is a
  machine with private memory, physical memory, mappings and open files on which the modelled
  driver is an interpretation of both; \<^theory_text>\<open>User_Main\<close> has \<open>test_mmap\<close>, \<open>dump_ddr\<close> and
  \<open>main\<close>. The name of the device file the tester opens, \<^verbatim>\<open>/dev/acl\<close>, is taken to lead to the device
  the driver creates. \<^theory_text>\<open>Reprogram\<close> and \<^theory_text>\<open>Diagnostic\<close> model the other two, the first with a
  state machine of bridges and interrupt line, the second with a ledger of OpenCL objects.

  \<^bold>\<open>The installed copy.\<close> The theories \<open>Card_*\<close> translate the SD card's copy on its own, statement by
  statement, in the state monad of \<^theory_text>\<open>Card_Machine\<close>: fields are updated in place, loops stay
  loops, labels are programs named by \<open>let\<close>, and a flag is raised by a fault. \<^theory_text>\<open>Card_Aclsoc\<close>,
  \<^theory_text>\<open>Card_Fileio\<close>, \<^theory_text>\<open>Card_Cmd\<close>, \<^theory_text>\<open>Card_Module\<close>, \<^theory_text>\<open>Card_Reprogram\<close>,
  \<^theory_text>\<open>Card_Diagnostic\<close> and \<^theory_text>\<open>Card_User\<close> follow the files; \<^theory_text>\<open>Card_Rw\<close> relates the file
  operations, \<^theory_text>\<open>Card_System\<close> is the installed driver as a step relation of its own,
  \<^theory_text>\<open>Card_Contract\<close> has the contracts of the other copy, interpreted for this one, and
  \<^theory_text>\<open>Card_Platform\<close> the machine with the installed driver in its kernel, an interpretation of the
  locales of the tester, on which the installed tester runs. The
  theorems of equivalence say that both copies behave alike, except for the version string, so
  the properties proved of the functions hold of what is installed. \<^theory_text>\<open>Card_Headers\<close> has the
  headers of the copy as the text they are, directives and typed members, read after any macros of
  the kernel's headers; \<^theory_text>\<open>C_Language\<close> has the preprocessor, the constant expressions and the layout of structures that give them a meaning.
  \<^theory_text>\<open>Unused_Headers\<close> has the two headers that no file includes.

  \<^bold>\<open>Bounds.\<close> No definition uses fuel. The loops over the table are bounded by its 204 slots and by
  128 in the lookup; the loop over a transfer by the bytes left, of which each turn takes at most
  the 4096 of the driver's buffer. The card's \<open>while\<close> loop is \<^const>\<open>while_option\<close>, which is
  \<^const>\<open>None\<close> for a loop that does not end; C9 shows that it ends and bounds the calls it makes.
  The reference counters are 32 bits wide: the step relation admits fewer than \<^const>\<open>MAX_MAPS\<close>
  mappings at a time. The tests of the tester use their own sizes: 40 bytes, three pages, seven
  megabytes.

  \<^bold>\<open>What the properties say.\<close> C1 to C5: the tester passes on the driver and a memory that keeps what is
  stored, and so do the installed tester and driver; a request is a copy, and what was written is
  read back. C6 to C14: the running driver keeps its invariant and gives everything back; a request
  moves exactly its bytes, ends, stays in its region, excludes the others while it runs and goes
  where the specification of the routing says. C15 to C20: the installed copy, as a state machine,
  against the functions, and its headers. The rest: interrupts and whom
  they signal, reprogramming, loading, mappings and their races, the
  diagnostic program, the commands that are refused, and the places where the code does not do
  what it means to: a two-byte write that stores four bytes, a sum that wraps, a lookup that stops at a hole, a task that is
  signalled after it has closed the device, error paths that leak or leave a dangling pointer, a
  line buffer without a bound.

  \<^bold>\<open>Not modelled.\<close> Log messages and printed text, apart from the values the tester finds to differ;
  measurements of time; the branch of \<open>POLLING\<close> and big-endian machines, which the headers switch
  off; the contents of the OpenCL runtime and its headers under
  \<^verbatim>\<open>host/include/CL\<close>, which are third-party code; the hardware design, build files and scripts.
\<close>

section \<open>The tester and the requests it makes\<close>

text \<open>
  C1. The board tester as a whole: from a machine whose device is well formed and whose first
  table slot is unused, with its files opened and its mappings granted, main() runs to its end
  with exit code 0. Every assertion of every test holds, the bridges have been enabled, no
  mapping is left and the table of buffers is as it was.
\<close>

theorem tester_runs_through:
  assumes "main_env S fr fr' mf" "dev_wf (mdev m)" "pages m = []" "addr_map_mem (mdev m) = zero_elem # es"
  shows "\<exists>m'. user_main (board_proc S) fr fr' mf m = Some (0, m') \<and> dev_wf (mdev m') \<and>
    addr_map_mem (mdev m') = addr_map_mem (mdev m) \<and> pages m' = [] \<and>
    shell m' = bridge_commands @ shell m"
  by (rule user_main_run [OF assms])

theorem tester_runs_through_witness:
  "\<exists>m'. user_main (board_proc system0) frame0 frame0 mframe0 machine0 = Some (0, m') \<and>
    shell m' = bridge_commands"
  using tester_runs_through [OF system0_main _ _ machine0_table] dev0_wf
  by (auto simp: machine0_def)

text \<open>
  C2. The same of what is installed on the card: its tester, run on its driver, faults
  nowhere, neither in the process nor in the kernel, exits with code 0 and prints no differing
  value; the bridges have been enabled, no mapping is left and the table of buffers is as it
  was.
\<close>

theorem installed_tester_runs_through:
  assumes "main_env S fr fr' mf" "dev_wf (mdev m)" "pages m = []" "addr_map_mem (mdev m) = zero_elem # es"
  shows "\<exists>m'. outcome (ut_main (card_proc S) fr fr' mf) m [] = Some (0, m', []) \<and> dev_wf (mdev m') \<and>
    addr_map_mem (mdev m') = addr_map_mem (mdev m) \<and> pages m' = [] \<and>
    shell m' = bridge_commands @ shell m"
  using installed_tester_passes [OF assms] by (metis passes_ut_main outcome_running)

theorem installed_tester_runs_through_witness:
  "\<exists>m'. outcome (ut_main (card_proc system0) frame0 frame0 mframe0) machine0 [] = Some (0, m', []) \<and>
    shell m' = bridge_commands"
  using installed_tester_runs_through [OF system0_main _ _ machine0_table] dev0_wf
  by (auto simp: machine0_def)

text \<open>
  C3. On memory that keeps what is stored, read() of a request the routing accepts returns 0,
  puts exactly the addressed bytes of the board into the user's buffer and leaves the board's
  memory alone.
\<close>

theorem read_copies_to_user:
  assumes "dev_wf d" "backed K um dm" "load um buf sizeof_acl_cmd = encode_cmd c"
    "bar_id c \<noteq> ACLPCI_CMD_BAR" "no_wrap c" "rw_target c \<noteq> Refused"
  shows "\<exists>d' h. aclsoc_read K buf d [] = Some (0, d', h) \<and> keeps d d' \<and>
    user_view um h = store (user_addr c)
      (load dm (region_of d (rw_target c) + device_addr c) (unat (cmd_size c))) um \<and>
    dev_view dm h = dm"
proof -
  have "request_addr c d = (region_of d (rw_target c) + device_addr c, 0)"
    using request_addr_target [OF assms(5,1)] assms(6) by (simp add: region_of_def split: target.splits)
  from aclsoc_read_backed [OF assms(1,2) _ _ assms(4) this, of "[]" buf] assms(3) show ?thesis by simp
qed

theorem read_copies_to_user_witness:
  "\<exists>d' h. aclsoc_read (kern_with (mk_cmd 0 0x10000 0x500 6)) 0 dev0 [] = Some (0, d', h) \<and> keeps dev0 d' \<and>
    user_view (mem_with (mk_cmd 0 0x10000 0x500 6)) h = store 0x500
      (load (\<lambda>_. 0) (region_of dev0 GlobalMem + 0x10000) 6) (mem_with (mk_cmd 0 0x10000 0x500 6)) \<and>
    dev_view (\<lambda>_. 0) h = (\<lambda>_. 0)"
  using read_copies_to_user [OF dev0_wf kern_with_backed load_mem_with, of "mk_cmd 0 0x10000 0x500 6"]
  by (simp add: mk_cmd_def rw_target_def no_wrap_def hw_consts)

text \<open>
  C4. On memory that keeps what is stored, write() of an accepted request returns 0 and stores
  the user's bytes at the addressed place of the board; a request of two bytes stores the four
  bytes at the user's address.
\<close>

theorem write_copies_to_device:
  assumes "dev_wf d" "backed K um dm" "load um buf sizeof_acl_cmd = encode_cmd c"
    "bar_id c \<noteq> ACLPCI_CMD_BAR" "no_wrap c" "rw_target c \<noteq> Refused"
  shows "\<exists>d' h. aclsoc_write K buf d [] = Some (0, d', h) \<and> keeps d d' \<and>
    dev_view dm h = store (region_of d (rw_target c) + device_addr c)
      (load um (user_addr c) (if cmd_size c = 2 then 4 else unat (cmd_size c))) dm \<and>
    user_view um h = um"
proof -
  have "request_addr c d = (region_of d (rw_target c) + device_addr c, 0)"
    using request_addr_target [OF assms(5,1)] assms(6) by (simp add: region_of_def split: target.splits)
  from aclsoc_write_backed [OF assms(1,2) _ _ assms(4) this, of "[]" buf] assms(3)
  show ?thesis by (simp add: stored_bytes_def)
qed

theorem write_copies_to_device_witness:
  "\<exists>d' h. aclsoc_write (kern_with (mk_cmd 0 0x10000 0x500 2)) 0 dev0 [] = Some (0, d', h) \<and> keeps dev0 d' \<and>
    dev_view (\<lambda>_. 0) h = store (region_of dev0 GlobalMem + 0x10000)
      (load (mem_with (mk_cmd 0 0x10000 0x500 2)) 0x500 4) (\<lambda>_. 0) \<and>
    user_view (mem_with (mk_cmd 0 0x10000 0x500 2)) h = mem_with (mk_cmd 0 0x10000 0x500 2)"
  using write_copies_to_device [OF dev0_wf kern_with_backed load_mem_with, of "mk_cmd 0 0x10000 0x500 2"]
  by (simp add: mk_cmd_def rw_target_def no_wrap_def hw_consts)

text \<open>
  C5. On memory that keeps what is stored, what write() has put on the board read() brings
  back: after a write, a read of any part of the written range, to any address of the process,
  returns 0 and leaves in its buffer exactly the bytes that were written there. This holds of
  the driver and of the installed copy.
\<close>

theorem written_bytes_read_back:
  assumes "dev_wf d" "backed K um dm" "requests_at um wbuf cw rbuf cr" "part_of_request i cr cw"
  shows "(\<exists>d1 h1 d2 h2. aclsoc_write K wbuf d [] = Some (0, d1, h1) \<and> aclsoc_read K rbuf d1 h1 = Some (0, d2, h2) \<and>
      load (user_view um h2) (user_addr cr) (unat (cmd_size cr)) =
        load um (user_addr cw + of_nat i) (unat (cmd_size cr))) \<and>
    (\<exists>d1 h1 d2 h2. outcome (card_write K wbuf) d [] = Some (0, d1, h1) \<and>
      outcome (card_read K rbuf) d1 h1 = Some (0, d2, h2) \<and>
      load (user_view um h2) (user_addr cr) (unat (cmd_size cr)) =
        load um (user_addr cw + of_nat i) (unat (cmd_size cr)))"
  using write_read_back [OF assms] card_write_read_back [OF assms] by blast

theorem written_bytes_read_back_witness:
  "let cw = mk_cmd 0 0x10000 0x500 10; cr = mk_cmd 0 0x10004 0x600 3;
       um = store 0x40 (encode_cmd cr) (mem_with cw); K = ram_kernel kern0 um (\<lambda>_. 0)
   in \<exists>d1 h1 d2 h2. aclsoc_write K 0 dev0 [] = Some (0, d1, h1) \<and> aclsoc_read K 0x40 d1 h1 = Some (0, d2, h2) \<and>
        load (user_view um h2) 0x600 3 = load um 0x504 3"
proof -
  let ?cw = "mk_cmd 0 0x10000 0x500 10" and ?cr = "mk_cmd 0 0x10004 0x600 3"
  let ?um = "store 0x40 (encode_cmd ?cr) (mem_with ?cw)"
  have "load ?um 0 sizeof_acl_cmd = encode_cmd ?cw"
    using load_mem_with [of ?cw] by (simp add: load_store_apart apart_def sizeof_acl_cmd_def)
  moreover have "load ?um 0x40 sizeof_acl_cmd = encode_cmd ?cr"
    using load_store [of "encode_cmd ?cr" "0x40"] by (simp add: sizeof_acl_cmd_def)
  ultimately have "requests_at ?um 0 ?cw 0x40 ?cr"
    by (simp add: requests_at_def mk_cmd_def no_wrap_def hw_consts)
  moreover have "part_of_request 4 ?cr ?cw" by (simp add: part_of_request_def rw_target_def mk_cmd_def)
  ultimately show ?thesis
    using written_bytes_read_back [OF dev0_wf backed_ram, of ?um 0 ?cw "0x40" ?cr 4 kern0 "\<lambda>_. 0"]
    by (simp add: mk_cmd_def)
qed

section \<open>The running driver\<close>

text \<open>
  C6. From a successful load on, after any sequence of open, close, read, write, mmap, fork
  and unmap of mappings and interrupts: the device is well formed, each table slot counts its
  live mappings, the live DMA memory is the table's plus what failed remaps leaked, the lock
  is free and the bridges are mapped where they were.
\<close>

theorem running_driver_invariant:
  assumes "kref_ok K" "aclsoc_probe K unloaded [] = (0, drv, h0)" "aclsoc_obj drv = Some d0"
    "addr_map d0 \<noteq> 0" "reachable K (loaded d0 h0) t"
  shows "dev_wf (sdev t) \<and> mapped_region (sdev t) = mapped_region d0 \<and>
    refs_ok (addr_map_mem (sdev t)) (maps t) \<and>
    dma_live (shist t) = table_bufs (addr_map_mem (sdev t)) + leaked (shist t) \<and>
    lock_depth (shist t) = 0"
  using reachable_ok [OF assms(5,1) fresh_ok [OF probe_fresh [OF assms(2-4)]]]
  by (simp add: sys_ok_def ledger_ok_def loaded_def)

theorem running_driver_invariant_witness:
  "\<exists>drv d0 h0 r v d h. aclsoc_probe kern0 unloaded [] = (0, drv, h0) \<and> aclsoc_obj drv = Some d0 \<and>
    aclsoc_mmap kern0 vma0 d0 h0 = Some (r, v, d, h) \<and> dev_wf d \<and> lock_depth h = 0 \<and>
    dma_live h = table_bufs (addr_map_mem d) + leaked h"
proof -
  obtain drv d0 h0 where p: "aclsoc_probe kern0 unloaded [] = (0, drv, h0)" "aclsoc_obj drv = Some d0"
    "addr_map d0 \<noteq> 0"
    by (rule kern0_probe)
  have "dev_wf d0" using probe_fresh [OF p] by (simp add: fresh_def loaded_def)
  then obtain r v d h where c: "aclsoc_mmap kern0 vma0 d0 h0 = Some (r, v, d, h)"
    by (cases "aclsoc_mmap kern0 vma0 d0 h0") (auto simp: aclsoc_mmap_eq Let_def split: prod.splits if_split_asm)
  let ?t = "\<lparr>sdev = d, shist = h, maps = (if r = 0 then v # [] else [])\<rparr>"
  have "step kern0 (loaded d0 h0) ?t"
    using mmap_step [of kern0 vma0 "loaded d0 h0" r v d h] c
    by (cases "r = 0") (simp_all add: loaded_def vma0_def MAX_MAPS_def)
  then have r: "reachable kern0 (loaded d0 h0) ?t" by (rule more [OF start])
  have "dev_wf d" "lock_depth h = 0" "dma_live h = table_bufs (addr_map_mem d) + leaked h"
    using running_driver_invariant [OF kern0_kref p r] by simp_all
  with p(1,2) c show ?thesis by blast
qed

text \<open>
  C7. Unloading after any run succeeds, clears the driver's pointer and frees every buffer of
  the table: the only DMA memory still allocated is what failed remaps leaked.
\<close>

theorem unload_after_any_run:
  assumes "kref_ok K" "aclsoc_probe K unloaded [] = (0, drv, h0)" "aclsoc_obj drv = Some d0"
    "addr_map d0 \<noteq> 0" "reachable K (loaded d0 h0) t"
  shows "\<exists>drv' h'. aclsoc_exit (drv\<lparr>aclsoc_obj := Some (sdev t)\<rparr>) (shist t) = Some (drv', h') \<and>
    aclsoc drv' = 0 \<and> dma_live h' = leaked (shist t)"
proof (rule remove_ledger [OF reachable_ok [OF assms(5,1) fresh_ok [OF probe_fresh [OF assms(2-4)]]]])
  show "aclsoc drv \<noteq> 0" using probe_ok [OF assms(2)] by (auto simp: probed_def)
qed

theorem unload_after_any_run_witness:
  "\<exists>drv d0 h0 drv' h'. aclsoc_probe kern0 unloaded [] = (0, drv, h0) \<and>
    aclsoc_exit (drv\<lparr>aclsoc_obj := Some d0\<rparr>) h0 = Some (drv', h') \<and> dma_live h' = leaked h0"
proof -
  obtain drv d0 h0 where p: "aclsoc_probe kern0 unloaded [] = (0, drv, h0)" "aclsoc_obj drv = Some d0"
    "addr_map d0 \<noteq> 0"
    by (rule kern0_probe)
  from unload_after_any_run [OF kern0_kref p start] obtain drv' h' where
    "aclsoc_exit (drv\<lparr>aclsoc_obj := Some d0\<rparr>) h0 = Some (drv', h')" "dma_live h' = leaked h0"
    by (auto simp: loaded_def)
  with p(1) show ?thesis by blast
qed

text \<open>
  C8. The chunked transfer, for any length and any environment, never leaves the driver's
  buffer and moves the bytes in order at equal offsets: all of them when it returns 0, which
  is when no copy failed, and otherwise, with -EFAULT, a whole number of buffers.
\<close>

theorem rw_large_transfers_whole:
  assumes "length buf = BUF_SIZE"
  shows "\<exists>r buf' tr. aclsoc_rw_large K dev u n buf reading h = Some (r, buf', rev tr @ h) \<and>
    length buf' = BUF_SIZE \<and> transfers reading dev u (unat n) r tr"
  by (rule rw_large_transfers [OF assms])

theorem rw_large_transfers_whole_witness:
  "\<exists>r buf' tr. aclsoc_rw_large kern0 0xE0010000 0x500 10000 (replicate BUF_SIZE 0) True [] = Some (r, buf', rev tr) \<and>
    length buf' = BUF_SIZE \<and> transfers True 0xE0010000 0x500 10000 r tr"
  using rw_large_transfers_whole [of "replicate BUF_SIZE 0" kern0 "0xE0010000" "0x500" 10000 True "[]"] by simp

text \<open>
  C9. The transfer loop of the installed driver ends for every length, every address and every
  answer of the kernel, and the transfer makes at most two calls for each byte requested.
\<close>

theorem transfer_loop_ends:
  assumes "dev_wf d"
  shows "\<exists>v d' h'. while_option (\<lambda>(v, s). loc_ret v = None \<and> loc_left v > 0)
      (\<lambda>(v, s). run_state (card_rw_turn K reading v) s)
      (\<lparr>loc_ret = None, loc_dev = dev, loc_user = u, loc_left = n\<rparr>, running d h) = Some (v, running d' h') \<and>
    length h' \<le> length h + 2 * unat n"
proof -
  have "length (buffer_mem d) = BUF_SIZE" using assms by (simp add: dev_wfD)
  from rw_large_transfers [OF this] obtain r buf tr where
    t: "rw_loop K reading dev u n (buffer_mem d) h = Some (r, buf, rev tr @ h)"
    unfolding aclsoc_rw_large_def by blast
  obtain v where "run_state (while_loop (\<lambda>v. loc_ret v = None \<and> loc_left v > 0) (card_rw_turn K reading)
       \<lparr>loc_ret = None, loc_dev = dev, loc_user = u, loc_left = n\<rparr>) (running d h) =
      (v, running (d\<lparr>buffer_mem := buf\<rparr>) (rev tr @ h))"
    using run_while [OF t] by blast
  with rw_loop_calls [OF t] show ?thesis by (blast dest: while_loop_ends)
qed

theorem transfer_loop_ends_witness:
  "\<exists>v d' h'. while_option (\<lambda>(v, s). loc_ret v = None \<and> loc_left v > 0)
      (\<lambda>(v, s). run_state (card_rw_turn kern0 True v) s)
      (\<lparr>loc_ret = None, loc_dev = 0xE0000000, loc_user = 0x500, loc_left = 0xFFFFFFFF\<rparr>, running dev0 []) =
        Some (v, running d' h') \<and> length h' \<le> 0x1FFFFFFFE"
  using transfer_loop_ends [OF dev0_wf, of kern0 True "0xE0000000" "0x500" "0xFFFFFFFF" "[]"] by simp

text \<open>
  C10. read() of a data request that does not wrap: under the lock it fetches the command and
  then, if the target is refused, returns -EFAULT with no further call, else transfers the
  bytes of the right region.
\<close>

theorem read_request_effect:
  assumes "dev_wf d" "arrives K buf h c" "bar_id c \<noteq> ACLPCI_CMD_BAR" "no_wrap c"
  shows "\<exists>r d' body. aclsoc_read K buf d h = Some (r, d', rev (request_trace buf c body) @ h) \<and> keeps d d' \<and>
    (if rw_target c = Refused then r = - EFAULT \<and> body = []
     else transfers_to_user (region_of d (rw_target c) + device_addr c) (user_addr c) (unat (cmd_size c)) r body)"
  by (rule read_request [OF assms])

theorem read_request_effect_witness:
  "\<exists>r d' body. aclsoc_read (kern_with (mk_cmd 0 0x3FFFE 0x500 4)) 0 dev0 [] =
    Some (- EFAULT, d', rev (request_trace 0 (mk_cmd 0 0x3FFFE 0x500 4) []))"
  using read_request_effect [OF dev0_wf kern_with_arrives, of "mk_cmd 0 0x3FFFE 0x500 4"]
  by (auto simp: mk_cmd_def rw_target_def no_wrap_def hw_consts)

text \<open>
  C11. write() of a data request of three or more than four bytes that does not wrap: under
  the lock it fetches the command and is refused with -EFAULT, or transfers the user's bytes
  to the right region, reading nothing ahead.
\<close>

theorem write_request_effect:
  assumes "dev_wf d" "arrives K buf h c" "bar_id c \<noteq> ACLPCI_CMD_BAR" "no_wrap c"
    "4 < cmd_size c \<or> cmd_size c = 3"
  shows "\<exists>r d' body. aclsoc_write K buf d h = Some (r, d', rev (request_trace buf c body) @ h) \<and> keeps d d' \<and>
    (if rw_target c = Refused then r = - EFAULT \<and> body = []
     else transfers_to_device (region_of d (rw_target c) + device_addr c) (user_addr c) (unat (cmd_size c)) r body)"
  by (rule write_request [OF assms])

theorem write_request_effect_witness:
  "\<exists>r d' body. aclsoc_write (kern_with (mk_cmd 0 0x10000 0x500 7)) 0 dev0 [] =
      Some (r, d', rev (request_trace 0 (mk_cmd 0 0x10000 0x500 7) body)) \<and>
    transfers_to_device (region_of dev0 GlobalMem + 0x10000) 0x500 7 r body"
  using write_request_effect [OF dev0_wf kern_with_arrives, of "mk_cmd 0 0x10000 0x500 7"]
  by (auto simp: mk_cmd_def rw_target_def no_wrap_def hw_consts)

text \<open>
  C12. No register access of a read, or of a write of a size other than two, leaves the region
  the request is for, as long as its address plus its size does not wrap around.
\<close>

theorem request_stays_in_region:
  assumes "dev_wf d" "arrives K buf h c" "bar_id c \<noteq> ACLPCI_CMD_BAR" "no_wrap c" "reading \<or> cmd_size c \<noteq> 2"
  shows "\<exists>r d' tr. aclsoc_rw K buf reading d h = Some (r, d', rev tr @ h) \<and>
    (\<forall>x \<in> touched tr. in_region (region_of d (rw_target c)) (region_len (rw_target c)) x)"
  by (rule request_touched [OF assms])

theorem request_stays_in_region_witness:
  "\<exists>r d' tr. aclsoc_rw (kern_with (mk_cmd 0 0x1FFF0 0x500 16)) 0 False dev0 [] = Some (r, d', rev tr) \<and>
    (\<forall>x \<in> touched tr. in_region (region_of dev0 GlobalMem) 0x20000 x)"
  using request_stays_in_region [OF dev0_wf kern_with_arrives, of "mk_cmd 0 0x1FFF0 0x500 16" False]
  by (simp add: mk_cmd_def rw_target_def no_wrap_def region_len_def hw_consts)

text \<open>
  C13. Mutual exclusion: in any schedule of single kernel calls that takes the semaphore only
  when it is free, open(), close(), read() and write() of any number of processes, each on its
  own device state and environment and all in the driver or all in the installed copy, run one
  after the other in some order without a foreign call in between, while interrupts, mmap()
  and unmapping, which never touch the semaphore, go on at any point.
\<close>

theorem calls_run_one_after_the_other:
  assumes "sem_ok 1 m"
    "schedule_of call_trace unlocked_trace C m \<or> schedule_of card_call_trace card_unlocked_trace C m"
  shows "\<exists>order. distinct order \<and> set order = {i \<in> C. last (trace_of i m) = Up} \<and>
    filter (counts C) m = concat (map (\<lambda>i. map (Pair i) (trace_of i m)) order)"
  using assms(2) driver_calls_serial [OF assms(1)] card_calls_serial [OF assms(1)] by blast

theorem calls_run_one_after_the_other_witness:
  "\<exists>order. set order = {0, 1} \<and> (\<exists>m. (2, Writel 0 (get_interrupt_enable_addr dev0)) \<in> set m \<and> sem_ok 1 m \<and>
    filter (counts {0, 1}) m = concat (map (\<lambda>i. map (Pair i) (trace_of i m)) order))"
proof -
  let ?w = "Writel 0 (get_interrupt_enable_addr dev0)"
  define m where "m = ([(0, Down 0), (2, ?w), (0, Up), (1, Down 0), (1, Up)] :: schedule)"
  have t: "trace_of i m = (if i = 0 \<or> i = 1 then [Down 0, Up] else if i = 2 then [?w] else [])" for i
    by (simp add: trace_of_def m_def)
  have "aclsoc_close kern0 dev0 [] = (0, dev0, rev [Down 0, Up] @ [])"
    by (simp add: aclsoc_close_def env_simps kern0_def)
  then have "call_trace [Down 0, Up]" by (rule close_leaves [OF dev0_wf])
  then have calls: "\<forall>i \<in> {0, 1}. call_trace (trace_of i m)" by (simp add: t)
  obtain r d' h' where i: "aclsoc_irq kern0 (Some dev0) [] = (r, d', h')" by (rule prod_cases3)
  have "user_task dev0 = 0" by (simp add: dev0_def zero_dev_def)
  then have "h' = rev [?w] @ []" using aclsoc_irq_hist [OF i] by simp
  with i have "unlocked_trace [?w]" by (intro irq_leaves [where tr = "[?w]" and h = "[]"]) simp
  then have others: "\<forall>i. i \<notin> {0, 1} \<longrightarrow> trace_of i m = [] \<or> unlocked_trace (trace_of i m)" by (simp add: t)
  have s: "sem_ok 1 m" "(2, ?w) \<in> set m" "{i \<in> {0, 1}. last (trace_of i m) = Up} = {0, 1}"
    using t by (auto simp: m_def)
  have "schedule_of call_trace unlocked_trace {0, 1} m" using calls others by (simp add: schedule_of_def)
  then have "schedule_of call_trace unlocked_trace {0, 1} m \<or> schedule_of card_call_trace card_unlocked_trace {0, 1} m" ..
  from calls_run_one_after_the_other [OF s(1) this, unfolded s(3)] s(1,2) show ?thesis by blast
qed

text \<open>
  C14. For requests that do not wrap, routing and address checking implement the integer
  specification: the global-memory window through region 0, the rest of the first 256 KB
  through region 2, everything else refused.
\<close>

theorem routing_meets_specification:
  assumes "no_wrap c" "dev_wf d"
  shows "request_addr c d =
    (case rw_target c of
       GlobalMem \<Rightarrow> (mapped_region d 0 + device_addr c, 0)
     | Control \<Rightarrow> (mapped_region d 2 + device_addr c, 0)
     | Refused \<Rightarrow> (0, - EFAULT))"
  by (rule request_addr_target [OF assms])

theorem routing_meets_specification_witness:
  "request_addr (mk_cmd 0 0x1FFFC 0x500 4) dev0 = (0xE001FFFC, 0)"
  using routing_meets_specification [OF _ dev0_wf, of "mk_cmd 0 0x1FFFC 0x500 4"]
  by (simp add: no_wrap_def mk_cmd_def rw_target_def dev0_def)

section \<open>The installed copy\<close>



text \<open>
  C16. On a well-formed device the driver copy installed on the card answers read() and
  write() exactly as the other copy does, with the same result, device and kernel calls and
  with no fault (so its transfer loop ends), except for the command that asks for the version:
  there only the string it copies out differs.
\<close>

theorem deployed_requests_agree:
  assumes "dev_wf d"
  shows "if asks_version K buf h
    then \<exists>h2 p left left' r. outcome (card_rw K buf reading) d h =
        Some (sint left, d, Up # Copy_to_user p (c_string ''14.1.9'') left # h2) \<and>
      aclsoc_rw K buf reading d h = Some (r, d, Up # Copy_to_user p (c_string ''14.1.'') left' # h2)
    else outcome (card_rw K buf reading) d h = aclsoc_rw K buf reading d h \<and>
      aclsoc_rw K buf reading d h \<noteq> None"
proof (cases "asks_version K buf h")
  case True
  from run_rw_version [OF this] obtain h2 p left where
    c: "run_state (card_rw K buf reading) (running d h) =
      (sint left, running d (Up # Copy_to_user p (c_string CARD_DRIVER_VERSION) left # h2))"
    "aclsoc_rw K buf reading d h =
      (let left' = ans_copy_to_user K h2 p (c_string ACL_DRIVER_VERSION)
       in Some (sint left', d, Up # Copy_to_user p (c_string ACL_DRIVER_VERSION) left' # h2))" by blast
  with True outcome_running [OF c(1)] show ?thesis
    by (auto simp: CARD_DRIVER_VERSION_def ACL_DRIVER_VERSION_def Let_def)
next
  case False
  from card_rw_agrees [OF assms False, of reading] show ?thesis using False by (auto simp: outcome_running)
qed

theorem deployed_requests_agree_witness:
  "outcome (card_rw (kern_with (mk_cmd 0 0x10000 0x500 10)) 0 False) dev0 [] =
     aclsoc_rw (kern_with (mk_cmd 0 0x10000 0x500 10)) 0 False dev0 [] \<and>
   aclsoc_rw (kern_with (mk_cmd 0 0x10000 0x500 10)) 0 False dev0 [] \<noteq> None"
proof -
  have "\<not> asks_version (kern_with (mk_cmd 0 0x10000 0x500 10)) 0 []"
    using kern_with_arrives [of "mk_cmd 0 0x10000 0x500 10"]
    by (auto simp: asks_version_def arrives_def env_simps mk_cmd_def hw_consts Let_def)
  with deployed_requests_agree [OF dev0_wf, of "kern_with (mk_cmd 0 0x10000 0x500 10)" 0 "[]" False]
  show ?thesis by simp
qed

text \<open>
  C17. The other entry points of the installed copy agree too: open(), close(), mmap() on
  every branch and the interrupt handler give the results, devices and kernel calls of the
  modelled functions and do not fault; loading and unloading, with the labels for errors, the
  pointer to a freed device and the loop that frees the buffers, do so for every kernel and
  every state of the static variables, and fault exactly where the model has a fault.
\<close>

theorem deployed_entry_points_agree:
  assumes "dev_wf d"
  shows "outcome (card_open K pid cur) d h = Some (aclsoc_open K pid cur d h) \<and>
    outcome (card_close K) d h = Some (aclsoc_close K d h) \<and>
    outcome (card_mmap K v) d h = map_option (\<lambda>(r, v, d, h). ((r, v), d, h)) (aclsoc_mmap K v d h) \<and>
    (\<exists>r d' h'. aclsoc_irq K (Some d) h = (r, Some d', h') \<and> outcome (card_irq K False) d h = Some (r, d', h')) \<and>
    outcome (card_init K) drv h = Some (aclsoc_init K drv h) \<and>
    outcome card_exit drv h = map_option (\<lambda>(drv, h). ((), drv, h)) (aclsoc_exit drv h)"
  using card_mmap_agrees [OF assms] card_irq_agrees
  by (simp add: card_open_agrees card_close_agrees card_init_agrees card_exit_agrees)

theorem deployed_entry_points_agree_witness:
  "\<exists>h'. outcome (card_mmap kern0 vma0) dev0 [] =
     Some ((0, vma0\<lparr>vma_ops := True, vma_private := Some 0\<rparr>),
           dev0\<lparr>addr_map_mem := elem0 # replicate 203 zero_elem\<rparr>, h')"
  using deployed_entry_points_agree [OF dev0_wf, of kern0 0 0 "[]" vma0] by (simp add: mmap_dev0)

text \<open>
  C18. The three programs installed on the card agree with the modelled ones: a run of the
  reprogramming tool that ends is a run of the installed tool with the same exit code and the
  same calls; the diagnostic program gives the same exit code and the same calls for every
  runtime, whatever malloc leaves in its buffers, and never faults; a run of the board tester
  that survives is a run of the installed one with the same exit code and the same final
  state.
\<close>

theorem deployed_programs_agree:
  "(reprogram_main H argv hr = Some (x, hr') \<longrightarrow> outcome (tool_main H argv) () hr = Some (x, (), hr')) \<and>
   (\<exists>s. outcome (diag_main R junk) statics h = Some (fst (diagnostic_main R h), s, snd (diagnostic_main R h))) \<and>
   (user_main P fr fr' mf w = Some (r, w') \<longrightarrow>
     (\<exists>ls. outcome (ut_main P fr fr' mf) w [] = Some (r, w', ls)))"
proof (intro conjI impI)
  assume "reprogram_main H argv hr = Some (x, hr')"
  then show "outcome (tool_main H argv) () hr = Some (x, (), hr')" by (rule outcome_running [OF run_main])
next
  from run_diag_main [of R junk h]
  show "\<exists>s. outcome (diag_main R junk) statics h = Some (fst (diagnostic_main R h), s, snd (diagnostic_main R h))"
    by (auto dest: outcome_running)
next
  assume "user_main P fr fr' mf w = Some (r, w')"
  from run_ut_main [OF this, of "[]"] show "\<exists>ls. outcome (ut_main P fr fr' mf) w [] = Some (r, w', ls)"
    by (auto dest: outcome_running)
qed

theorem deployed_programs_agree_witness:
  "outcome (tool_main host0 [''reprogram'', ''/dev/acl0'']) () [] = Some (1, (), [Sigaction 44]) \<and>
   (\<exists>m ls. outcome (ut_main (board_proc system0) frame0 frame0 mframe0) machine0 [] = Some (0, m, ls))"
proof -
  have "reprogram_main host0 [''reprogram'', ''/dev/acl0''] [] = Some (1, [Sigaction 44])"
    by (simp add: reprogram_main_def hw_consts)
  moreover obtain m where "user_main (board_proc system0) frame0 frame0 mframe0 machine0 = Some (0, m)"
    using user_main_run [OF system0_main _ _ machine0_table] dev0_wf by (auto simp: machine0_def)
  ultimately show ?thesis
    using deployed_programs_agree [of host0 "[''reprogram'', ''/dev/acl0'']" "[]" 1 "[Sigaction 44]" rt0 "\<lambda>_. 0"
        "[]" "board_proc system0" frame0 frame0 mframe0 machine0 0 m] by blast
qed

text \<open>
  C19. The installed headers, read as aclsoc.h includes them after any macros the kernel's
  headers define, as long as these are not the three guards. Every macro of
  hw_pcie_constants.h and pcie_linux_driver_exports.h for a number has the value of the
  constant of the models, every macro for a name or the version is that string, and DMA,
  polling and verbose logging are off whether or not ACLPCI_BIGENDIAN is defined; the three
  macros of the branch for boards without QSYS keep the meaning they had before, and a second
  inclusion changes nothing. On every word, the macros that read, set, clear and make a bit
  have the values of the functions of the models exactly for the bits C defines them for,
  which leaves bit 31 out except for reading, and the macro that reads a range of bits has the
  value of the function exactly for ranges of fewer than 31 bits.
\<close>

theorem headers_define_the_constants:
  assumes "\<forall>g \<in> set card_guards. map_of given g = None"
  shows "\<exists>env. card_macros given = Some env \<and> card_macros env = Some env \<and>
    agrees env (address_numbers @ register_numbers @ command_numbers @ expression_numbers) \<and>
    (\<forall>(x, n) \<in> set card_names. map_of env x = Some (String_lit n)) \<and>
    map (macro_value env) [''USE_DMA'', ''POLLING'', ''VERBOSE_DEBUG''] = replicate 3 (Some (Int32, 0)) \<and>
    map (map_of env) [''PCIE_CRA_IRQ_RXMIRQ'', ''PCIE_CRA_AVL_IRQ_VEC_LO'', ''PCIE_CRA_AVL_IRQ_VEC_HI''] =
      map (map_of given) [''PCIE_CRA_IRQ_RXMIRQ'', ''PCIE_CRA_AVL_IRQ_VEC_LO'', ''PCIE_CRA_AVL_IRQ_VEC_HI''] \<and>
    (\<forall>w b. macro_call env ''ACL_PCIE_READ_BIT'' [(Uint32, uint w), (Int32, int b)] =
         (if b < 32 then Some (Uint32, uint (ACL_PCIE_READ_BIT w b)) else None) \<and>
       macro_call env ''ACL_PCIE_SET_BIT'' [(Uint32, uint w), (Int32, int b)] =
         (if b < 31 then Some (Uint32, uint (ACL_PCIE_SET_BIT w b)) else None) \<and>
       macro_call env ''ACL_PCIE_CLEAR_BIT'' [(Uint32, uint w), (Int32, int b)] =
         (if b < 31 then Some (Uint32, uint (ACL_PCIE_CLEAR_BIT w b)) else None) \<and>
       macro_call env ''ACL_PCIE_GET_BIT'' [(Int32, int b)] =
         (if b < 31 then Some (Uint32, uint (ACL_PCIE_GET_BIT b)) else None)) \<and>
    (\<forall>w h l. l \<le> h \<and> h < 32 \<longrightarrow>
       macro_call env ''ACL_PCIE_READ_BIT_RANGE'' [(Uint32, uint w), (Int32, int h), (Int32, int l)] =
         (if h - l + 1 < 31 then Some (Uint32, uint (ACL_PCIE_READ_BIT_RANGE w h l)) else None))"
proof (rule exI [of _ "card_env @ given"], intro conjI allI impI)
  show "agrees (card_env @ given) (address_numbers @ register_numbers @ command_numbers @ expression_numbers)"
    using numbers_agree [of given] expressions_agree [of given] by (simp add: agrees_def)
  show "card_macros (card_env @ given) = Some (card_env @ given)"
    by (rule card_macros_again) (simp add: card_env_def header_env_def)
  show "\<forall>(x, n) \<in> set card_names. map_of (card_env @ given) x = Some (String_lit n)"
    using names_agree [of _ _ given] by blast
qed (rule card_macros_eq [OF assms] excluded_branch switched_off read_bit_macro set_bit_macro clear_bit_macro
  get_bit_macro read_bit_range_macro | simp)+

theorem headers_define_the_constants_witness:
  "\<exists>env. card_macros [(''KBUILD_MODNAME'', Empty), (''ACLPCI_BIGENDIAN'', Empty)] = Some env \<and> card_macros env = Some env"
  using headers_define_the_constants [of "[(''KBUILD_MODNAME'', Empty), (''ACLPCI_BIGENDIAN'', Empty)]"]
  by (simp add: card_guards_def) blast

text \<open>
  C20. The structures of the installed headers under the rules of the target, for kernel
  structures that consist of any numbers of words and a reference counter of one word. The
  command has the size of the model, and the encoding of every command has each field's bytes
  where the compiler puts the field. With 32-bit bus addresses the table entry has the
  members' places, the size and the table the number of entries of the model; with 64-bit ones
  an entry has 32 bytes and the table 128 entries. In the device structure every member has
  the offset and size given, with four unused bytes before the 64-bit segment and the end
  rounded up to a multiple of eight.
\<close>

theorem structures_are_laid_out:
  assumes "words_layout K s c i" "K ''struct kref'' = (4, 4)"
  shows "(sizeof_struct K card_acl_cmd = sizeof_acl_cmd \<and>
     map (\<lambda>f. member_bytes K card_acl_cmd f (encode_cmd k))
       [''bar_id'', ''command'', ''device_addr'', ''user_addr'', ''size'', ''is_diff_endian''] =
     map (\<lambda>w. Some (bytes_u32 w)) [bar_id k, command k, device_addr k, user_addr k, cmd_size k, is_diff_endian k]) \<and>
    CARD_BUF_SIZE = BUF_SIZE \<and>
    (K ''dma_addr_t'' = (4, 4) \<longrightarrow>
       place_members K 0 card_addr_map_elem =
         [(''vm_start'', 0, 4), (''size'', 4, 4), (''cpu_addr'', 8, 4), (''dma_handle'', 12, 4), (''ref'', 16, 4)] \<and>
       sizeof_struct K card_addr_map_elem = sizeof_addr_map_elem \<and>
       CARD_MAX_ADDR_MAP_ENTRIES K = MAX_ADDR_MAP_ENTRIES) \<and>
    (K ''dma_addr_t'' = (8, 8) \<longrightarrow>
       sizeof_struct K card_addr_map_elem = 32 \<and> CARD_MAX_ADDR_MAP_ENTRIES K = 128) \<and>
    place_members K 0 card_aclsoc_dev =
      [(''mapped_region'', 0, 12), (''mapped_region_size'', 12, 12), (''addr_map'', 24, 4),
       (''global_mem_segment'', 32, 8), (''saved_kernel_irq_mask'', 40, 1), (''global_mem_segment_addr'', 44, 4),
       (''buffer'', 48, 4), (''sem'', 52, 4 * s), (''user_pid'', 52 + 4 * s, 4), (''cdev_num'', 56 + 4 * s, 4),
       (''cdev'', 60 + 4 * s, 4 * c), (''my_class'', 60 + 4 * (s + c), 4), (''device'', 64 + 4 * (s + c), 4),
       (''signal_info'', 68 + 4 * (s + c), 4 * i), (''user_task'', 68 + 4 * (s + c + i), 4),
       (''user_filehandle'', 72 + 4 * (s + c + i), 4), (''num_handled_interrupts'', 76 + 4 * (s + c + i), 4),
       (''num_undelivered_signals'', 80 + 4 * (s + c + i), 4)] \<and>
    sizeof_struct K card_aclsoc_dev = 84 + 4 * (s + c + i) + (if even (s + c + i) then 4 else 0)"
  using assms(2) addr_map_elem_placed [where K = K] addr_map_elem_placed_wide [where K = K]
  by (intro conjI impI aclsoc_dev_placed [OF assms(1)] aclsoc_dev_size [OF assms(1)])
    (simp_all add: acl_cmd_placed encoded_members sizeof_acl_cmd_def sizeof_addr_map_elem_def CARD_BUF_SIZE_def hw_consts)

theorem structures_are_laid_out_witness:
  "\<exists>K. K ''dma_addr_t'' = (4, 4) \<and> CARD_MAX_ADDR_MAP_ENTRIES K = MAX_ADDR_MAP_ENTRIES \<and>
    sizeof_struct K card_aclsoc_dev = 288"
proof -
  let ?K = "\<lambda>s. if s = ''struct siginfo'' then (128, 4) else if s = ''struct cdev'' then (60, 4) else
     if s = ''struct semaphore'' then (16, 4) else ((4, 4) :: nat \<times> nat)"
  have "words_layout ?K 4 15 32" by (simp add: words_layout_def)
  from structures_are_laid_out [OF this] show ?thesis by (intro exI [of _ ?K]) simp
qed

section \<open>Interrupts, reprogramming and the module\<close>

text \<open>
  C21. The commands that save and load the control registers and enable the kernel interrupt
  implement release, request and unmask of the abstract interrupt line, whatever the device
  and the history, and report success.
\<close>

theorem commands_drive_the_interrupt:
  assumes "command c \<in> {ACLPCI_CMD_SAVE_PCI_CONTROL_REGS, ACLPCI_CMD_LOAD_PCI_CONTROL_REGS,
                        ACLPCI_CMD_ENABLE_KERNEL_IRQ}"
  shows "\<exists>d' h'. aclsoc_exec_cmd K c n d h = Some (0, d', h') \<and>
    irq_abs_of d' h' = irq_spec
      (if command c = ACLPCI_CMD_SAVE_PCI_CONTROL_REGS then IRelease
       else if command c = ACLPCI_CMD_LOAD_PCI_CONTROL_REGS then IInit (ans_request_irq K h PIO_IRQ = 0)
       else IUnmask) (irq_abs_of d h)"
proof -
  consider "command c = ACLPCI_CMD_SAVE_PCI_CONTROL_REGS" | "command c = ACLPCI_CMD_LOAD_PCI_CONTROL_REGS"
    | "command c = ACLPCI_CMD_ENABLE_KERNEL_IRQ"
    using assms by blast
  then show ?thesis
  proof cases
    case 1
    then show ?thesis using release_irq_refines [of d h] by (simp add: aclsoc_exec_cmd_def hw_consts)
  next
    case 2
    obtain rc d' h' where i: "init_irq K (Some d) h = (rc, Some d', h')"
      "rc = 0 \<longleftrightarrow> ans_request_irq K h PIO_IRQ = 0"
      using init_irq_eq [of K d h] by (cases "ans_request_irq K h PIO_IRQ = 0") (simp_all add: Let_def)
    from init_irq_refines [OF i(1)] i 2 show ?thesis by (simp add: aclsoc_exec_cmd_def hw_consts)
  next
    case 3
    then show ?thesis using unmask_refines [of d h] by (simp add: aclsoc_exec_cmd_def hw_consts)
  qed
qed

theorem commands_drive_the_interrupt_witness:
  "\<exists>d' h'. aclsoc_exec_cmd kern0 (board_cmd ACLPCI_CMD_LOAD_PCI_CONTROL_REGS) 0 dev0 [] = Some (0, d', h') \<and>
    irq_abs_of d' h' = \<lparr>requested = True, enabled = True\<rparr>"
  using commands_drive_the_interrupt [of "board_cmd ACLPCI_CMD_LOAD_PCI_CONTROL_REGS" kern0 0 dev0 "[]"]
  by (simp add: board_cmd_def hw_consts kern0_def)

text \<open>
  C22. A run of the reprogramming tool that ends leaves the board alone or touches it by one
  sequence of calls: the request that saves the control registers, the three commands that
  close the bridges, the design, the three that open them, the request that loads the
  registers. The tool ignores the results, so this is for every outcome of each call: when the
  design is sent, a bridge is open exactly if it was open at the start and the command that
  closes it failed, and the interrupt is masked and released unless the driver refused the
  request; at the end a bridge is closed exactly if the command that opens it failed and it
  was closed when the design was sent, and the interrupt is requested and enabled if the
  request was served and the line granted. If every call does its work and all bridges are
  open at the start, then each request is made over open bridges, the design is sent only to a
  board with all bridges closed and the interrupt masked and released, and at the end the
  bridges are open and the interrupt is requested and enabled.
\<close>

theorem reprogramming_isolates_the_board:
  assumes "reprogram_main H argv [] = Some (r, h)"
  shows "list_all quiet h \<and> board_after W s h = s \<or>
    (\<exists>f name u v g. h = u @ program_trace f name @ v \<and> list_all quiet u \<and> list_all quiet v \<and>
       g = quieting_trace f @ v \<and>
       bridges (board_after W s g) = {b \<in> bridges s. failed W g (bridge_cmd False b)} \<and>
       irq (board_after W s g) =
         (if refused W g (board_cmd ACLPCI_CMD_SAVE_PCI_CONTROL_REGS) then irq s
          else \<lparr>requested = False, enabled = False\<rparr>) \<and>
       bridges (board_after W s h) =
         {b. \<not> failed W h (bridge_cmd True b) \<or> b \<in> bridges s \<and> failed W h (bridge_cmd False b)} \<and>
       irq (board_after W s h) =
         (if refused W h (board_cmd ACLPCI_CMD_LOAD_PCI_CONTROL_REGS) then irq (board_after W s g)
          else irq_spec (IInit (granted W (tl (program_trace f name @ v)))) (irq (board_after W s g))) \<and>
       (succeeded W h \<and> bridges s = UNIV \<longrightarrow>
          safe W s h \<and> bridges (board_after W s h) = UNIV \<and>
          irq (board_after W s h) = \<lparr>requested = True, enabled = True\<rparr>))"
  using main_splits [OF assms]
proof (elim disjE exE conjE)
  assume "list_all quiet h"
  then show ?thesis using quiet_after [of "[]" h W s] by (simp add: quietly_def)
next
  fix f name u v
  assume t: "list_all quiet u" "list_all quiet v" "h = u @ program_trace f name @ v"
  show ?thesis
    using board_at_design [OF t(2), where W = W and s = s and f = f]
      board_at_end [OF t(1,2), where W = W and s = s and f = f and name = name, folded t(3)]
      program_safe [OF t(1,2), where W = W and s = s and f = f and name = name, folded t(3)] t
    by (intro disjI2 exI [of _ f] exI [of _ name] exI [of _ u] exI [of _ v] exI [of _ "quieting_trace f @ v"]) simp
qed

theorem reprogramming_isolates_the_board_witness:
  "\<exists>r h g. reprogram_main host0 [''reprogram'', ''/dev/acl0'', ''a.rbf''] [] = Some (r, h) \<and>
    System (program_cmd ''a.rbf'') \<in> set h \<and>
    safe \<lparr>ran = \<lambda>h c. True, served = \<lambda>h c. True, granted = \<lambda>h. True\<rparr>
      \<lparr>bridges = UNIV, irq = \<lparr>requested = True, enabled = True\<rparr>\<rparr> h \<and>
    suffix (System (program_cmd ''a.rbf'') # g) h \<and>
    bridges (board_after \<lparr>ran = \<lambda>h c. c \<noteq> bridge_cmd False Hps2fpga, served = \<lambda>h c. True, granted = \<lambda>h. True\<rparr>
      \<lparr>bridges = UNIV, irq = \<lparr>requested = True, enabled = True\<rparr>\<rparr> g) = {Hps2fpga}"
proof -
  let ?a = "[''reprogram'', ''/dev/acl0'', ''a.rbf'']"
  let ?s = "\<lparr>bridges = UNIV, irq = \<lparr>requested = True, enabled = True\<rparr>\<rparr>"
  let ?W = "\<lparr>ran = \<lambda>h c. True, served = \<lambda>h c. True, granted = \<lambda>h. True\<rparr>"
  let ?V = "\<lparr>ran = \<lambda>h c. c \<noteq> bridge_cmd False Hps2fpga, served = \<lambda>h c. True, granted = \<lambda>h. True\<rparr>"
  have m: "map_filenames_to_aocx_and_rbf ''a.rbf'' = (None, Some ''a.rbf'', None)"
    by (simp add: map_filenames_to_aocx_and_rbf_def filename_has_ext_def)
  obtain r h where run: "reprogram_main host0 ?a [] = Some (r, h)" "System (program_cmd ''a.rbf'') \<in> set h"
    by (simp add: reprogram_main_def m reprogram_with_rbf_def file_readable_def host0_def program_cmd_def
        LINE_SIZE_def prepare_fpga_for_reprogramming_def enable_fpga_after_reprogramming_def
        disable_bridges_def enable_bridges_def fpga_in_user_mode_def Let_def)
  moreover have "\<not> quiet (System c)" for c by (simp add: quiet_def)
  ultimately have loud: "\<not> list_all quiet h" unfolding list_all_iff by blast
  have ok: "safe ?W ?s h"
    using reprogramming_isolates_the_board [OF run(1), of ?W ?s] loud succeeded_if [of ?W h] by auto
  obtain f name u v g where g: "h = u @ program_trace f name @ v" "list_all quiet u" "list_all quiet v"
      "g = quieting_trace f @ v" "bridges (board_after ?V ?s g) = {b. failed ?V g (bridge_cmd False b)}"
    using reprogramming_isolates_the_board [OF run(1), of ?V ?s] loud by auto
  have "System (program_cmd ''a.rbf'') \<in> set (program_trace f name)"
    using run(2) g(1,2,3) by (auto simp: list_all_iff quiet_def)
  then have name: "program_cmd name = program_cmd ''a.rbf''"
    by (auto simp: program_trace_def quieting_trace_def)
  have "suffix (System (program_cmd ''a.rbf'') # g) h"
    by (simp add: g(1,4) program_trace_def name suffix_def)
  moreover have "bridges (board_after ?V ?s g) = {Hps2fpga}"
    unfolding g(5) by (auto simp: g(4) quieting_trace_def quiet_failed_all [OF g(3)])
  ultimately show ?thesis using run ok by blast
qed

text \<open>
  C23. A successful load followed by unloading acquires and releases the same kernel
  resources, each exactly once: memory, device numbers, class, character device, device node,
  both mappings and the interrupt line.
\<close>

theorem load_then_unload_balances:
  assumes "region_numbers_ok K" "aclsoc_probe K drv0 h = (0, drv, h1)"
    "aclsoc_obj drv = Some d" "addr_map d \<noteq> 0"
  shows "\<exists>tr cls. aclsoc_remove drv h1 =
      Some (\<lparr>aclsoc = 0, aclsoc_obj = None, aclsoc_class = cls\<rparr>, rev tr @ h) \<and>
    acquired K tr = released tr"
  by (rule load_unload_balance [OF assms])

theorem load_then_unload_balances_witness:
  "\<exists>drv h1 tr cls. aclsoc_probe kern0 unloaded [] = (0, drv, h1) \<and> aclsoc_remove drv h1 =
      Some (\<lparr>aclsoc = 0, aclsoc_obj = None, aclsoc_class = cls\<rparr>, rev tr) \<and> acquired kern0 tr = released tr"
proof -
  obtain drv d h1 where p: "aclsoc_probe kern0 unloaded [] = (0, drv, h1)" "aclsoc_obj drv = Some d" "addr_map d \<noteq> 0"
    by (rule kern0_probe)
  have "region_numbers_ok kern0" by (simp add: region_numbers_ok_def kern0_def)
  from load_then_unload_balances [OF this p] p(1) show ?thesis by auto
qed

section \<open>Mapped buffers\<close>

text \<open>
  C24. mmap() takes no lock. When two processes both search the table before either has filled
  its slot, both calls succeed with the same slot and one of the two DMA buffers is in no slot
  any more; the same two calls one after the other take two slots and both buffers are in the
  table.
\<close>

theorem concurrent_mmaps_share_a_slot:
  assumes "dev_wf d" "dense (addr_map_mem d)" "mmap_succeeds K" "vma_start v \<noteq> 0" "vma_start w \<noteq> 0"
    "Suc (length (used_prefix (addr_map_mem d))) < MAX_ADDR_MAP_ENTRIES"
  shows "(\<exists>v' w' d' h'.
      race_run K [First, Second, First, First, First, Second, Second, Second] (Searching v, Searching w, d, h) =
        Some (Returned 0 v', Returned 0 w', d', h') \<and> vma_private v' = vma_private w' \<and>
      size (dma_live h') = size (dma_live h) + 2 \<and>
      size (table_bufs (addr_map_mem d')) = size (table_bufs (addr_map_mem d)) + 1) \<and>
    (\<exists>v' w' d' h'.
      race_run K [First, First, First, First, Second, Second, Second, Second] (Searching v, Searching w, d, h) =
        Some (Returned 0 v', Returned 0 w', d', h') \<and> vma_private v' \<noteq> vma_private w' \<and>
      size (dma_live h') = size (dma_live h) + 2 \<and>
      size (table_bufs (addr_map_mem d')) = size (table_bufs (addr_map_mem d)) + 2)"
  using collision_count [OF assms(1) _ assms(3,5), of v h] serial_count [OF assms(1,2,6,3-5), of h] assms(6)
  by simp

theorem concurrent_mmaps_share_a_slot_witness:
  "\<exists>v' w' d' h'.
    race_run kern0 [First, Second, First, First, First, Second, Second, Second]
      (Searching vma0, Searching (vma0\<lparr>vma_start := 0x50000000, vma_end := 0x50001000\<rparr>), dev0, []) =
        Some (Returned 0 v', Returned 0 w', d', h') \<and> vma_private v' = vma_private w' \<and>
      size (table_bufs (addr_map_mem d')) = 1"
proof -
  have "dense (addr_map_mem dev0)" "mmap_succeeds kern0"
    by (simp_all add: dense_def dev0_table used_prefix_empty mmap_succeeds_def kern0_def)
  from concurrent_mmaps_share_a_slot [OF dev0_wf this, of vma0
      "vma0\<lparr>vma_start := 0x50000000, vma_end := 0x50001000\<rparr>" "[]"]
  have "\<exists>v' w' d' h'.
    race_run kern0 [First, Second, First, First, First, Second, Second, Second]
      (Searching vma0, Searching (vma0\<lparr>vma_start := 0x50000000, vma_end := 0x50001000\<rparr>), dev0, []) =
        Some (Returned 0 v', Returned 0 w', d', h') \<and> vma_private v' = vma_private w' \<and>
      size (dma_live h') = size (dma_live []) + 2 \<and>
      size (table_bufs (addr_map_mem d')) = size (table_bufs (addr_map_mem dev0)) + 1"
    by (simp only: dev0_table used_prefix_empty) (simp add: vma0_def hw_consts)
  moreover have "size (table_bufs (addr_map_mem dev0)) = 0"
    by (simp add: dev0_table table_bufs_def)
  ultimately show ?thesis by auto
qed

text \<open>
  C25. mmap() on a well-formed device, branch by branch: -ENOMEM with nothing allocated when
  the table is full, -ENOMEM when there is no memory, -EAGAIN when the pages cannot be mapped,
  with the memory lost, and otherwise the buffer entered into the first free slot with one
  reference, uncached pages and the slot in the mapping.
\<close>

theorem mmap_on_every_branch:
  assumes "dev_wf d"
  shows "aclsoc_mmap K v d h =
    (if length (used_prefix (addr_map_mem d)) = MAX_ADDR_MAP_ENTRIES then Some (- ENOMEM, v, d, h)
     else
       let sz = vma_end v - vma_start v;
           (p, dm) = ans_dma_alloc_coherent K h sz;
           h = Dma_alloc_coherent sz p dm # h
       in if p = 0 then Some (- ENOMEM, v, d, h)
          else
            let prot = pgprot_noncached K (vma_page_prot v);
                r = ans_remap_pfn_range K h (vma_start v) (drop_bit PAGE_SHIFT dm) sz prot;
                h = Remap_pfn_range (vma_start v) (drop_bit PAGE_SHIFT dm) sz prot r # h
            in if r < 0 then Some (- EAGAIN, v\<lparr>vma_page_prot := prot\<rparr>, d, h)
               else Some (0, v\<lparr>vma_page_prot := prot, vma_ops := True,
                                vma_private := Some (length (used_prefix (addr_map_mem d)))\<rparr>,
                          d\<lparr>addr_map_mem := table_insert (addr_map_mem d)
                              \<lparr>vm_start = vma_start v, map_size = sz, cpu_addr = p,
                               dma_handle = dm, ref = kr_init K\<rparr>\<rparr>, h))"
  by (rule aclsoc_mmap_eq [OF assms])

theorem mmap_on_every_branch_witness:
  "\<exists>v d h. aclsoc_mmap kern0 vma0 dev0 [] = Some (0, v, d, h) \<and> vma_private v = Some 0"
  unfolding mmap_on_every_branch [OF dev0_wf] dev0_table used_prefix_empty
  by (simp add: kern0_def vma0_def Let_def hw_consts)

text \<open>
  C26. After successful calls of mmap() on a device with an empty table, at most 128 of them
  and at different addresses other than 0, the command finds the bus address of each mapping:
  given the start address of one, it copies to the user the bus address that the allocator
  gave to the call of mmap() that made it. Between the calls the driver may do anything that
  leaves the table alone and the device well formed.
\<close>

theorem phys_address_of_mapped_buffers:
  assumes "dev_wf d0" "\<forall>e \<in> set (addr_map_mem d0). vm_start e = 0"
    "mappings K d0 h0 ms d h"
    "length ms \<le> 128" "distinct (map fst ms)" "\<forall>m \<in> set ms. fst m \<noteq> 0" "(a, bus) \<in> set ms"
    "command c = ACLPCI_CMD_GET_PHYS_PTR_FROM_VIRT"
    "copy_from_user K (user_addr c) (uninit K 4 h) h = (0, bytes_u32 a, hr)"
  shows "\<exists>left. aclsoc_exec_cmd K c n d h =
    Some (sint left, d, Copy_to_user (device_addr c) (bytes_u32 bus) left # hr)"
proof -
  obtain e where e: "table_lookup (addr_map_mem d) a = Some e" "dma_handle e = bus" "dev_wf d"
    using mapped_lookup [OF assms(3,1,2,4,5,6,7)] .
  then show ?thesis
    using assms(8,9) by (simp add: aclsoc_exec_cmd_def hw_consts phys_loop_table [OF e(3)] Let_def)
qed

theorem phys_address_of_mapped_buffers_witness:
  "\<exists>K d h left hr. mappings K dev0 [] [(0x40000000, 0x1000000), (0x50000000, 0x2000000)] d h \<and>
    aclsoc_exec_cmd K (board_cmd ACLPCI_CMD_GET_PHYS_PTR_FROM_VIRT) 0 d h =
      Some (sint left, d, Copy_to_user 0 (bytes_u32 0x2000000) left # hr)"
proof -
  let ?K = "kern0\<lparr>ans_copy_from_user := (\<lambda>h p old. (\<lambda>i. bytes_u32 0x50000000 ! i, 0)),
    ans_dma_alloc_coherent := (\<lambda>h n. (0xC1000000, if h = [] then 0x1000000 else 0x2000000))\<rparr>"
  let ?v = "vma0\<lparr>vma_start := 0x50000000, vma_end := 0x50001000\<rparr>"
  have empty: "\<forall>e \<in> set (addr_map_mem dev0). vm_start e = 0" by (simp add: dev0_table zero_elem_def)
  obtain v1 d1 h1 where one: "aclsoc_mmap ?K vma0 dev0 [] = Some (0, v1, d1, h1)" "h1 \<noteq> []" "dev_wf d1"
      "addr_map_mem d1 = elem0 # replicate 203 zero_elem"
    using dev0_wf unfolding aclsoc_mmap_eq [OF dev0_wf] dev0_table
    by (simp add: hw_consts kern0_def vma0_def Let_def table_insert_def elem0_def used_prefix_def dev_wf_def
        zero_elem_def replicate_slots)
  have "used_prefix (addr_map_mem d1) = [elem0]"
    by (simp add: one(4) used_prefix_def elem0_def zero_elem_def)
  then obtain v2 d h where two: "aclsoc_mmap ?K ?v d1 h1 = Some (0, v2, d, h)"
    unfolding aclsoc_mmap_eq [OF one(3)] by (simp add: hw_consts kern0_def vma0_def Let_def)
  have maps: "mappings ?K dev0 [] [(0x40000000, 0x1000000), (0x50000000, 0x2000000)] d h"
    using mappings.one_mapping [OF one(1) mappings.one_mapping [OF two mappings.no_mapping]] one(2)
    by (simp add: vma0_def)
  have "map (\<lambda>i. bytes_u32 0x50000000 ! i) [0..<4] = bytes_u32 0x50000000"
    using map_nth [of "bytes_u32 0x50000000"] by simp
  then have f: "copy_from_user ?K (user_addr (board_cmd ACLPCI_CMD_GET_PHYS_PTR_FROM_VIRT)) (uninit ?K 4 h) h =
      (0, bytes_u32 0x50000000, Copy_from_user 0 (bytes_u32 0x50000000) 0 # h)"
    by (simp add: copy_from_user_def Let_def board_cmd_def)
  have "\<exists>left. aclsoc_exec_cmd ?K (board_cmd ACLPCI_CMD_GET_PHYS_PTR_FROM_VIRT) 0 d h =
    Some (sint left, d, Copy_to_user (device_addr (board_cmd ACLPCI_CMD_GET_PHYS_PTR_FROM_VIRT))
      (bytes_u32 0x2000000) left # Copy_from_user 0 (bytes_u32 0x50000000) 0 # h)"
    by (rule phys_address_of_mapped_buffers [OF dev0_wf empty maps _ _ _ _ _ f]) (simp_all add: board_cmd_def)
  then obtain left where "aclsoc_exec_cmd ?K (board_cmd ACLPCI_CMD_GET_PHYS_PTR_FROM_VIRT) 0 d h =
    Some (sint left, d, Copy_to_user 0 (bytes_u32 0x2000000) left # Copy_from_user 0 (bytes_u32 0x50000000) 0 # h)"
    by (auto simp: board_cmd_def)
  with maps show ?thesis by blast
qed

text \<open>
  C27. Closing a mapping drops one reference of its buffer: the buffer is freed and its slot
  zeroed exactly when that was the last one, and otherwise nothing but the count changes and
  no call is made.
\<close>

theorem unmap_frees_on_last_reference:
  assumes "kref_ok K" "vma_private v = Some i" "slot d i = Some e" "vm_start e \<noteq> 0"
  shows "aclsoc_vma_close K v d h =
    Some (if ref e = 1
          then (set_slot d i zero_elem, Dma_free_coherent (map_size e) (cpu_addr e) (dma_handle e) # h)
          else (set_slot d i (e\<lparr>ref := ref e - 1\<rparr>), h))"
  using assms
  by (simp add: aclsoc_vma_close_def kref_ok_def aclsoc_release_mmap_memory_def free_map_info_def
      dma_free_coherent_def)

theorem unmap_frees_on_last_reference_witness:
  "aclsoc_vma_close kern0 (vma0\<lparr>vma_private := Some 0\<rparr>) (dev0\<lparr>addr_map_mem := elem0 # replicate 203 zero_elem\<rparr>) [] =
    Some (set_slot (dev0\<lparr>addr_map_mem := elem0 # replicate 203 zero_elem\<rparr>) 0 zero_elem,
          [Dma_free_coherent 0x1000 0xC1000000 0x1000000])"
  using unmap_frees_on_last_reference [OF kern0_kref, of "vma0\<lparr>vma_private := Some 0\<rparr>" 0
      "dev0\<lparr>addr_map_mem := elem0 # replicate 203 zero_elem\<rparr>" elem0 "[]"]
  by (simp add: slot_def elem0_def dev0_def)

text \<open>
  C28. The search for a bus address stops at the first free slot. When any slot below the one
  of a live buffer is free, as it is after its buffer has been unmapped, and no slot below the
  free one has the same start address, then the buffer, though it is in the table, is not
  found: the command reports success and copies no address to the user.
\<close>

theorem hole_hides_later_buffers:
  assumes "dev_wf d" "slot d i = Some free" "vm_start free = 0"
    "i < j" "slot d j = Some e" "vm_start e \<noteq> 0"
    "\<forall>k < i. vm_start (addr_map_mem d ! k) \<noteq> vm_start e"
    "command c = ACLPCI_CMD_GET_PHYS_PTR_FROM_VIRT"
    "copy_from_user K (user_addr c) (uninit K 4 h) h = (0, bytes_u32 (vm_start e), hr)"
  shows "aclsoc_exec_cmd K c n d h = Some (0, d, hr) \<and> live_lookup (addr_map_mem d) (vm_start e) \<noteq> None"
proof -
  have s: "i < length (addr_map_mem d)" "addr_map_mem d ! i = free" "e \<in> set (addr_map_mem d)"
    using assms(2,5) by (auto simp: slot_def split: if_splits)
  then have "table_lookup (addr_map_mem d) (vm_start e) = None"
    using hole_ends_search [of i "addr_map_mem d"] assms(3,7) by simp
  moreover have "live_lookup (addr_map_mem d) (vm_start e) \<noteq> None"
    using s(3) assms(6) by (auto simp: live_lookup_def find_None_iff)
  ultimately show ?thesis
    using assms(8,9) by (simp add: aclsoc_exec_cmd_def hw_consts phys_loop_table [OF assms(1)])
qed

theorem hole_hides_later_buffers_witness:
  "\<exists>K d d' h hr. addr_map_mem d =
      elem0 # elem0\<lparr>vm_start := 0x50000000\<rparr> # elem0\<lparr>vm_start := 0x60000000\<rparr> # replicate 201 zero_elem \<and>
    aclsoc_vma_close K (vma0\<lparr>vma_private := Some 1\<rparr>) d [] = Some (d', h) \<and>
    live_lookup (addr_map_mem d') 0x60000000 \<noteq> None \<and>
    aclsoc_exec_cmd K (board_cmd ACLPCI_CMD_GET_PHYS_PTR_FROM_VIRT) 0 d' h = Some (0, d', hr)"
proof -
  let ?K = "kern0\<lparr>ans_copy_from_user := (\<lambda>h p old. (\<lambda>i. bytes_u32 0x60000000 ! i, 0))\<rparr>"
  let ?c = "board_cmd ACLPCI_CMD_GET_PHYS_PTR_FROM_VIRT"
  let ?last = "elem0\<lparr>vm_start := 0x60000000\<rparr>"
  let ?d = "dev0\<lparr>addr_map_mem := elem0 # elem0\<lparr>vm_start := 0x50000000\<rparr> # ?last # replicate 201 zero_elem\<rparr>"
  let ?e = "dev0\<lparr>addr_map_mem := elem0 # zero_elem # ?last # replicate 201 zero_elem\<rparr>"
  let ?h = "[Dma_free_coherent 0x1000 0xC1000000 0x1000000]"
  have wf: "dev_wf ?e" using dev0_wf by (simp add: dev_wf_def hw_consts)
  have close: "aclsoc_vma_close ?K (vma0\<lparr>vma_private := Some 1\<rparr>) ?d [] = Some (?e, ?h)"
    by (simp add: aclsoc_vma_close_def aclsoc_release_mmap_memory_def free_map_info_def dma_free_coherent_def
        slot_def set_slot_def elem0_def kern0_def dev0_def)
  have "map (\<lambda>i. bytes_u32 0x60000000 ! i) [0..<4] = bytes_u32 0x60000000"
    using map_nth [of "bytes_u32 0x60000000"] by simp
  then have f: "copy_from_user ?K (user_addr ?c) (uninit ?K 4 ?h) ?h =
      (0, bytes_u32 (vm_start ?last), Copy_from_user 0 (bytes_u32 0x60000000) 0 # ?h)"
    by (simp add: copy_from_user_def Let_def board_cmd_def)
  have "slot ?e 1 = Some zero_elem" "slot ?e 2 = Some ?last" by (simp_all add: slot_def dev0_def)
  moreover have "\<forall>k < 1. vm_start (addr_map_mem ?e ! k) \<noteq> vm_start ?last" by (simp add: elem0_def)
  ultimately have run: "aclsoc_exec_cmd ?K ?c 0 ?e ?h = Some (0, ?e, Copy_from_user 0 (bytes_u32 0x60000000) 0 # ?h)"
    and live: "live_lookup (addr_map_mem ?e) 0x60000000 \<noteq> None"
    using hole_hides_later_buffers [OF wf, of 1 zero_elem 2 ?last ?c ?K ?h _ 0, OF _ _ _ _ _ _ _ f]
    by (simp_all add: board_cmd_def zero_elem_def)
  show ?thesis
    by (rule exI [of _ ?K], rule exI [of _ ?d], rule exI [of _ ?e], rule exI [of _ ?h],
        rule exI [of _ "Copy_from_user 0 (bytes_u32 0x60000000) 0 # ?h"])
      (intro conjI close live run, simp)
qed

text \<open>
  C29. The interrupt handler always handles the interrupt: it masks the board first, then
  signals the opening process if there is one, with the stored payload, counts the interrupt
  and changes nothing else but the count of undelivered signals; the abstract line stays
  requested and is masked.
\<close>

theorem handler_masks_and_signals:
  assumes "aclsoc_irq K (Some d) h = (res, d', h')"
  shows "\<exists>n r. res = IRQ_HANDLED \<and>
    d' = Some (d\<lparr>num_handled_interrupts := num_handled_interrupts d + 1, num_undelivered_signals := n\<rparr>) \<and>
    h' = (if user_task d = 0 then Writel 0 (get_interrupt_enable_addr d) # h
          else Send_sig_info SIG_INT_NOTIFY (signal_info d) (user_task d) r #
               Writel 0 (get_interrupt_enable_addr d) # h) \<and>
    irq_abs_of d h' = irq_spec IHandle (irq_abs_of d h)"
proof -
  obtain n where d': "d' = Some (d\<lparr>num_handled_interrupts := num_handled_interrupts d + 1, num_undelivered_signals := n\<rparr>)"
    using aclsoc_irq_dev [OF assms] by blast
  let ?r = "ans_send_sig_info K (Writel 0 (get_interrupt_enable_addr d) # h) SIG_INT_NOTIFY (signal_info d) (user_task d)"
  have "res = IRQ_HANDLED \<and> irq_abs_of d h' = irq_spec IHandle (irq_abs_of d h)"
    using aclsoc_irq_refines [OF assms [unfolded d']] by simp
  with d' aclsoc_irq_hist [OF assms] show ?thesis
    by (intro exI [of _ n] exI [of _ ?r]) simp
qed

theorem handler_masks_and_signals_witness:
  "\<exists>res d' h'. aclsoc_irq kern0 (Some dev0) [] = (res, d', h') \<and> res = IRQ_HANDLED \<and>
    h' = [Writel 0 (get_interrupt_enable_addr dev0)]"
proof -
  obtain res d' h' where i: "aclsoc_irq kern0 (Some dev0) [] = (res, d', h')" by (metis prod_cases3)
  have "user_task dev0 = 0" by (simp add: dev0_def zero_dev_def)
  with handler_masks_and_signals [OF i] i show ?thesis by auto
qed

text \<open>
  C30. Which task an interrupt signals: after any sequence of entries the task of the last
  successful open gets the signal, whoever opened the device before and whatever was closed or
  unmapped since, its own file included, because close() does not clear the task.
\<close>

theorem signal_follows_last_open:
  assumes "enter_all K es s = Some u" "aclsoc_open K pid cur (sdev u) (shist u) = (0, d, h)"
    "enter_all K (fs @ Close_file # gs) (u\<lparr>sdev := d, shist := h\<rparr>) = Some t"
    "list_all (Not \<circ> opens) (fs @ gs)"
  shows "reachable K s t \<and> cur \<noteq> 0 \<and>
    (\<exists>d' r. aclsoc_irq K (Some (sdev t)) (shist t) = (IRQ_HANDLED, Some d',
       Send_sig_info SIG_INT_NOTIFY (signal_info (sdev t)) cur r #
       Writel 0 (get_interrupt_enable_addr (sdev t)) # shist t))"
proof -
  have "list_all (Not \<circ> opens) (fs @ Close_file # gs)" using assms(4) by simp
  note l = last_opener_signalled [OF assms(1-3) this]
  then have "reachable K s t" by (auto simp: reachable_enter_all)
  with l irq_signals [of "sdev t" K "shist t"] show ?thesis by simp
qed

theorem signal_follows_last_open_witness:
  "\<exists>d h t d' r. aclsoc_open kern0 17 0xC6000000 dev0 [] = (0, d, h) \<and>
    enter_all kern0 [Close_file] \<lparr>sdev = d, shist = h, maps = []\<rparr> = Some t \<and>
    aclsoc_irq kern0 (Some (sdev t)) (shist t) = (IRQ_HANDLED, Some d',
      Send_sig_info SIG_INT_NOTIFY (signal_info (sdev t)) 0xC6000000 r #
      Writel 0 (get_interrupt_enable_addr (sdev t)) # shist t)"
proof -
  obtain d h where o: "aclsoc_open kern0 17 0xC6000000 dev0 [] = (0, d, h)"
    by (simp add: aclsoc_open_def env_simps Let_def kern0_def load_signal_info_def)
  obtain t where t: "enter_all kern0 ([] @ Close_file # []) ((loaded dev0 [])\<lparr>sdev := d, shist := h\<rparr>) = Some t"
    by (simp add: entered_def split_def)
  from signal_follows_last_open [where es = "[]" and s = "loaded dev0 []" and u = "loaded dev0 []"
      and fs = "[]" and gs = "[]" and pid = 17 and cur = "0xC6000000", OF _ _ t] o t
  show ?thesis by (auto simp: loaded_def)
qed

section \<open>Boundaries and errors\<close>



text \<open>
  C32. A two-byte write at the last two bytes of the control region passes the bounds check
  and touches a register beyond the region.
\<close>

theorem two_byte_write_leaves_region:
  assumes "dev_wf d" "arrives K buf h (mk_cmd 2 0x3FFFE u 2)"
  shows "\<exists>r d' tr. aclsoc_write K buf d h = Some (r, d', rev tr @ h) \<and>
    (\<exists>x \<in> touched tr. \<not> in_region (mapped_region d 2) 0x40000 x)"
proof -
  let ?c = "mk_cmd 2 0x3FFFE u 2" and ?a = "mapped_region d 2 + 0x3FFFE"
  let ?h = "Copy_from_user buf (encode_cmd ?c) 0 # Down 0 # h"
  have t: "no_wrap ?c" "rw_target ?c = Control" "bar_id ?c \<noteq> ACLPCI_CMD_BAR"
    by (simp_all add: mk_cmd_def no_wrap_def rw_target_def hw_consts)
  obtain bs left bs' left' where w: "aclsoc_write_small K ?a u 2 ?h =
      (if left' \<noteq> 0 then - EFAULT else 0,
       rev [Copy_from_user u bs left, Writew (u16_bytes bs) ?a,
            Copy_from_user u bs' left', Writel (u32_bytes bs') ?a] @ ?h)" "length bs = 2" "length bs' = 4"
    using write_small_two by blast
  let ?tr = "[Copy_from_user u bs left, Writew (u16_bytes bs) ?a, Copy_from_user u bs' left', Writel (u32_bytes bs') ?a]"
  have "aclsoc_write K buf d h =
      Some (if left' \<noteq> 0 then - EFAULT else 0, d, rev (request_trace buf ?c ?tr) @ h)"
    using rw_accepted [OF assms(1) t(1), of K False ?h] t(2) w(1) aclsoc_rw_arrives [OF assms(2) t(3), of False d]
    by (simp add: aclsoc_write_def request_trace_def region_of_def rw_move_def mk_cmd_def)
  moreover have "?a + of_nat 3 \<in> touched (request_trace buf ?c ?tr)"
  proof -
    have "set (place ?a (bytes_u32 (u32_bytes bs'))) \<subseteq> set (moved dev_writes (request_trace buf ?c ?tr))"
      by (auto simp: request_trace_def moved_def)
    moreover have "(?a + of_nat 3, bs' ! 3) \<in> set (place ?a (bytes_u32 (u32_bytes bs')))"
      using place_nth [of 3 bs' ?a] nth_mem [of 3 "place ?a bs'"] w(3) by (simp add: bytes_u32_u32)
    ultimately show ?thesis by (force simp: touched_def)
  qed
  moreover have "\<not> in_region (mapped_region d 2) 0x40000 (?a + of_nat 3)"
    by (simp add: in_region_def)
  ultimately show ?thesis by blast
qed

theorem two_byte_write_leaves_region_witness:
  "\<exists>r d' tr. aclsoc_write (kern_with (mk_cmd 2 0x3FFFE 0x500 2)) 0 dev0 [] = Some (r, d', rev tr) \<and>
    (\<exists>x \<in> touched tr. \<not> in_region (mapped_region dev0 2) 0x40000 x)"
  using two_byte_write_leaves_region [OF dev0_wf kern_with_arrives] by simp

text \<open>
  C33. A one- or four-byte write whose bytes could not be fetched returns -EFAULT, but only
  after writing the unfetched value to the register.
\<close>

theorem failed_copy_still_written:
  assumes "sz = 1 \<or> sz = 4" "\<forall>h old. snd (ans_copy_from_user K h u old) \<noteq> 0"
  shows "\<exists>bs left e. aclsoc_write_small K a u sz h = (- EFAULT, rev [Copy_from_user u bs left, e] @ h) \<and>
    left \<noteq> 0 \<and> dev_writes e = place a bs \<and> length bs = unat sz"
proof -
  let ?old = "uninit K (unat sz) h"
  obtain f left where f: "ans_copy_from_user K h u ?old = (f, left)" by force
  let ?bs = "map f [0..<unat sz]"
  have l: "left \<noteq> 0" using assms(2) f by (metis snd_conv)
  obtain bs left' e where w: "aclsoc_write_small K a u sz h =
      (if left' \<noteq> 0 then - EFAULT else 0, rev [Copy_from_user u bs left', e] @ h)"
    "length bs = unat sz" "dev_writes e = place a bs"
    using write_small_trace [OF assms(1)] by blast
  have "left' = left"
    using w(1) f assms(1)
    by (auto simp: aclsoc_write_small_def write_case1_def write_case4_def copy_from_user_def Let_def
        env_simps split: if_split_asm)
  with w l show ?thesis by auto
qed

theorem failed_copy_still_written_witness:
  "\<exists>bs left e. aclsoc_write_small (kern0\<lparr>ans_copy_from_user := (\<lambda>h p old. (\<lambda>i. 0, 1))\<rparr>) 0xF0000000 0x500 4 [] =
      (- EFAULT, rev [Copy_from_user 0x500 bs left, e]) \<and>
    left \<noteq> 0 \<and> dev_writes e = place 0xF0000000 bs \<and> length bs = 4"
  using failed_copy_still_written [of 4 "kern0\<lparr>ans_copy_from_user := (\<lambda>h p old. (\<lambda>i. 0, 1))\<rparr>" "0x500" "0xF0000000" "[]"]
  by simp

text \<open>
  C34. The commands below the maximum are the nine the driver carries out and ten the header
  only declares, the default command, documented as doing nothing, among them. In both copies
  read() and write() refuse each of these ten, and every larger number, with -EFAULT: the
  command is fetched under the lock, no other call is made and the device is unchanged.
\<close>

theorem unsupported_commands_refused:
  assumes "arrives K buf h c" "bar_id c = ACLPCI_CMD_BAR"
    "command c \<in> set declared_commands \<or> ACLPCI_CMD_MAX_CMD \<le> command c"
  shows "aclsoc_rw K buf reading d h = Some (- EFAULT, d, rev (request_trace buf c []) @ h) \<and>
    outcome (card_rw K buf reading) d h = Some (- EFAULT, d, rev (request_trace buf c []) @ h) \<and>
    set supported_commands \<union> set declared_commands = {n. n < ACLPCI_CMD_MAX_CMD}"
proof -
  have "command c \<notin> set supported_commands"
    using assms(3) all_commands by (metis UnI1 disjoint_iff linorder_not_le mem_Collect_eq)
  with refused_command [OF assms(1,2)] card_refused_command [OF assms(1,2)] all_commands(2) show ?thesis by blast
qed

theorem unsupported_commands_refused_witness:
  "let c = (mk_cmd ACLPCI_CMD_BAR 0 0 0)\<lparr>command := ACLPCI_CMD_DEFAULT\<rparr>
   in aclsoc_rw (kern_with c) 0 True dev0 [] = Some (- 14, dev0, rev (request_trace 0 c [])) \<and>
      outcome (card_rw (kern_with c) 0 True) dev0 [] = Some (- 14, dev0, rev (request_trace 0 c []))"
proof -
  let ?c = "(mk_cmd ACLPCI_CMD_BAR 0 0 0)\<lparr>command := ACLPCI_CMD_DEFAULT\<rparr>"
  have "bar_id ?c = ACLPCI_CMD_BAR" "command ?c \<in> set declared_commands \<or> ACLPCI_CMD_MAX_CMD \<le> command ?c"
    by (simp_all add: mk_cmd_def declared_commands_def)
  from unsupported_commands_refused [OF kern_with_arrives this, of True dev0] show ?thesis
    by (simp add: hw_consts Let_def)
qed

text \<open>
  C35. When the transfer buffer cannot be allocated the probe frees the device object but
  keeps the pointer, the module still loads successfully, and unloading it follows the
  dangling pointer.
\<close>

theorem failed_load_faults_at_exit:
  assumes "ans_kzalloc K h (sizeof_aclsoc_dev K) = p" "p \<noteq> 0" "\<forall>h. ans_kmalloc K h 4096 = 0"
  shows "\<exists>drv h'. aclsoc_init K drv0 h = (0, drv, h') \<and> Kfree p \<in> set h' \<and> aclsoc_exit drv h' = None"
proof -
  obtain am where a: "aclsoc_probe K drv0 h = (-1, drv0\<lparr>aclsoc := p, aclsoc_obj := None\<rparr>,
      Kfree p # Kmalloc 4096 0 # Kzalloc 4080 am # Kzalloc (sizeof_aclsoc_dev K) p # h)"
    using no_buffer_dangles [OF assms] by blast
  have "aclsoc_obj (drv0\<lparr>aclsoc := p, aclsoc_obj := None\<rparr>) = None"
    "aclsoc (drv0\<lparr>aclsoc := p, aclsoc_obj := None\<rparr>) \<noteq> 0" using assms(2) by simp_all
  from failed_probe_dangles [OF a this] a show ?thesis
    by (intro exI conjI) (simp_all add: aclsoc_init_def)
qed

theorem failed_load_faults_at_exit_witness:
  "\<exists>drv h'. aclsoc_init (kern0\<lparr>ans_kmalloc := (\<lambda>h n. 0)\<rparr>) unloaded [] = (0, drv, h') \<and>
    Kfree 0xC3000000 \<in> set h' \<and> aclsoc_exit drv h' = None"
  by (rule failed_load_faults_at_exit) (simp_all add: kern0_def)

text \<open>
  C36. When the device class cannot be created, the error path gives back device number -1
  instead of the region it was allocated: the allocated region is never released.
\<close>

theorem class_failure_leaks_numbers:
  assumes "ans_alloc_chrdev_region K h 0 1 BOARD_NAME = (r, num)" "0 \<le> r" "num \<noteq> 0xFFFFFFFF"
    "\<forall>h. IS_ERR K (ans_class_create K h DRIVER_NAME)"
  shows "\<exists>d' cls tr. init_chrdev K d c h = (-1, d', cls, rev tr @ h) \<and>
    RRegion num \<in># acquired K tr \<and> RRegion num \<notin># released tr"
proof -
  obtain cls d' where i: "init_chrdev K d c h = (-1, d', cls,
      rev [Alloc_chrdev_region 0 1 BOARD_NAME r num, Class_create DRIVER_NAME cls,
           Unregister_chrdev_region 0xFFFFFFFF 1] @ h)"
    using class_failure_leaks [OF assms(1,2,4), of d c] by auto
  show ?thesis
    using assms(2,3) i
    by (intro exI [of _ d'] exI [of _ cls] exI [of _ "[Alloc_chrdev_region 0 1 BOARD_NAME r num,
        Class_create DRIVER_NAME cls, Unregister_chrdev_region 0xFFFFFFFF 1]"])
      (simp add: acquired_def released_def)
qed

theorem class_failure_leaks_numbers_witness:
  "\<exists>d' cls tr. init_chrdev (kern0\<lparr>IS_ERR := (\<lambda>p. True)\<rparr>) dev0 0 [] = (-1, d', cls, rev tr) \<and>
    RRegion 0xFA00000 \<in># acquired (kern0\<lparr>IS_ERR := (\<lambda>p. True)\<rparr>) tr \<and> RRegion 0xFA00000 \<notin># released tr"
  using class_failure_leaks_numbers [of "kern0\<lparr>IS_ERR := (\<lambda>p. True)\<rparr>" "[]" 0 "0xFA00000" dev0 0]
  by (simp add: kern0_def)

section \<open>The other programs\<close>

text \<open>
  C37. However the diagnostic's device scan ends, by success, by a mismatch or by an error
  that ends the program, every OpenCL context and queue it created has been released, each
  exactly once.
\<close>

theorem diagnostic_releases_on_every_path:
  assumes "scan_device R [] = (x, h)"
  shows "cl_acquired h = cl_released h"
  by (rule scan_balance [OF assms]) (simp add: cl_balanced_def cl_acquired_def cl_released_def held_def no_handles_def)

theorem diagnostic_releases_on_every_path_witness:
  "\<exists>x h. scan_device (rt0\<lparr>r_queue := (\<lambda>h. (1, -5))\<rparr>) [] = (x, h) \<and> OContext 1 \<in># cl_released h"
proof -
  obtain x h where s: "scan_device (rt0\<lparr>r_queue := (\<lambda>h. (1, -5))\<rparr>) [] = (x, h)" "OContext 1 \<in># cl_acquired h"
    by (simp add: scan_device_def ocl_device_init_def rt0_def CL_SUCCESS_def dump_error_def freeResources_def
        no_handles_def cl_acquired_def)
  from diagnostic_releases_on_every_path [OF s(1)] s show ?thesis by auto
qed

text \<open>
  C38. A readable design file with a name that fits is sent in one fixed sequence, and the
  result is 0 exactly when the status file then opens and the part of its first line that is
  read contains "user mode".
\<close>

theorem reprogramming_succeeds_iff_user_mode:
  fixes f :: int and H :: host and h :: uhist
  assumes "h_fopen H h name" "length name \<le> 1006"
  defines "h1 \<equiv> program_trace f name @ Fclose name # Fopen name True # h"
  shows "\<exists>t. reprogram_with_rbf H f (Some name) h =
    Some (if h_fopen H h1 status_file \<and> (\<exists>l. h_fgets H (Fopen status_file True # h1) status_file = Some l \<and>
                sublist ''user mode'' (take 1023 l)) then 0 else 1, t @ h1)"
proof -
  obtain b h2 where m: "fpga_in_user_mode H h1 = (b, h2)" by force
  then obtain t where t: "h2 = t @ h1" using user_mode_events [OF m] by blast
  have b: "b \<longleftrightarrow> h_fopen H h1 status_file \<and>
      (\<exists>l. h_fgets H (Fopen status_file True # h1) status_file = Some l \<and> sublist ''user mode'' (take 1023 l))"
    using user_mode_events [OF m] by (simp add: LINE_SIZE_def)
  have fits: "\<not> LINE_SIZE < length (program_cmd name) + 1" using assms(2) by (simp add: program_cmd_def LINE_SIZE_def)
  have "reprogram_with_rbf H f (Some name) h = Some (if b then 0 else 1, t @ h1)"
    using assms(1) m t fits
    by (simp add: reprogram_with_rbf_def file_readable_def program_trace_eq h1_def)
  then show ?thesis unfolding b by blast
qed

theorem reprogramming_succeeds_iff_user_mode_witness:
  "\<exists>h. reprogram_with_rbf host0 3 (Some ''a.rbf'') [] = Some (0, h)"
  using reprogramming_succeeds_iff_user_mode [where H = host0 and h = "[]" and name = "''a.rbf''" and f = 3]
  by (simp add: host0_def) blast

text \<open>
  C39. For a readable design file, building the shell command stays in its 1024-character
  buffer exactly when the name has at most 1006 characters.
\<close>

theorem long_file_name_overflows:
  assumes "h_fopen H h name"
  shows "reprogram_with_rbf H f (Some name) h = None \<longleftrightarrow> 1006 < length name"
  using assms
  by (auto simp: reprogram_with_rbf_def file_readable_def program_cmd_def LINE_SIZE_def Let_def split: prod.split)

theorem long_file_name_overflows_witness:
  "reprogram_with_rbf host0 3 (Some (replicate 1007 CHR ''a'')) [] = None"
  using long_file_name_overflows [of host0 "[]" "replicate 1007 CHR ''a''" 3] by (simp add: host0_def)

end
